theory Spec2Isabelle
  imports Main "HOL-Library.Char_ord" "HOL-Library.List_Lexorder" "HOL-Library.Code_Target_Nat"
begin

section \<open>Errors and the search engine's strategies\<close>

text \<open>
  The exceptions that can leave the code: the two the repository raises itself
  (\<^verbatim>\<open>ValueError\<close>, \<^verbatim>\<open>TypeError\<close>), the engine's
  \<^verbatim>\<open>InvalidArgument\<close> and the schema library's \<^verbatim>\<open>GraphQLError\<close>.
\<close>

datatype error =
    ValueError string
  | TypeError string
  | InvalidArgument string
  | GraphQLError string

text \<open>
  A Hypothesis strategy is a description that the engine samples by feeding it a finite
  sequence of choices. Sampling either produces a value, or lets an exception escape
  (code that runs during the draw raised), or is discarded by the engine (the choice
  sequence ran out, a filter rejected the attempt, the nesting budget was used up).
  Building a strategy is a separate, earlier step: every function of the repository that
  can raise while it \<^emph>\<open>builds\<close> a strategy returns \<open>error + 'a strategy\<close>.
\<close>

datatype 'a outcome = Value 'a | Raise error | Invalid

type_synonym choices = "nat list"

type_synonym 'a strategy = "choices \<Rightarrow> 'a outcome \<times> choices"

definition bind :: "'a strategy \<Rightarrow> ('a \<Rightarrow> 'b strategy) \<Rightarrow> 'b strategy" where
  "bind s k = (\<lambda>cs. case s cs of
       (Value v, cs1) \<Rightarrow> k v cs1
     | (Raise e, cs1) \<Rightarrow> (Raise e, cs1)
     | (Invalid, cs1) \<Rightarrow> (Invalid, cs1))"

definition just :: "'a \<Rightarrow> 'a strategy" where
  "just x = (\<lambda>cs. (Value x, cs))"

definition none :: "'a option strategy" where
  "none = just None"

definition mark_invalid :: "'a strategy" where
  "mark_invalid = (\<lambda>cs. (Invalid, cs))"

definition raising :: "error \<Rightarrow> 'a strategy" where
  "raising e = (\<lambda>cs. (Raise e, cs))"

definition choice :: "nat strategy" where
  "choice = (\<lambda>cs. case cs of [] \<Rightarrow> (Invalid, []) | c # cs' \<Rightarrow> (Value c, cs'))"

definition sampled_from :: "'a list \<Rightarrow> 'a strategy" where
  "sampled_from elements =
     (if elements = [] then raising (InvalidArgument ''Cannot sample from a length-zero sequence.'')
      else bind choice (\<lambda>c. just (elements ! (c mod length elements))))"

definition one_of :: "'a strategy list \<Rightarrow> 'a strategy" where
  "one_of ss =
     (if ss = [] then mark_invalid
      else bind choice (\<lambda>c. ss ! (c mod length ss)))"

definition map_st :: "('a \<Rightarrow> 'b) \<Rightarrow> 'a strategy \<Rightarrow> 'b strategy" where
  "map_st f s = bind s (\<lambda>v. just (f v))"

text \<open>
  \<^verbatim>\<open>s.flatmap(f)\<close>: \<open>f\<close> runs during the draw, on the value drawn from \<open>s\<close>;
  an exception of \<open>f\<close> escapes from the draw.
\<close>

definition flatmap :: "'a strategy \<Rightarrow> ('a \<Rightarrow> error + 'b strategy) \<Rightarrow> 'b strategy" where
  "flatmap s f = bind s (\<lambda>v. case f v of Inl e \<Rightarrow> raising e | Inr s' \<Rightarrow> s')"

definition builds :: "('a \<Rightarrow> 'b) \<Rightarrow> 'a strategy \<Rightarrow> 'b strategy" where
  "builds target s = bind s (\<lambda>v. just (target v))"

definition builds2 :: "('a \<Rightarrow> 'b \<Rightarrow> 'c) \<Rightarrow> 'a strategy \<Rightarrow> 'b strategy \<Rightarrow> 'c strategy" where
  "builds2 target s1 s2 = bind s1 (\<lambda>v1. bind s2 (\<lambda>v2. just (target v1 v2)))"

text \<open>\<^verbatim>\<open>st.tuples(*ss)\<close>, its draws kept as lists (so \<^verbatim>\<open>.map(list)\<close> is \<open>map_st id\<close>).\<close>

primrec tuples :: "'a strategy list \<Rightarrow> 'a list strategy" where
  "tuples [] = just []"
| "tuples (s # ss) = bind s (\<lambda>v. bind (tuples ss) (\<lambda>vs. just (v # vs)))"

primrec draw_n :: "nat \<Rightarrow> 'a strategy \<Rightarrow> 'a list strategy" where
  "draw_n 0 s = just []"
| "draw_n (Suc n) s = bind s (\<lambda>v. bind (draw_n n s) (\<lambda>vs. just (v # vs)))"

text \<open>
  \<^verbatim>\<open>st.lists(elements, min_size=m)\<close>: one choice fixes how many elements beyond the
  minimum are drawn. With \<^verbatim>\<open>unique_by=key\<close> an attempt with a repeated key is
  discarded.
\<close>

definition lists_st :: "'a strategy \<Rightarrow> nat \<Rightarrow> 'a list strategy" where
  "lists_st elements min_size = bind choice (\<lambda>k. draw_n (min_size + k) elements)"

definition lists_unique_by :: "'a strategy \<Rightarrow> nat \<Rightarrow> ('a \<Rightarrow> 'k) \<Rightarrow> 'a list strategy" where
  "lists_unique_by elements min_size key =
     bind (lists_st elements min_size)
       (\<lambda>vs. if distinct (map key vs) then just vs else mark_invalid)"

definition integers :: "int \<Rightarrow> int \<Rightarrow> int strategy" where
  "integers min_value max_value =
     (if max_value < min_value then raising (InvalidArgument ''Cannot have max_value < min_value'')
      else bind choice (\<lambda>c. just (min_value + int (c mod nat (max_value - min_value + 1)))))"

definition booleans :: "bool strategy" where
  "booleans = bind choice (\<lambda>c. just (c mod 2 = 1))"

text \<open>
  A Python float is kept as its 64 bits (sign, 11 bits of exponent, 52 bits of fraction);
  an exponent field of all ones is an infinity (fraction zero) or a NaN.
\<close>

type_synonym pyfloat = nat

definition floats :: "bool \<Rightarrow> bool \<Rightarrow> pyfloat strategy" where
  "floats allow_infinity allow_nan =
     bind choice (\<lambda>c.
       let bits = c mod 2 ^ 64;
           exponent = (bits div 2 ^ 52) mod 2 ^ 11;
           fraction = bits mod 2 ^ 52
       in if exponent = 2047 \<and> fraction = 0 \<and> \<not> allow_infinity then mark_invalid
          else if exponent = 2047 \<and> fraction \<noteq> 0 \<and> \<not> allow_nan then mark_invalid
          else just bits)"

text \<open>
  A Python \<^verbatim>\<open>str\<close> value of a literal is a sequence of code points. Of the Unicode
  general categories the code only names \<^verbatim>\<open>Cs\<close>, the surrogates U+D800 to U+DFFF;
  every other category is written \<^verbatim>\<open>--\<close> here.
\<close>

type_synonym unicode = "nat list"

definition category :: "nat \<Rightarrow> string" where
  "category cp = (if 0xD800 \<le> cp \<and> cp \<le> 0xDFFF then ''Cs'' else ''--'')"

definition characters :: "string list \<Rightarrow> nat \<Rightarrow> nat strategy" where
  "characters blacklist_categories max_codepoint =
     bind choice (\<lambda>c.
       let cp = c mod (max_codepoint + 1)
       in if category cp \<in> set blacklist_categories then mark_invalid else just cp)"

definition text_st :: "nat strategy \<Rightarrow> unicode strategy" where
  "text_st alphabet = lists_st alphabet 0"

text \<open>The values a strategy can produce, and the exceptions a draw from it can raise.\<close>

definition draws :: "'a strategy \<Rightarrow> 'a set" where
  "draws s = {v. \<exists>cs cs'. s cs = (Value v, cs')}"

definition draw_raises :: "'a strategy \<Rightarrow> error set" where
  "draw_raises s = {e. \<exists>cs cs'. s cs = (Raise e, cs')}"

section \<open>The AST nodes the strategies build\<close>

datatype value_node =
    NullValueNode
  | IntValueNode string
  | FloatValueNode pyfloat
  | StringValueNode unicode
  | BooleanValueNode bool
  | EnumValueNode string
  | ListValueNode "value_node list option"
  | ObjectValueNode "object_field_node list option"
and object_field_node = ObjectFieldNode string value_node

datatype argument_node = ArgumentNode (argument_name: string) (argument_value: value_node)

datatype selection_node =
    FieldNode string "argument_node list" selection_set_node
  | InlineFragmentNode string selection_set_node
and selection_set_node = SelectionSetNode (node_selections: "selection_node list option")

datatype operation_type = QUERY | MUTATION | SUBSCRIPTION

datatype operation_definition_node =
  OperationDefinitionNode (node_operation: operation_type) (node_selection_set: selection_set_node)

datatype document_node = DocumentNode (node_definitions: "operation_definition_node list")

section \<open>primitives.py\<close>

definition MIN_INT :: int where
  "MIN_INT = - (2 ^ 31)"

definition MAX_INT :: int where
  "MAX_INT = 2 ^ 31 - 1"

text \<open>Python's \<^verbatim>\<open>str\<close> of an integer.\<close>

fun digits :: "nat \<Rightarrow> string" where
  "digits n = (if n < 10 then [''0123456789'' ! n]
               else digits (n div 10) @ [''0123456789'' ! (n mod 10)])"

definition str_int :: "int \<Rightarrow> string" where
  "str_int i = (if i < 0 then CHR ''-'' # digits (nat (- i)) else digits (nat i))"

definition maybe_null :: "value_node strategy \<Rightarrow> bool \<Rightarrow> value_node strategy" where
  "maybe_null strategy nullable =
     (if nullable then one_of [strategy, just NullValueNode] else strategy)"

definition enum :: "string list \<Rightarrow> bool \<Rightarrow> value_node strategy" where
  "enum values nullable =
     (let value = sampled_from values
      in maybe_null (map_st (\<lambda>v. EnumValueNode v) value) nullable)"

definition int_st :: "bool \<Rightarrow> value_node strategy" where
  "int_st nullable =
     (let value = integers MIN_INT MAX_INT
      in maybe_null (map_st (\<lambda>v. IntValueNode (str_int v)) value) nullable)"

text \<open>
  \<^verbatim>\<open>FloatValueNode(value=str(v))\<close>: the node keeps the float, its decimal rendering
  by \<^verbatim>\<open>str\<close> is not spelled out.
\<close>

definition float_st :: "bool \<Rightarrow> value_node strategy" where
  "float_st nullable =
     (let value = floats False False
      in maybe_null (map_st (\<lambda>v. FloatValueNode v) value) nullable)"

definition string_st :: "bool \<Rightarrow> value_node strategy" where
  "string_st nullable =
     (let value = text_st (characters [''Cs''] 0xFFFF)
      in maybe_null (map_st (\<lambda>v. StringValueNode v) value) nullable)"

definition id_st :: "bool \<Rightarrow> value_node strategy" where
  "id_st nullable = one_of [string_st nullable, int_st nullable]"

definition boolean :: "bool \<Rightarrow> value_node strategy" where
  "boolean nullable = maybe_null (map_st (\<lambda>v. BooleanValueNode v) booleans) nullable"

text \<open>\<open>scalar\<close> reads only the name of the scalar type it is given.\<close>

definition scalar :: "string \<Rightarrow> bool \<Rightarrow> error + value_node strategy" where
  "scalar name nullable =
     (if name = ''Int'' then Inr (int_st nullable)
      else if name = ''Float'' then Inr (float_st nullable)
      else if name = ''String'' then Inr (string_st nullable)
      else if name = ''ID'' then Inr (id_st nullable)
      else if name = ''Boolean'' then Inr (boolean nullable)
      else Inl (TypeError ''Custom scalar types are not supported''))"

section \<open>The schema graph (the schema library's types)\<close>

text \<open>
  A type reference is a named type under \<^verbatim>\<open>GraphQLList\<close> and
  \<^verbatim>\<open>GraphQLNonNull\<close> wrappers (\<open>of_type\<close> is the wrapped type). The Python objects
  refer to each other, possibly in cycles; here a named type is referred to by its name
  and looked up in the schema's \<open>type_map\<close>.
\<close>

datatype type_ref =
    Named string
  | GraphQLList (of_type: type_ref)
  | GraphQLNonNull (of_type: type_ref)

text \<open>
  A field of an object type: its arguments (a dict from the argument's name to the
  argument, of which only \<^verbatim>\<open>.type\<close> is read) and its type.
\<close>

datatype graphql_field = GraphQLField (field_args: "(string \<times> type_ref) list") (field_type: type_ref)

datatype named_type =
    GraphQLScalarType
  | GraphQLEnumType "string list"
  | GraphQLInputObjectType "(string \<times> type_ref) list"
  | GraphQLObjectType "(string \<times> graphql_field) list"
  | GraphQLInterfaceType "(string \<times> graphql_field) list"
  | GraphQLUnionType "string list"

datatype graphql_schema =
  GraphQLSchema (type_map: "string \<Rightarrow> named_type") (query_type: "string option")

fun class_name :: "named_type \<Rightarrow> string" where
  "class_name GraphQLScalarType = ''GraphQLScalarType''"
| "class_name (GraphQLEnumType _) = ''GraphQLEnumType''"
| "class_name (GraphQLInputObjectType _) = ''GraphQLInputObjectType''"
| "class_name (GraphQLObjectType _) = ''GraphQLObjectType''"
| "class_name (GraphQLInterfaceType _) = ''GraphQLInterfaceType''"
| "class_name (GraphQLUnionType _) = ''GraphQLUnionType''"

text \<open>
  \<^verbatim>\<open>.fields\<close> of a reference to an object type: the library only ever puts object
  types where the code reads it (the query root, the members of a union).
\<close>

definition object_fields :: "graphql_schema \<Rightarrow> string \<Rightarrow> (string \<times> graphql_field) list" where
  "object_fields schema name =
     (case type_map schema name of GraphQLObjectType fields \<Rightarrow> fields | _ \<Rightarrow> [])"

text \<open>The two functions of the schema library that \<open>query\<close> calls.\<close>

datatype graphql_lib =
  GraphQLLib (build_schema: "string \<Rightarrow> error + graphql_schema")
             (print_ast: "document_node \<Rightarrow> string")

datatype schema_arg = SchemaStr string | SchemaObject graphql_schema

section \<open>queries.py\<close>

definition make_selection_set_node :: "selection_node list option \<Rightarrow> selection_set_node" where
  "make_selection_set_node selections = SelectionSetNode selections"

definition make_query :: "selection_node list \<Rightarrow> document_node" where
  "make_query selections =
     DocumentNode [OperationDefinitionNode QUERY (make_selection_set_node (Some selections))]"

definition check_nullable :: "type_ref \<Rightarrow> type_ref \<times> bool" where
  "check_nullable ty =
     (case ty of GraphQLNonNull inner \<Rightarrow> (inner, False) | _ \<Rightarrow> (ty, True))"

text \<open>\<^verbatim>\<open>sorted(all_fields.items())\<close>: the keys of a dict are distinct, so the pairs are
  ordered by their names.\<close>

definition subset_of_fields :: "(string \<times> 'f) list \<Rightarrow> (string \<times> 'f) list strategy" where
  "subset_of_fields all_fields =
     (let field_pairs = sort_key fst all_fields
      in lists_unique_by (sampled_from field_pairs) 1 fst)"

text \<open>A generator of strategy constructions stops at the first one that raises.\<close>

fun collect :: "(error + 'a) list \<Rightarrow> error + 'a list" where
  "collect [] = Inr []"
| "collect (Inl e # rs) = Inl e"
| "collect (Inr x # rs) = (case collect rs of Inl e \<Rightarrow> Inl e | Inr xs \<Rightarrow> Inr (x # xs))"

definition list_of_nodes ::
  "(string \<times> 'f) list \<Rightarrow> (string \<Rightarrow> 'f \<Rightarrow> error + 'n strategy) \<Rightarrow> error + 'n list strategy" where
  "list_of_nodes items strategy =
     (case collect (map (\<lambda>(name, field). strategy name field) items) of
        Inl e \<Rightarrow> Inl e
      | Inr ss \<Rightarrow> Inr (map_st id (tuples ss)))"

lemma list_of_nodes_cong [fundef_cong]:
  "items = items' \<Longrightarrow>
   (\<And>name field. (name, field) \<in> set items' \<Longrightarrow> strategy name field = strategy' name field) \<Longrightarrow>
   list_of_nodes items strategy = list_of_nodes items' strategy'"
  unfolding list_of_nodes_def
  by (rule arg_cong [where f = "\<lambda>rs. case collect rs of Inl e \<Rightarrow> Inl e | Inr ss \<Rightarrow> Inr (map_st id (tuples ss))"])
     auto

text \<open>
  The value synthesiser. \<open>depth\<close> is the nesting budget of the engine: the functions that
  only run inside a draw (\<open>list_of_object_field_nodes\<close> here, \<open>lists_of_field_nodes\<close> below)
  spend one unit of it, and the engine discards a draw that has none left.
  \<open>lists\<close> and \<open>objects\<close> are given what they read of their type: the wrapped type of the
  list, the fields of the input object.
\<close>

function value_nodes :: "nat \<Rightarrow> graphql_schema \<Rightarrow> type_ref \<Rightarrow> error + value_node strategy"
  and lists :: "nat \<Rightarrow> graphql_schema \<Rightarrow> type_ref \<Rightarrow> bool \<Rightarrow> error + value_node strategy"
  and objects ::
    "nat \<Rightarrow> graphql_schema \<Rightarrow> (string \<times> type_ref) list \<Rightarrow> bool \<Rightarrow> error + value_node strategy"
  and list_of_object_field_nodes ::
    "nat \<Rightarrow> graphql_schema \<Rightarrow> (string \<times> type_ref) list \<Rightarrow> error + object_field_node list strategy"
  and object_field_nodes ::
    "nat \<Rightarrow> graphql_schema \<Rightarrow> string \<Rightarrow> type_ref \<Rightarrow> error + object_field_node strategy"
where
  "value_nodes depth schema ty =
     (case check_nullable ty of (ty', nullable) \<Rightarrow>
        (case ty' of
           Named name \<Rightarrow>
             (case type_map schema name of
                GraphQLScalarType \<Rightarrow> scalar name nullable
              | GraphQLEnumType values \<Rightarrow> Inr (enum values nullable)
              | GraphQLInputObjectType fields \<Rightarrow> objects depth schema fields nullable
              | other \<Rightarrow> Inl (TypeError (''Type '' @ class_name other @ '' is not supported.'')))
         | GraphQLList inner \<Rightarrow> lists depth schema inner nullable
         | GraphQLNonNull _ \<Rightarrow> Inl (TypeError ''Type GraphQLNonNull is not supported.'')))"
| "lists depth schema inner nullable =
     (case value_nodes depth schema inner of
        Inl e \<Rightarrow> Inl e
      | Inr element \<Rightarrow>
          (let list_value = map_st Some (lists_st element 0);
               list_value = (if nullable then one_of [list_value, none] else list_value)
           in Inr (builds ListValueNode list_value)))"
| "objects depth schema fields nullable =
     (let fields_value =
            map_st Some
              (flatmap (subset_of_fields fields)
                 (\<lambda>items. list_of_object_field_nodes depth schema items));
          fields_value = (if nullable then one_of [fields_value, none] else fields_value)
      in Inr (builds ObjectValueNode fields_value))"
| "list_of_object_field_nodes 0 schema items = Inr mark_invalid"
| "list_of_object_field_nodes (Suc depth) schema items =
     list_of_nodes items (\<lambda>name field. object_field_nodes depth schema name field)"
| "object_field_nodes depth schema name ty =
     (case value_nodes depth schema ty of
        Inl e \<Rightarrow> Inl e
      | Inr value \<Rightarrow> Inr (builds (ObjectFieldNode name) value))"
  by pat_completeness auto

lemma check_nullable_size: "(ty', nullable) = check_nullable ty \<Longrightarrow> size ty' \<le> size ty"
  by (auto simp: check_nullable_def split: type_ref.splits)

termination value_nodes
  apply (relation "inv_image (less_than <*lex*> less_than)
    (\<lambda>x. case x of
        Inl (Inl (depth, schema, ty)) \<Rightarrow> (depth, 2 * size ty + 3)
      | Inl (Inr (depth, schema, inner, nullable)) \<Rightarrow> (depth, 2 * size inner + 4)
      | Inr (Inl (depth, schema, fields, nullable)) \<Rightarrow> (depth, 1)
      | Inr (Inr (Inl (depth, schema, items))) \<Rightarrow> (depth, 0)
      | Inr (Inr (Inr (depth, schema, name, ty))) \<Rightarrow> (depth, 2 * size ty + 4))")
  apply (auto dest!: check_nullable_size)
  done

definition argument_values :: "nat \<Rightarrow> graphql_schema \<Rightarrow> type_ref \<Rightarrow> error + value_node strategy" where
  "argument_values depth schema argument = value_nodes depth schema argument"

fun is_non_null :: "type_ref \<Rightarrow> bool" where
  "is_non_null (GraphQLNonNull _) = True"
| "is_non_null _ = False"

text \<open>
  The loop of \<open>list_of_arguments\<close>: the strategies appended to \<^verbatim>\<open>args\<close>, or the
  exception that leaves the loop. Only a \<^verbatim>\<open>TypeError\<close> is caught.
\<close>

fun argument_strategies ::
  "nat \<Rightarrow> graphql_schema \<Rightarrow> (string \<times> type_ref) list \<Rightarrow> error + argument_node strategy list" where
  "argument_strategies depth schema [] = Inr []"
| "argument_strategies depth schema ((name, argument) # kwargs) =
     (case argument_values depth schema argument of
        Inl (TypeError exc) \<Rightarrow>
          (if \<not> is_non_null argument then argument_strategies depth schema kwargs
           else Inl (TypeError ''Non-nullable custom scalar types are not supported as arguments''))
      | Inl e \<Rightarrow> Inl e
      | Inr argument_strategy \<Rightarrow>
          (case argument_strategies depth schema kwargs of
             Inl e \<Rightarrow> Inl e
           | Inr args \<Rightarrow> Inr (builds (ArgumentNode name) argument_strategy # args)))"

definition list_of_arguments ::
  "nat \<Rightarrow> graphql_schema \<Rightarrow> (string \<times> type_ref) list \<Rightarrow> error + argument_node list strategy" where
  "list_of_arguments depth schema kwargs =
     (case argument_strategies depth schema kwargs of
        Inl e \<Rightarrow> Inl e
      | Inr args \<Rightarrow> Inr (map_st id (tuples args)))"

text \<open>The \<^verbatim>\<open>while\<close> loop of \<open>fields_for_type\<close>: the name of the type under all wrappers.\<close>

fun unwrap :: "type_ref \<Rightarrow> string" where
  "unwrap (Named name) = name"
| "unwrap (GraphQLList inner) = unwrap inner"
| "unwrap (GraphQLNonNull inner) = unwrap inner"

text \<open>
  The selection builder. \<open>u_fields\<close> is \<^verbatim>\<open>_fields\<close> of the source; an object type is
  passed as its name. Of these functions only \<open>field_nodes\<close> (through \<open>list_of_arguments\<close>)
  and so \<open>lists_of_field_nodes\<close> can raise while they build their strategy.
\<close>

function u_fields ::
    "nat \<Rightarrow> graphql_schema \<Rightarrow> string \<Rightarrow> string list option \<Rightarrow> selection_node list strategy"
  and lists_of_field_nodes ::
    "nat \<Rightarrow> graphql_schema \<Rightarrow> (string \<times> graphql_field) list \<Rightarrow> error + selection_node list strategy"
  and field_nodes ::
    "nat \<Rightarrow> graphql_schema \<Rightarrow> string \<Rightarrow> graphql_field \<Rightarrow> error + selection_node strategy"
  and fields_for_type ::
    "nat \<Rightarrow> graphql_schema \<Rightarrow> graphql_field \<Rightarrow> selection_node list option strategy"
  and inline_fragments ::
    "nat \<Rightarrow> graphql_schema \<Rightarrow> string list \<Rightarrow> selection_node list strategy"
  and inline_fragment ::
    "nat \<Rightarrow> graphql_schema \<Rightarrow> string \<Rightarrow> selection_node strategy"
where
  "u_fields depth schema object_type fields =
     (let subset =
            (if fields \<noteq> None \<and> fields \<noteq> Some []
             then filter (\<lambda>(name, value). name \<in> set (the fields)) (object_fields schema object_type)
             else object_fields schema object_type)
      in flatmap (subset_of_fields subset) (\<lambda>items. lists_of_field_nodes depth schema items))"
| "lists_of_field_nodes 0 schema items = Inr mark_invalid"
| "lists_of_field_nodes (Suc depth) schema items =
     list_of_nodes items (\<lambda>name field. field_nodes depth schema name field)"
| "field_nodes depth schema name field =
     (case list_of_arguments depth schema (field_args field) of
        Inl e \<Rightarrow> Inl e
      | Inr arguments \<Rightarrow>
          Inr (builds2 (FieldNode name) arguments
                 (builds make_selection_set_node (fields_for_type depth schema field))))"
| "fields_for_type depth schema field =
     (let name = unwrap (field_type field)
      in case type_map schema name of
           GraphQLObjectType _ \<Rightarrow> map_st Some (u_fields depth schema name None)
         | GraphQLUnionType types \<Rightarrow>
             map_st Some
               (flatmap (lists_unique_by (sampled_from types) 1 (\<lambda>m. m))
                  (\<lambda>items. Inr (inline_fragments depth schema items)))
         | _ \<Rightarrow> none)"
| "inline_fragments depth schema items =
     map_st id (tuples (map (\<lambda>ty. inline_fragment depth schema ty) items))"
| "inline_fragment depth schema ty =
     builds (InlineFragmentNode ty)
       (builds make_selection_set_node (map_st Some (u_fields depth schema ty None)))"
  by pat_completeness auto

termination u_fields
  apply (relation "inv_image (less_than <*lex*> less_than)
    (\<lambda>x. case x of
        Inl (Inl (depth, schema, object_type, fields)) \<Rightarrow> (depth, 1::nat)
      | Inl (Inr (Inl (depth, schema, items))) \<Rightarrow> (depth, 0)
      | Inl (Inr (Inr (depth, schema, name, field))) \<Rightarrow> (depth, 5)
      | Inr (Inl (depth, schema, field)) \<Rightarrow> (depth, 4)
      | Inr (Inr (Inl (depth, schema, items))) \<Rightarrow> (depth, 3)
      | Inr (Inr (Inr (depth, schema, ty))) \<Rightarrow> (depth, 2))")
  apply auto
  done

text \<open>\<^verbatim>\<open>sep.join(xs)\<close>.\<close>

fun join :: "string \<Rightarrow> string list \<Rightarrow> string" where
  "join sep [] = []"
| "join sep [x] = x"
| "join sep (x # y # ys) = x @ sep @ join sep (y # ys)"

text \<open>
  The entry point. \<open>fields\<close> is \<open>None\<close> or the tuple made of the caller's iterable.
  The strategy it returns is built by \<open>u_fields\<close>, which cannot raise; everything below
  \<open>lists_of_field_nodes\<close> runs when the engine draws.
\<close>

definition query ::
  "nat \<Rightarrow> graphql_lib \<Rightarrow> schema_arg \<Rightarrow> string list option \<Rightarrow> error + string strategy" where
  "query depth lib schema fields =
     (case (case schema of
              SchemaStr source \<Rightarrow> build_schema lib source
            | SchemaObject graph \<Rightarrow> Inr graph) of
        Inl e \<Rightarrow> Inl e
      | Inr parsed_schema \<Rightarrow>
          (case query_type parsed_schema of
             None \<Rightarrow> Inl (ValueError ''Query type is not defined in the schema'')
           | Some root \<Rightarrow>
               (let invalid_fields =
                      (case fields of
                         None \<Rightarrow> []
                       | Some fs \<Rightarrow>
                           filter (\<lambda>field. field \<notin> set (map fst (object_fields parsed_schema root))) fs)
                in if fields = Some []
                   then Inl (ValueError ''If you pass `fields`, it should not be empty'')
                   else if invalid_fields \<noteq> []
                   then Inl (ValueError (''Unknown fields: '' @ join '', '' invalid_fields))
                   else Inr (map_st (print_ast lib)
                               (map_st make_query (u_fields depth parsed_schema root fields))))))"

section \<open>The schema cache\<close>

text \<open>
  Modelled from the spec: the state of the schema cache of section 4.4 (module
  \<^verbatim>\<open>cache\<close> of the repository, whose \<^verbatim>\<open>cached_build_schema\<close> the tests import, is not
  among the sources). The process keeps a mapping from exact source text to previously
  parsed schema graphs. A graph instance is a reference into the store of the graphs
  parsed so far; \<open>next_ref\<close> is the reference that the next parse will make.
\<close>

datatype process_state =
  ProcessState (graphs: "nat \<Rightarrow> graphql_schema option") (next_ref: nat)
               (schema_cache: "string \<Rightarrow> nat option")

text \<open>
  Modelled from the spec: \<^verbatim>\<open>resolve(sourceText)\<close> of section 4.4, the missing
  \<^verbatim>\<open>cached_build_schema\<close>. A hit returns the cached graph instance; a miss parses with
  the schema library, stores the new instance and returns it; nothing is evicted. A source
  text that the library rejects raises the library's error and stores nothing.
\<close>

definition resolve :: "graphql_lib \<Rightarrow> string \<Rightarrow> process_state \<Rightarrow> (error + nat) \<times> process_state" where
  "resolve lib source_text st =
     (case schema_cache st source_text of
        Some ref \<Rightarrow> (Inr ref, st)
      | None \<Rightarrow>
          (case build_schema lib source_text of
             Inl e \<Rightarrow> (Inl e, st)
           | Inr graph \<Rightarrow>
               (let ref = next_ref st
                in (Inr ref,
                    ProcessState ((graphs st)(ref \<mapsto> graph)) (Suc ref)
                      ((schema_cache st)(source_text \<mapsto> ref))))))"

text \<open>Modelled from the spec: a run of further resolutions in the same process.\<close>

fun resolve_all :: "graphql_lib \<Rightarrow> string list \<Rightarrow> process_state \<Rightarrow> process_state" where
  "resolve_all lib [] st = st"
| "resolve_all lib (source_text # rest) st = resolve_all lib rest (snd (resolve lib source_text st))"

text \<open>
  Modelled from the spec: the cache only holds references to graphs that were parsed
  (as in a process that starts with an empty cache).
\<close>

definition refs_allocated :: "process_state \<Rightarrow> bool" where
  "refs_allocated st \<longleftrightarrow> (\<forall>source_text ref. schema_cache st source_text = Some ref \<longrightarrow> ref < next_ref st)"

section \<open>Notions used to state the properties\<close>

text \<open>The scalar names that \<open>scalar\<close> knows; every other scalar is a custom scalar.\<close>

definition supported_scalars :: "string list" where
  "supported_scalars = [''Int'', ''Float'', ''String'', ''ID'', ''Boolean'']"

text \<open>The type under all the wrappers of a type reference is a custom scalar.\<close>

definition custom_scalar_leaf :: "graphql_schema \<Rightarrow> type_ref \<Rightarrow> bool" where
  "custom_scalar_leaf schema ty \<longleftrightarrow>
     type_map schema (unwrap ty) = GraphQLScalarType \<and> unwrap ty \<notin> set supported_scalars"

text \<open>
  An input type for which a value strategy can be built: under its wrappers there is a
  supported scalar, an enum or an input object, and no \<^verbatim>\<open>GraphQLNonNull\<close> wraps another
  one directly (the schema library never builds such a type).
\<close>

fun supported_type :: "graphql_schema \<Rightarrow> type_ref \<Rightarrow> bool" where
  "supported_type schema (Named name) =
     (case type_map schema name of
        GraphQLScalarType \<Rightarrow> name \<in> set supported_scalars
      | GraphQLEnumType _ \<Rightarrow> True
      | GraphQLInputObjectType _ \<Rightarrow> True
      | _ \<Rightarrow> False)"
| "supported_type schema (GraphQLList inner) = supported_type schema inner"
| "supported_type schema (GraphQLNonNull inner) = (\<not> is_non_null inner \<and> supported_type schema inner)"

text \<open>
  The candidates among which \<open>u_fields\<close> selects (its local \<^verbatim>\<open>subset\<close>): the fields
  of the object type, or those of them that a non-empty restriction names.
\<close>

definition candidate_fields ::
  "graphql_schema \<Rightarrow> string \<Rightarrow> string list option \<Rightarrow> (string \<times> graphql_field) list" where
  "candidate_fields schema object_type fields =
     (if fields \<noteq> None \<and> fields \<noteq> Some []
      then filter (\<lambda>(name, value). name \<in> set (the fields)) (object_fields schema object_type)
      else object_fields schema object_type)"

text \<open>
  A field that declares a non-null argument whose type, under its wrappers, is a custom
  scalar.
\<close>

definition unsupported_argument :: "graphql_schema \<Rightarrow> string \<Rightarrow> graphql_field \<Rightarrow> bool" where
  "unsupported_argument schema name field \<longleftrightarrow>
     list_ex (\<lambda>(aname, argument). is_non_null argument \<and> custom_scalar_leaf schema argument)
       (field_args field)"

text \<open>
  A draw that selects, at some depth of nesting, a field with a given property.
  \<open>draw_selects P schema depth object_type fields cs cs'\<close>: drawing the selections of
  \<open>object_type\<close> from the choices \<open>cs\<close>, the engine comes to select a field that has the
  property \<open>P\<close>, and \<open>cs'\<close> are the choices left at that moment. Either the subset of
  fields drawn for \<open>object_type\<close> contains such a field (\<open>selected\<close>); or the strategies
  of all the fields of that subset get built and, drawing from them in turn
  (\<open>fields_select\<close>), the fields before one of them produce their nodes, that one
  produces its arguments, and the draw of its own selection set (\<open>selection_selects\<close>)
  selects such a field: among the fields of the object type of the field, or among the
  fields of a member of its union type (\<open>fragments_select\<close>) after the members before
  it have produced their fragments.
\<close>

inductive draw_selects ::
    "(string \<Rightarrow> graphql_field \<Rightarrow> bool) \<Rightarrow> graphql_schema \<Rightarrow> nat \<Rightarrow> string \<Rightarrow> string list option
       \<Rightarrow> choices \<Rightarrow> choices \<Rightarrow> bool"
  and fields_select ::
    "(string \<Rightarrow> graphql_field \<Rightarrow> bool) \<Rightarrow> graphql_schema \<Rightarrow> nat \<Rightarrow> (string \<times> graphql_field) list
       \<Rightarrow> choices \<Rightarrow> choices \<Rightarrow> bool"
  and selection_selects ::
    "(string \<Rightarrow> graphql_field \<Rightarrow> bool) \<Rightarrow> graphql_schema \<Rightarrow> nat \<Rightarrow> graphql_field
       \<Rightarrow> choices \<Rightarrow> choices \<Rightarrow> bool"
  and fragments_select ::
    "(string \<Rightarrow> graphql_field \<Rightarrow> bool) \<Rightarrow> graphql_schema \<Rightarrow> nat \<Rightarrow> string list
       \<Rightarrow> choices \<Rightarrow> choices \<Rightarrow> bool"
  for P :: "string \<Rightarrow> graphql_field \<Rightarrow> bool" and schema :: graphql_schema
where
  selected:
    "subset_of_fields (candidate_fields schema object_type fields) cs = (Value items, cs1) \<Longrightarrow>
     list_ex (\<lambda>(name, field). P name field) items \<Longrightarrow>
     draw_selects P schema (Suc depth) object_type fields cs cs1"
| nested:
    "subset_of_fields (candidate_fields schema object_type fields) cs = (Value items, cs1) \<Longrightarrow>
     \<not> isl (lists_of_field_nodes (Suc depth) schema items) \<Longrightarrow>
     fields_select P schema depth items cs1 cs' \<Longrightarrow>
     draw_selects P schema (Suc depth) object_type fields cs cs'"
| this_field:
    "projr (list_of_arguments depth schema (field_args field)) cs = (Value arguments, cs1) \<Longrightarrow>
     selection_selects P schema depth field cs1 cs' \<Longrightarrow>
     fields_select P schema depth ((name, field) # rest) cs cs'"
| later_field:
    "projr (field_nodes depth schema name field) cs = (Value node, cs1) \<Longrightarrow>
     fields_select P schema depth rest cs1 cs' \<Longrightarrow>
     fields_select P schema depth ((name, field) # rest) cs cs'"
| of_object:
    "type_map schema (unwrap (field_type field)) = GraphQLObjectType declared \<Longrightarrow>
     draw_selects P schema depth (unwrap (field_type field)) None cs cs' \<Longrightarrow>
     selection_selects P schema depth field cs cs'"
| of_union:
    "type_map schema (unwrap (field_type field)) = GraphQLUnionType types \<Longrightarrow>
     lists_unique_by (sampled_from types) 1 (\<lambda>m. m) cs = (Value items, cs1) \<Longrightarrow>
     fragments_select P schema depth items cs1 cs' \<Longrightarrow>
     selection_selects P schema depth field cs cs'"
| this_fragment:
    "draw_selects P schema depth ty None cs cs' \<Longrightarrow>
     fragments_select P schema depth (ty # rest) cs cs'"
| later_fragment:
    "inline_fragment depth schema ty cs = (Value node, cs1) \<Longrightarrow>
     fragments_select P schema depth rest cs1 cs' \<Longrightarrow>
     fragments_select P schema depth (ty # rest) cs cs'"

code_pred draw_selects .

text \<open>
  No selection set inside a selection is empty, and an inline fragment has a selection
  set. (A field of a type without fields carries a selection set node without
  selections, which is not printed.)
\<close>

fun nonempty_selection :: "selection_node \<Rightarrow> bool" where
  "nonempty_selection (FieldNode name arguments (SelectionSetNode selections)) =
     (case selections of
        None \<Rightarrow> True
      | Some nodes \<Rightarrow> nodes \<noteq> [] \<and> list_all nonempty_selection nodes)"
| "nonempty_selection (InlineFragmentNode ty (SelectionSetNode selections)) =
     (case selections of
        None \<Rightarrow> False
      | Some nodes \<Rightarrow> nodes \<noteq> [] \<and> list_all nonempty_selection nodes)"

text \<open>
  Every string literal inside a value node, at any depth of lists and input objects,
  consists of code points up to U+FFFF that are not surrogates.
\<close>

fun bmp_value :: "value_node \<Rightarrow> bool"
  and bmp_object_field :: "object_field_node \<Rightarrow> bool" where
  "bmp_value (StringValueNode t) = list_all (\<lambda>cp. cp \<le> 0xFFFF \<and> \<not> (0xD800 \<le> cp \<and> cp \<le> 0xDFFF)) t"
| "bmp_value (ListValueNode contents) =
     (case contents of None \<Rightarrow> True | Some nodes \<Rightarrow> list_all bmp_value nodes)"
| "bmp_value (ObjectValueNode contents) =
     (case contents of None \<Rightarrow> True | Some nodes \<Rightarrow> list_all bmp_object_field nodes)"
| "bmp_value NullValueNode = True"
| "bmp_value (IntValueNode _) = True"
| "bmp_value (FloatValueNode _) = True"
| "bmp_value (BooleanValueNode _) = True"
| "bmp_value (EnumValueNode _) = True"
| "bmp_object_field (ObjectFieldNode name node) = bmp_value node"

text \<open>The same for all the argument values of a selection and of its nested selections.\<close>

fun bmp_selection :: "selection_node \<Rightarrow> bool" where
  "bmp_selection (FieldNode name arguments (SelectionSetNode selections)) =
     (list_all (\<lambda>argument. bmp_value (argument_value argument)) arguments
      \<and> (case selections of None \<Rightarrow> True | Some nodes \<Rightarrow> list_all bmp_selection nodes))"
| "bmp_selection (InlineFragmentNode ty (SelectionSetNode selections)) =
     (case selections of None \<Rightarrow> True | Some nodes \<Rightarrow> list_all bmp_selection nodes)"

text \<open>
  The properties of the draws at one level of nesting, as used in the inductions on the
  nesting budget: the selections drawn for a list of fields are as many as the fields and
  have no empty selection set; the object fields drawn for an input object, and the
  selections drawn for a list of fields, have clean string literals.
\<close>

definition level_ok :: "nat \<Rightarrow> graphql_schema \<Rightarrow> bool" where
  "level_ok depth schema \<longleftrightarrow>
     (\<forall>items s nodes. lists_of_field_nodes depth schema items = Inr s \<longrightarrow> nodes \<in> draws s \<longrightarrow>
        length nodes = length items \<and> list_all nonempty_selection nodes)"

definition value_level_ok :: "nat \<Rightarrow> graphql_schema \<Rightarrow> bool" where
  "value_level_ok depth schema \<longleftrightarrow>
     (\<forall>items st nodes. list_of_object_field_nodes depth schema items = Inr st \<longrightarrow>
        nodes \<in> draws st \<longrightarrow> list_all bmp_object_field nodes)"

definition selection_level_bmp :: "nat \<Rightarrow> graphql_schema \<Rightarrow> bool" where
  "selection_level_bmp depth schema \<longleftrightarrow>
     (\<forall>items s nodes. lists_of_field_nodes depth schema items = Inr s \<longrightarrow> nodes \<in> draws s \<longrightarrow>
        list_all bmp_selection nodes)"

section \<open>Example schemas\<close>

text \<open>
  A schema library that knows two source texts. Its printer writes the names of the
  selections, the names of their arguments and their nested selections.
\<close>

fun print_selection :: "selection_node \<Rightarrow> string" where
  "print_selection (FieldNode name arguments (SelectionSetNode selections)) =
     name
     @ (if arguments = [] then [] else ''('' @ join '', '' (map argument_name arguments) @ '')'')
     @ (case selections of
          None \<Rightarrow> []
        | Some nodes \<Rightarrow> '' { '' @ join '' '' (map print_selection nodes) @ '' }'')"
| "print_selection (InlineFragmentNode ty (SelectionSetNode selections)) =
     ''... on '' @ ty
     @ (case selections of
          None \<Rightarrow> []
        | Some nodes \<Rightarrow> '' { '' @ join '' '' (map print_selection nodes) @ '' }'')"

definition print_document :: "document_node \<Rightarrow> string" where
  "print_document document =
     join '' ''
       (map (\<lambda>definition. case node_selections (node_selection_set definition) of
                            None \<Rightarrow> []
                          | Some nodes \<Rightarrow> ''{ '' @ join '' '' (map print_selection nodes) @ '' }'')
          (node_definitions document))"

definition tiny_lib :: graphql_lib where
  "tiny_lib = GraphQLLib
     (\<lambda>source. if source = ''type Query { a: Int }''
        then Inr (GraphQLSchema
               ((\<lambda>_. GraphQLScalarType)(''Query'' := GraphQLObjectType [(''a'', GraphQLField [] (Named ''Int''))]))
               (Some ''Query''))
        else if source = ''type Author { name: String }''
        then Inr (GraphQLSchema
               ((\<lambda>_. GraphQLScalarType)(''Author'' := GraphQLObjectType [(''name'', GraphQLField [] (Named ''String''))]))
               None)
        else Inl (GraphQLError ''Syntax Error''))
     print_document"

text \<open>The process before any call.\<close>

definition empty_process :: process_state where
  "empty_process = ProcessState (\<lambda>_. None) 0 (\<lambda>_. None)"

text \<open>The schema of the tests: books and their authors, each referring to the other.\<close>

definition books_types :: "string \<Rightarrow> named_type" where
  "books_types =
     (\<lambda>_. GraphQLScalarType)
       (''Author'' := GraphQLObjectType
          [(''name'', GraphQLField [] (Named ''String'')),
           (''books'', GraphQLField [] (GraphQLList (Named ''Book'')))],
        ''Book'' := GraphQLObjectType
          [(''title'', GraphQLField [] (Named ''String'')),
           (''author'', GraphQLField [] (Named ''Author''))],
        ''Query'' := GraphQLObjectType
          [(''getBooks'', GraphQLField [] (GraphQLList (Named ''Book''))),
           (''getAuthors'', GraphQLField [] (GraphQLList (Named ''Author'')))])"

definition simple_schema :: graphql_schema where
  "simple_schema = GraphQLSchema books_types (Some ''Query'')"

text \<open>
  The schema of the tests on custom scalars: a scalar \<^verbatim>\<open>Date\<close>, an object type with a
  field of that type, and a query type with the given fields.
\<close>

definition custom_scalar_schema :: "(string \<times> graphql_field) list \<Rightarrow> graphql_schema" where
  "custom_scalar_schema query_fields =
     GraphQLSchema
       ((\<lambda>_. GraphQLScalarType)
          (''Object'' := GraphQLObjectType [(''created'', GraphQLField [] (Named ''Date''))],
           ''Query'' := GraphQLObjectType query_fields))
       (Some ''Query'')"

definition get_by_date :: "type_ref \<Rightarrow> graphql_field" where
  "get_by_date argument = GraphQLField [(''created'', argument)] (Named ''Object'')"

text \<open>A query type with a field that requires a \<^verbatim>\<open>Date\<close> and a field without arguments.\<close>

definition date_queries :: graphql_schema where
  "date_queries =
     custom_scalar_schema
       [(''getByDate'', get_by_date (GraphQLNonNull (Named ''Date''))),
        (''getObjects'', GraphQLField [] (GraphQLList (Named ''Object'')))]"



text \<open>A union of two object types, as in the tests on conflicting field types.\<close>

definition conflict_schema :: graphql_schema where
  "conflict_schema =
     GraphQLSchema
       ((\<lambda>_. GraphQLScalarType)
          (''FloatModel'' := GraphQLObjectType [(''query'', GraphQLField [] (GraphQLNonNull (Named ''Float'')))],
           ''StringModel'' := GraphQLObjectType [(''query'', GraphQLField [] (GraphQLNonNull (Named ''String'')))],
           ''Conflict'' := GraphQLUnionType [''FloatModel'', ''StringModel''],
           ''Query'' := GraphQLObjectType [(''getData'', GraphQLField [] (Named ''Conflict''))]))
       (Some ''Query'')"

text \<open>Input types as in the tests on arguments: an input object with a list of strings.\<close>

definition input_schema :: graphql_schema where
  "input_schema =
     GraphQLSchema
       ((\<lambda>_. GraphQLScalarType)
          (''QueryInput'' := GraphQLInputObjectType
             [(''eq'', Named ''String''), (''in'', GraphQLList (GraphQLNonNull (Named ''String'')))],
           ''Model'' := GraphQLObjectType [(''id'', GraphQLField [] (Named ''ID''))],
           ''Query'' := GraphQLObjectType
             [(''getModel'', GraphQLField [(''contains'', GraphQLNonNull (Named ''QueryInput''))]
                               (Named ''Model''))]))
       (Some ''Query'')"

text \<open>
  A schema whose query type has no field with arguments, while a field of the object type
  below it requires a \<^verbatim>\<open>Date\<close>.
\<close>

definition nested_date_schema :: graphql_schema where
  "nested_date_schema =
     GraphQLSchema
       ((\<lambda>_. GraphQLScalarType)
          (''Object'' := GraphQLObjectType
             [(''byDate'', get_by_date (GraphQLNonNull (Named ''Date''))),
              (''id'', GraphQLField [] (Named ''Int''))],
           ''Query'' := GraphQLObjectType [(''getObject'', GraphQLField [] (Named ''Object''))]))
       (Some ''Query'')"

text \<open>The same below a union type.\<close>

definition union_date_schema :: graphql_schema where
  "union_date_schema =
     GraphQLSchema
       ((\<lambda>_. GraphQLScalarType)
          (''Object'' := GraphQLObjectType
             [(''byDate'', get_by_date (GraphQLNonNull (Named ''Date'')))],
           ''Plain'' := GraphQLObjectType [(''id'', GraphQLField [] (Named ''Int''))],
           ''Result'' := GraphQLUnionType [''Plain'', ''Object''],
           ''Query'' := GraphQLObjectType [(''search'', GraphQLField [] (Named ''Result''))]))
       (Some ''Query'')"


section \<open>Facts about the engine's strategies\<close>

declare value_nodes.simps [simp del] lists.simps [simp del] objects.simps [simp del]
  list_of_object_field_nodes.simps [simp del] object_field_nodes.simps [simp del]
  u_fields.simps [simp del] lists_of_field_nodes.simps [simp del] field_nodes.simps [simp del]
  fields_for_type.simps [simp del] inline_fragments.simps [simp del] inline_fragment.simps [simp del]

lemma bind_Value_iff:
  "bind s k cs = (Value v, cs') \<longleftrightarrow> (\<exists>a cs1. s cs = (Value a, cs1) \<and> k a cs1 = (Value v, cs'))"
  by (auto simp: bind_def split: prod.splits outcome.splits)

lemma bind_Raise_iff:
  "bind s k cs = (Raise e, cs') \<longleftrightarrow>
     s cs = (Raise e, cs') \<or> (\<exists>a cs1. s cs = (Value a, cs1) \<and> k a cs1 = (Raise e, cs'))"
  by (auto simp: bind_def split: prod.splits outcome.splits)

lemma just_iff [simp]: "just x cs = (r, cs') \<longleftrightarrow> r = Value x \<and> cs' = cs"
  by (auto simp: just_def)

lemma mark_invalid_iff [simp]: "mark_invalid cs = (r, cs') \<longleftrightarrow> r = Invalid \<and> cs' = cs"
  by (auto simp: mark_invalid_def)

lemma raising_iff [simp]: "raising e cs = (r, cs') \<longleftrightarrow> r = Raise e \<and> cs' = cs"
  by (auto simp: raising_def)

lemma choice_Value_iff [simp]: "choice cs = (Value c, cs') \<longleftrightarrow> cs = c # cs'"
  by (auto simp: choice_def split: list.splits)

lemma choice_not_Raise [simp]: "choice cs \<noteq> (Raise e, cs')"
  by (auto simp: choice_def split: list.splits)

lemma in_draws: "v \<in> draws s \<longleftrightarrow> (\<exists>cs cs'. s cs = (Value v, cs'))"
  by (simp add: draws_def)

lemma drawsI: "s cs = (Value v, cs') \<Longrightarrow> v \<in> draws s"
  by (auto simp: draws_def)

lemma draws_just [simp]: "draws (just x) = {x}"
  by (auto simp: draws_def)

lemma draws_none [simp]: "draws none = {None}"
  by (simp add: none_def)

lemma draws_mark_invalid [simp]: "draws mark_invalid = {}"
  by (auto simp: draws_def)

lemma draws_raising [simp]: "draws (raising e) = {}"
  by (auto simp: draws_def)

lemma draws_bind_just: "draws (bind s (\<lambda>v. just (f v))) = f ` draws s"
  by (auto simp: draws_def bind_Value_iff image_iff)

lemma draws_map_st [simp]: "draws (map_st f s) = f ` draws s"
  by (simp add: map_st_def draws_bind_just)

lemma draws_builds [simp]: "draws (builds f s) = f ` draws s"
  by (simp add: builds_def draws_bind_just)

lemma draws_bind_choice: "draws (bind choice k) = (\<Union>c. draws (k c))"
  by (auto simp: draws_def bind_Value_iff)

lemma draws_one_of: "draws (one_of ss) = (\<Union>s\<in>set ss. draws s)"
proof (cases "ss = []")
  case True
  then show ?thesis by (simp add: one_of_def)
next
  case False
  have "(\<Union>c. draws (ss ! (c mod length ss))) = (\<Union>s\<in>set ss. draws s)"
  proof (intro equalityI subsetI)
    fix v assume "v \<in> (\<Union>c. draws (ss ! (c mod length ss)))"
    then obtain c where "v \<in> draws (ss ! (c mod length ss))" by blast
    moreover have "ss ! (c mod length ss) \<in> set ss" using False by simp
    ultimately show "v \<in> (\<Union>s\<in>set ss. draws s)" by blast
  next
    fix v assume "v \<in> (\<Union>s\<in>set ss. draws s)"
    then obtain s where "s \<in> set ss" "v \<in> draws s" by blast
    then obtain i where "i < length ss" "ss ! i = s" by (auto simp: in_set_conv_nth)
    then have "v \<in> draws (ss ! (i mod length ss))" using \<open>v \<in> draws s\<close> by simp
    then show "v \<in> (\<Union>c. draws (ss ! (c mod length ss)))" by blast
  qed
  with False show ?thesis by (simp add: one_of_def draws_bind_choice)
qed

lemma draws_sampled_from: "draws (sampled_from xs) = set xs"
proof (cases "xs = []")
  case True
  then show ?thesis by (simp add: sampled_from_def)
next
  case False
  have "(\<Union>c. {xs ! (c mod length xs)}) = set xs"
  proof (intro equalityI subsetI)
    fix v assume "v \<in> (\<Union>c. {xs ! (c mod length xs)})"
    then show "v \<in> set xs" using False by auto
  next
    fix v assume "v \<in> set xs"
    then obtain i where "i < length xs" "xs ! i = v" by (auto simp: in_set_conv_nth)
    then have "v = xs ! (i mod length xs)" by simp
    then show "v \<in> (\<Union>c. {xs ! (c mod length xs)})" by blast
  qed
  with False show ?thesis by (simp add: sampled_from_def draws_bind_choice)
qed

lemma draws_maybe_null:
  "draws (maybe_null s nullable) = (if nullable then draws s \<union> {NullValueNode} else draws s)"
  by (auto simp: maybe_null_def draws_one_of)

lemma tuples_Value:
  "tuples ss cs = (Value vs, cs') \<Longrightarrow> list_all2 (\<lambda>s v. v \<in> draws s) ss vs"
proof (induction ss arbitrary: cs vs)
  case Nil
  then show ?case by simp
next
  case (Cons s ss)
  then show ?case
    by (auto simp: bind_Value_iff intro: drawsI)
qed

lemma draw_n_Value:
  "draw_n n s cs = (Value vs, cs') \<Longrightarrow> length vs = n \<and> set vs \<subseteq> draws s"
proof (induction n arbitrary: cs vs)
  case 0
  then show ?case by simp
next
  case (Suc n)
  then show ?case
    by (fastforce simp: bind_Value_iff intro: drawsI)
qed

lemma lists_st_Value:
  "lists_st s m cs = (Value vs, cs') \<Longrightarrow> m \<le> length vs \<and> set vs \<subseteq> draws s"
  by (auto simp: lists_st_def bind_Value_iff dest!: draw_n_Value)

lemma lists_unique_by_Value:
  "lists_unique_by s m key cs = (Value vs, cs') \<Longrightarrow>
     m \<le> length vs \<and> set vs \<subseteq> draws s \<and> distinct (map key vs)"
  by (auto simp: lists_unique_by_def bind_Value_iff split: if_splits dest!: lists_st_Value)

lemma subset_of_fields_Value:
  "subset_of_fields all_fields cs = (Value items, cs') \<Longrightarrow>
     items \<noteq> [] \<and> set items \<subseteq> set all_fields \<and> distinct (map fst items)"
  by (auto simp: subset_of_fields_def draws_sampled_from dest!: lists_unique_by_Value)


lemma integers_Value:
  "integers lo hi cs = (Value i, cs') \<Longrightarrow> lo \<le> i \<and> i \<le> hi"
proof -
  assume a: "integers lo hi cs = (Value i, cs')"
  then have le: "lo \<le> hi" by (auto simp: integers_def split: if_splits)
  with a obtain c where i: "i = lo + int (c mod nat (hi - lo + 1))"
    by (auto simp: integers_def bind_Value_iff)
  have "c mod nat (hi - lo + 1) < nat (hi - lo + 1)" using le by simp
  with i le show ?thesis by linarith
qed

lemma characters_Value:
  "characters bl m cs = (Value cp, cs') \<Longrightarrow> cp \<le> m \<and> category cp \<notin> set bl"
  by (auto simp: characters_def bind_Value_iff Let_def split: if_splits
           intro: less_Suc_eq_le [THEN iffD1])

lemma draws_characters: "cp \<in> draws (characters bl m) \<Longrightarrow> cp \<le> m \<and> category cp \<notin> set bl"
  by (auto simp: in_draws dest: characters_Value)

lemma draws_text_st: "t \<in> draws (text_st alphabet) \<Longrightarrow> set t \<subseteq> draws alphabet"
  by (auto simp: in_draws text_st_def dest!: lists_st_Value)

lemma draws_string_st:
  "StringValueNode t \<in> draws (string_st nullable) \<Longrightarrow> cp \<in> set t \<Longrightarrow>
     cp \<le> 0xFFFF \<and> category cp \<noteq> ''Cs''"
proof -
  assume a: "StringValueNode t \<in> draws (string_st nullable)" and cp: "cp \<in> set t"
  from a have "t \<in> draws (text_st (characters [''Cs''] 0xFFFF))"
    by (auto simp: string_st_def draws_maybe_null split: if_splits)
  then have "cp \<in> draws (characters [''Cs''] 0xFFFF)"
    using cp draws_text_st by blast
  from draws_characters [OF this] show ?thesis by simp
qed

lemma draws_int_st:
  "draws (int_st nullable) \<subseteq> range IntValueNode \<union> (if nullable then {NullValueNode} else {})"
  by (auto simp: int_st_def draws_maybe_null)

lemma draws_float_st:
  "draws (float_st nullable) \<subseteq> range FloatValueNode \<union> (if nullable then {NullValueNode} else {})"
  by (auto simp: float_st_def draws_maybe_null)

lemma draws_boolean:
  "draws (boolean nullable) \<subseteq> range BooleanValueNode \<union> (if nullable then {NullValueNode} else {})"
  by (auto simp: boolean_def draws_maybe_null)

lemma draws_string_st_shape:
  "draws (string_st nullable) \<subseteq> range StringValueNode \<union> (if nullable then {NullValueNode} else {})"
  by (auto simp: string_st_def draws_maybe_null)

lemma draws_id_st: "draws (id_st nullable) = draws (string_st nullable) \<union> draws (int_st nullable)"
  by (simp add: id_st_def draws_one_of)

lemma string_st_empty: "StringValueNode [] \<in> draws (string_st nullable)"
proof -
  have "string_st nullable [0, 0] = (Value (StringValueNode []), if nullable then [] else [0])"
    by (simp add: string_st_def maybe_null_def one_of_def bind_def choice_def map_st_def
          text_st_def lists_st_def just_def)
  then show ?thesis by (rule drawsI [where s = "string_st nullable"])
qed

lemma int_st_zero: "IntValueNode ''0'' \<in> draws (int_st nullable)"
proof -
  have "int_st nullable (if nullable then [0, 2147483648] else [2147483648]) =
          (Value (IntValueNode ''0''), [])"
    by (simp add: int_st_def maybe_null_def one_of_def bind_def choice_def map_st_def
          integers_def MIN_INT_def MAX_INT_def just_def str_int_def)
  then show ?thesis by (rule drawsI [where s = "int_st nullable"])
qed

text \<open>
  C7. \<open>scalar\<close> builds a strategy for exactly the names Int, Float, String, ID and
  Boolean; for any other name it raises the \<^verbatim>\<open>TypeError\<close> "Custom scalar types
  are not supported". For ID the strategy is \<open>id_st\<close>, whose values are those of the
  String strategy together with those of the Int strategy: without null they are string
  literals and integer literals only, and both kinds occur.
\<close>

theorem scalar_supported_names:
  "(\<not> isl (scalar name nullable) \<longleftrightarrow> name \<in> {''Int'', ''Float'', ''String'', ''ID'', ''Boolean''})
   \<and> (name \<notin> {''Int'', ''Float'', ''String'', ''ID'', ''Boolean''} \<longrightarrow>
        scalar name nullable = Inl (TypeError ''Custom scalar types are not supported''))
   \<and> scalar ''ID'' nullable = Inr (id_st nullable)
   \<and> draws (id_st nullable) = draws (string_st nullable) \<union> draws (int_st nullable)
   \<and> draws (id_st False) \<subseteq> range StringValueNode \<union> range IntValueNode
   \<and> StringValueNode [] \<in> draws (id_st nullable)
   \<and> IntValueNode ''0'' \<in> draws (id_st nullable)"
proof -
  have 1: "\<not> isl (scalar name nullable) \<longleftrightarrow> name \<in> {''Int'', ''Float'', ''String'', ''ID'', ''Boolean''}"
    by (simp add: scalar_def)
  have 2: "name \<notin> {''Int'', ''Float'', ''String'', ''ID'', ''Boolean''} \<longrightarrow>
        scalar name nullable = Inl (TypeError ''Custom scalar types are not supported'')"
    by (simp add: scalar_def)
  have 3: "scalar ''ID'' nullable = Inr (id_st nullable)"
    by (simp add: scalar_def)
  have 5: "draws (id_st False) \<subseteq> range StringValueNode \<union> range IntValueNode"
    using draws_string_st_shape [of False] draws_int_st [of False] by (auto simp: draws_id_st)
  have 6: "StringValueNode [] \<in> draws (id_st nullable)"
    unfolding draws_id_st using string_st_empty by blast
  have 7: "IntValueNode ''0'' \<in> draws (id_st nullable)"
    unfolding draws_id_st using int_st_zero by blast
  from 1 2 3 draws_id_st 5 6 7 show ?thesis by blast
qed

theorem scalar_supported_names_witness:
  "scalar ''Date'' True = Inl (TypeError ''Custom scalar types are not supported'')
   \<and> \<not> isl (scalar ''Boolean'' False)"
  using scalar_supported_names [of "''Date''" True] scalar_supported_names [of "''Boolean''" False]
  by simp

lemma scalar_string_literals:
  assumes "scalar name nullable = Inr s"
    and "s cs = (Value (StringValueNode t), cs')"
    and "cp \<in> set t"
  shows "cp \<le> 0xFFFF \<and> \<not> (0xD800 \<le> cp \<and> cp \<le> 0xDFFF)"
proof -
  have t: "StringValueNode t \<in> draws s" using assms(2) by (rule drawsI)
  have "StringValueNode t \<in> draws (string_st nullable)"
  proof -
    consider "s = int_st nullable" | "s = float_st nullable" | "s = string_st nullable"
      | "s = id_st nullable" | "s = boolean nullable"
      using assms(1) by (auto simp: scalar_def split: if_splits)
    then show ?thesis
    proof cases
      case 1
      then show ?thesis using t draws_int_st [of nullable] by (auto split: if_splits)
    next
      case 2
      then show ?thesis using t draws_float_st [of nullable] by (auto split: if_splits)
    next
      case 3
      then show ?thesis using t by simp
    next
      case 4
      then show ?thesis using t draws_int_st [of nullable] by (auto simp: draws_id_st split: if_splits)
    next
      case 5
      then show ?thesis using t draws_boolean [of nullable] by (auto split: if_splits)
    qed
  qed
  from draws_string_st [OF this assms(3)] show ?thesis
    by (auto simp: category_def split: if_splits)
qed

section \<open>The schema cache: one instance per source text\<close>

lemma resolve_keeps_entry:
  "schema_cache st source_text = Some ref \<Longrightarrow>
     schema_cache (snd (resolve lib other st)) source_text = Some ref"
  by (auto simp: resolve_def Let_def split: option.splits sum.splits)

lemma resolve_all_keeps_entry:
  "schema_cache st source_text = Some ref \<Longrightarrow>
     schema_cache (resolve_all lib others st) source_text = Some ref"
  by (induction others arbitrary: st) (auto dest: resolve_keeps_entry)

lemma resolve_stores:
  "resolve lib source_text st = (Inr ref, st1) \<Longrightarrow> schema_cache st1 source_text = Some ref"
  by (auto simp: resolve_def Let_def split: option.splits sum.splits)

lemma resolve_refs_allocated:
  "refs_allocated st \<Longrightarrow> refs_allocated (snd (resolve lib other st))"
  by (auto simp: refs_allocated_def resolve_def Let_def less_Suc_eq split: option.splits sum.splits)

lemma resolve_keeps_graph:
  "ref < next_ref st \<Longrightarrow>
     graphs (snd (resolve lib other st)) ref = graphs st ref
     \<and> ref < next_ref (snd (resolve lib other st))"
  by (auto simp: resolve_def Let_def split: option.splits sum.splits)

lemma resolve_all_keeps_graph:
  "ref < next_ref st \<Longrightarrow> graphs (resolve_all lib others st) ref = graphs st ref"
proof (induction others arbitrary: st)
  case Nil
  then show ?case by simp
next
  case (Cons other others)
  from resolve_keeps_graph [OF Cons.prems, of lib other] Cons.IH [of "snd (resolve lib other st)"]
  show ?case by simp
qed

lemma resolve_ref_allocated:
  "refs_allocated st \<Longrightarrow> resolve lib source_text st = (Inr ref, st1) \<Longrightarrow> ref < next_ref st1"
  by (auto simp: refs_allocated_def resolve_def Let_def split: option.splits sum.splits)

lemma resolve_miss:
  "schema_cache st source_text = None \<Longrightarrow> resolve lib source_text st = (Inr ref, st1) \<Longrightarrow>
     \<exists>graph. build_schema lib source_text = Inr graph \<and> graphs st1 ref = Some graph"
  by (auto simp: resolve_def Let_def split: option.splits sum.splits)

text \<open>
  C9. Once a source text has been resolved to a graph instance, resolving the same text
  again returns that same instance and leaves the process unchanged, whatever other texts
  were resolved in between: the entry is never evicted, and the graph that the instance
  refers to stays the one that was stored. On a miss the stored graph is the one that the
  schema library parsed from the text.
\<close>

theorem resolve_same_instance:
  assumes "refs_allocated st" and "resolve lib source_text st = (Inr ref, st1)"
  shows "resolve lib source_text (resolve_all lib others st1) = (Inr ref, resolve_all lib others st1)
     \<and> graphs (resolve_all lib others st1) ref = graphs st1 ref
     \<and> (schema_cache st source_text = None \<longrightarrow>
          (\<exists>graph. build_schema lib source_text = Inr graph \<and> graphs st1 ref = Some graph))"
proof -
  have "schema_cache (resolve_all lib others st1) source_text = Some ref"
    using assms(2) by (intro resolve_all_keeps_entry resolve_stores)
  then have 1: "resolve lib source_text (resolve_all lib others st1) =
      (Inr ref, resolve_all lib others st1)"
    by (simp add: resolve_def)
  have "ref < next_ref st1" using assms by (rule resolve_ref_allocated)
  then have 2: "graphs (resolve_all lib others st1) ref = graphs st1 ref"
    by (rule resolve_all_keeps_graph)
  have 3: "schema_cache st source_text = None \<longrightarrow>
          (\<exists>graph. build_schema lib source_text = Inr graph \<and> graphs st1 ref = Some graph)"
    using assms(2) resolve_miss by blast
  from 1 2 3 show ?thesis by (intro conjI)
qed

theorem resolve_same_instance_witness:
  "refs_allocated empty_process
   \<and> fst (resolve tiny_lib ''type Query { a: Int }'' empty_process) = Inr 0
   \<and> fst (resolve tiny_lib ''type Query { a: Int }''
        (resolve_all tiny_lib [''type Author { name: String }'', ''type Query { a: Int }'']
           (snd (resolve tiny_lib ''type Query { a: Int }'' empty_process)))) = Inr 0
   \<and> fst (resolve tiny_lib ''type Author { name: String }''
        (snd (resolve tiny_lib ''type Query { a: Int }'' empty_process))) = Inr 1
   \<and> graphs (resolve_all tiny_lib [''type Author { name: String }'', ''type Query { a: Int }'']
        (snd (resolve tiny_lib ''type Query { a: Int }'' empty_process))) 0 =
      graphs (snd (resolve tiny_lib ''type Query { a: Int }'' empty_process)) 0"
proof -
  have a: "refs_allocated empty_process"
    by (simp add: refs_allocated_def empty_process_def)
  obtain st1 where r: "resolve tiny_lib ''type Query { a: Int }'' empty_process = (Inr 0, st1)"
    by (simp add: resolve_def tiny_lib_def empty_process_def)
  have "fst (resolve tiny_lib ''type Author { name: String }'' st1) = Inr 1"
    using r by (auto simp: resolve_def tiny_lib_def empty_process_def)
  with resolve_same_instance
    [OF a r, of "[''type Author { name: String }'', ''type Query { a: Int }'']"] r a
  show ?thesis by simp
qed

section \<open>The entry point's configuration errors\<close>

lemma in_join: "x \<in> set xs \<Longrightarrow> \<exists>pre post. join sep xs = pre @ x @ post"
proof (induction sep xs rule: join.induct)
  case (1 sep)
  then show ?case by simp
next
  case (2 sep y)
  then have "join sep [y] = [] @ x @ []" by simp
  then show ?case by blast
next
  case (3 sep y z zs)
  show ?case
  proof (cases "x = y")
    case True
    then have "join sep (y # z # zs) = [] @ x @ (sep @ join sep (z # zs))" by simp
    then show ?thesis by blast
  next
    case False
    with 3 obtain pre post where "join sep (z # zs) = pre @ x @ post" by auto
    then have "join sep (y # z # zs) = (y @ sep @ pre) @ x @ post" by simp
    then show ?thesis by blast
  qed
qed

text \<open>
  C2. For a schema that is a graph, or a source text that the library parses, \<open>query\<close>
  raises (returns no strategy) exactly when the schema has no query type, or \<open>fields\<close>
  is given and empty, or \<open>fields\<close> contains a name that the query type does not
  declare. The three cases raise a \<^verbatim>\<open>ValueError\<close> with their own messages, and the
  message for unknown names lists them all, each one occurring in it.
\<close>

theorem query_configuration_errors:
  assumes "schema = SchemaObject parsed \<or> schema = SchemaStr source \<and> build_schema lib source = Inr parsed"
  shows "(isl (query depth lib schema fields) \<longleftrightarrow>
            query_type parsed = None \<or> fields = Some [] \<or>
            (\<exists>root fs field. query_type parsed = Some root \<and> fields = Some fs \<and> field \<in> set fs \<and>
               field \<notin> set (map fst (object_fields parsed root))))
     \<and> (query_type parsed = None \<longrightarrow>
          query depth lib schema fields = Inl (ValueError ''Query type is not defined in the schema''))
     \<and> (query_type parsed \<noteq> None \<and> fields = Some [] \<longrightarrow>
          query depth lib schema fields =
            Inl (ValueError ''If you pass `fields`, it should not be empty''))
     \<and> (\<forall>root fs field.
          query_type parsed = Some root \<and> fields = Some fs \<and> field \<in> set fs \<and>
          field \<notin> set (map fst (object_fields parsed root)) \<longrightarrow>
          query depth lib schema fields =
            Inl (ValueError (''Unknown fields: '' @
              join '', '' (filter (\<lambda>field. field \<notin> set (map fst (object_fields parsed root))) fs)))
          \<and> (\<exists>pre post. join '', '' (filter (\<lambda>field. field \<notin> set (map fst (object_fields parsed root))) fs)
                 = pre @ field @ post))"
proof -
  have parsed: "(case schema of SchemaStr source \<Rightarrow> build_schema lib source | SchemaObject graph \<Rightarrow> Inr graph)
      = Inr parsed"
    using assms by auto
  have 1: "isl (query depth lib schema fields) \<longleftrightarrow>
            query_type parsed = None \<or> fields = Some [] \<or>
            (\<exists>root fs field. query_type parsed = Some root \<and> fields = Some fs \<and> field \<in> set fs \<and>
               field \<notin> set (map fst (object_fields parsed root)))"
    unfolding query_def parsed
    by (auto simp: Let_def filter_empty_conv split: option.splits)
  have 2: "query_type parsed = None \<longrightarrow>
          query depth lib schema fields = Inl (ValueError ''Query type is not defined in the schema'')"
    unfolding query_def parsed by simp
  have 3: "query_type parsed \<noteq> None \<and> fields = Some [] \<longrightarrow>
          query depth lib schema fields =
            Inl (ValueError ''If you pass `fields`, it should not be empty'')"
    unfolding query_def parsed by (auto simp: Let_def)
  have 4: "query depth lib schema fields =
            Inl (ValueError (''Unknown fields: '' @
              join '', '' (filter (\<lambda>field. field \<notin> set (map fst (object_fields parsed root))) fs)))
          \<and> (\<exists>pre post. join '', '' (filter (\<lambda>field. field \<notin> set (map fst (object_fields parsed root))) fs)
                 = pre @ field @ post)"
    if "query_type parsed = Some root \<and> fields = Some fs \<and> field \<in> set fs \<and>
          field \<notin> set (map fst (object_fields parsed root))" for root fs field
  proof -
    have ne: "fs \<noteq> []" using that by auto
    have mem: "field \<in> set (filter (\<lambda>field. field \<notin> set (map fst (object_fields parsed root))) fs)"
      using that by simp
    then have "filter (\<lambda>field. field \<notin> set (map fst (object_fields parsed root))) fs \<noteq> []"
      by (metis empty_iff empty_set)
    then have "query depth lib schema fields =
            Inl (ValueError (''Unknown fields: '' @
              join '', '' (filter (\<lambda>field. field \<notin> set (map fst (object_fields parsed root))) fs)))"
      unfolding query_def parsed using that ne by (simp add: Let_def)
    with in_join [OF mem] show ?thesis by blast
  qed
  from 1 2 3 4 show ?thesis by blast
qed


theorem query_configuration_errors_witness:
  "query 3 tiny_lib (SchemaObject simple_schema) (Some [''wrong'', ''getBooks'', ''bad'']) =
     Inl (ValueError ''Unknown fields: wrong, bad'')
   \<and> query 3 tiny_lib (SchemaObject simple_schema) (Some []) =
     Inl (ValueError ''If you pass `fields`, it should not be empty'')
   \<and> query 3 tiny_lib (SchemaStr ''type Author { name: String }'') None =
     Inl (ValueError ''Query type is not defined in the schema'')
   \<and> \<not> isl (query 3 tiny_lib (SchemaObject simple_schema) (Some [''getBooks'']))
   \<and> \<not> isl (query 3 tiny_lib (SchemaStr ''type Query { a: Int }'') None)"
proof -
  have names: "fst ` set (object_fields simple_schema ''Query'') = {''getBooks'', ''getAuthors''}"
    by (auto simp: simple_schema_def books_types_def object_fields_def)
  have qt: "query_type simple_schema = Some ''Query''"
    by (simp add: simple_schema_def)
  note object = query_configuration_errors
      [where schema = "SchemaObject simple_schema" and parsed = simple_schema and lib = tiny_lib
         and depth = 3, OF disjI1 [OF refl]]
  have "''wrong'' \<in> set [''wrong'', ''getBooks'', ''bad'']
        \<and> ''wrong'' \<notin> set (map fst (object_fields simple_schema ''Query''))"
    by (simp add: names)
  with object [of "Some [''wrong'', ''getBooks'', ''bad'']"] qt
  have "query 3 tiny_lib (SchemaObject simple_schema) (Some [''wrong'', ''getBooks'', ''bad'']) =
     Inl (ValueError (''Unknown fields: '' @ join '', ''
       (filter (\<lambda>field. field \<notin> set (map fst (object_fields simple_schema ''Query'')))
          [''wrong'', ''getBooks'', ''bad''])))"
    by blast
  then have a: "query 3 tiny_lib (SchemaObject simple_schema) (Some [''wrong'', ''getBooks'', ''bad'']) =
     Inl (ValueError ''Unknown fields: wrong, bad'')"
    by (simp add: names)
  have b: "query 3 tiny_lib (SchemaObject simple_schema) (Some []) =
     Inl (ValueError ''If you pass `fields`, it should not be empty'')"
    using object [of "Some []"] qt by simp
  have d: "\<not> isl (query 3 tiny_lib (SchemaObject simple_schema) (Some [''getBooks'']))"
    using object [of "Some [''getBooks'']"] qt by (simp add: names)
  have built: "build_schema tiny_lib ''type Author { name: String }'' =
      Inr (GraphQLSchema
             ((\<lambda>_. GraphQLScalarType)(''Author'' := GraphQLObjectType [(''name'', GraphQLField [] (Named ''String''))]))
             None)"
    by (simp add: tiny_lib_def)
  have c: "query 3 tiny_lib (SchemaStr ''type Author { name: String }'') None =
     Inl (ValueError ''Query type is not defined in the schema'')"
    using query_configuration_errors
      [where schema = "SchemaStr ''type Author { name: String }''" and lib = tiny_lib
         and depth = 3 and fields = None, OF disjI2 [OF conjI [OF refl built]]]
    by simp
  have built': "build_schema tiny_lib ''type Query { a: Int }'' =
      Inr (GraphQLSchema
               ((\<lambda>_. GraphQLScalarType)(''Query'' := GraphQLObjectType [(''a'', GraphQLField [] (Named ''Int''))]))
               (Some ''Query''))"
    by (simp add: tiny_lib_def)
  have e: "\<not> isl (query 3 tiny_lib (SchemaStr ''type Query { a: Int }'') None)"
    using query_configuration_errors
      [where schema = "SchemaStr ''type Query { a: Int }''" and lib = tiny_lib
         and depth = 3 and fields = None, OF disjI2 [OF conjI [OF refl built']]]
    by simp
  from a b c d e show ?thesis by blast
qed

section \<open>When the value synthesiser raises\<close>

lemma scalar_isl: "isl (scalar name nullable) \<longleftrightarrow> name \<notin> set supported_scalars"
  by (simp add: scalar_def supported_scalars_def)

lemma scalar_Inl: "scalar name nullable = Inl e \<longleftrightarrow>
    name \<notin> set supported_scalars \<and> e = TypeError ''Custom scalar types are not supported''"
  by (auto simp: scalar_def supported_scalars_def)

lemma lists_Inl: "lists depth schema inner nullable = Inl e \<longleftrightarrow> value_nodes depth schema inner = Inl e"
  by (auto simp: lists.simps Let_def split: sum.splits)

lemma objects_not_Inl [simp]: "objects depth schema fields nullable \<noteq> Inl e"
  by (simp add: objects.simps Let_def)

lemma value_nodes_Named:
  "value_nodes depth schema (Named name) =
     (case type_map schema name of
        GraphQLScalarType \<Rightarrow> scalar name True
      | GraphQLEnumType values \<Rightarrow> Inr (enum values True)
      | GraphQLInputObjectType fields \<Rightarrow> objects depth schema fields True
      | other \<Rightarrow> Inl (TypeError (''Type '' @ class_name other @ '' is not supported.'')))"
  by (simp add: value_nodes.simps check_nullable_def)

lemma value_nodes_List:
  "value_nodes depth schema (GraphQLList inner) = lists depth schema inner True"
  by (simp add: value_nodes.simps check_nullable_def)

lemma value_nodes_NonNull_Named:
  "value_nodes depth schema (GraphQLNonNull (Named name)) =
     (case type_map schema name of
        GraphQLScalarType \<Rightarrow> scalar name False
      | GraphQLEnumType values \<Rightarrow> Inr (enum values False)
      | GraphQLInputObjectType fields \<Rightarrow> objects depth schema fields False
      | other \<Rightarrow> Inl (TypeError (''Type '' @ class_name other @ '' is not supported.'')))"
  by (simp add: value_nodes.simps check_nullable_def)

lemma value_nodes_NonNull_List:
  "value_nodes depth schema (GraphQLNonNull (GraphQLList inner)) = lists depth schema inner False"
  by (simp add: value_nodes.simps check_nullable_def)

lemma value_nodes_NonNull_NonNull:
  "value_nodes depth schema (GraphQLNonNull (GraphQLNonNull inner)) =
     Inl (TypeError ''Type GraphQLNonNull is not supported.'')"
  by (simp add: value_nodes.simps check_nullable_def)

lemmas value_nodes_cases = value_nodes_Named value_nodes_List value_nodes_NonNull_Named
  value_nodes_NonNull_List value_nodes_NonNull_NonNull

lemma value_nodes_NonNull_Inl:
  "\<not> is_non_null ty \<Longrightarrow>
     value_nodes depth schema (GraphQLNonNull ty) = Inl e \<longleftrightarrow> value_nodes depth schema ty = Inl e"
  by (cases ty) (auto simp: value_nodes_cases lists_Inl scalar_Inl split: named_type.splits)

lemma value_nodes_TypeError:
  "value_nodes depth schema ty = Inl e \<Longrightarrow> \<exists>m. e = TypeError m"
proof (induction ty)
  case (Named name)
  then show ?case
    by (auto simp: value_nodes_cases scalar_Inl split: named_type.splits)
next
  case (GraphQLList inner)
  then show ?case by (simp add: value_nodes_cases lists_Inl)
next
  case (GraphQLNonNull inner)
  show ?case
  proof (cases "is_non_null inner")
    case True
    then obtain i where "inner = GraphQLNonNull i" by (cases inner) auto
    with GraphQLNonNull.prems show ?thesis by (auto simp: value_nodes_cases)
  next
    case False
    with GraphQLNonNull show ?thesis by (simp add: value_nodes_NonNull_Inl)
  qed
qed

lemma value_nodes_supported: "\<not> isl (value_nodes depth schema ty) \<longleftrightarrow> supported_type schema ty"
proof (induction ty)
  case (Named name)
  show ?case
    by (auto simp: value_nodes_cases scalar_isl objects.simps Let_def split: named_type.splits)
next
  case (GraphQLList inner)
  have "isl (lists depth schema inner True) \<longleftrightarrow> isl (value_nodes depth schema inner)"
    by (cases "value_nodes depth schema inner") (auto simp: lists.simps Let_def)
  with GraphQLList show ?case by (simp add: value_nodes_cases)
next
  case (GraphQLNonNull inner)
  show ?case
  proof (cases "is_non_null inner")
    case True
    then obtain i where "inner = GraphQLNonNull i" by (cases inner) auto
    then show ?thesis by (simp add: value_nodes_cases)
  next
    case False
    have "isl (value_nodes depth schema (GraphQLNonNull inner)) \<longleftrightarrow> isl (value_nodes depth schema inner)"
      using value_nodes_NonNull_Inl [OF False, of depth schema]
      by (metis isl_def)
    with False GraphQLNonNull show ?thesis by simp
  qed
qed

lemma custom_scalar_leaf_unsupported:
  "custom_scalar_leaf schema ty \<Longrightarrow> \<not> supported_type schema ty"
  by (induction ty) (auto simp: custom_scalar_leaf_def)

lemma custom_scalar_leaf_raises:
  assumes "custom_scalar_leaf schema ty"
  shows "\<exists>m. value_nodes depth schema ty = Inl (TypeError m)"
proof -
  have "isl (value_nodes depth schema ty)"
    using custom_scalar_leaf_unsupported [OF assms] value_nodes_supported [of depth schema ty] by blast
  then obtain e where "value_nodes depth schema ty = Inl e" by (auto simp: isl_def)
  with value_nodes_TypeError [OF this] show ?thesis by auto
qed

section \<open>The arguments of a field\<close>

lemma argument_strategies_Inl:
  "argument_strategies depth schema kwargs = Inl e \<Longrightarrow>
     e = TypeError ''Non-nullable custom scalar types are not supported as arguments''"
proof (induction kwargs)
  case Nil
  then show ?case by simp
next
  case (Cons kv kwargs)
  obtain name argument where kv: "kv = (name, argument)" by (cases kv)
  show ?case
  proof (cases "value_nodes depth schema argument")
    case (Inl e')
    then obtain m where "e' = TypeError m" using value_nodes_TypeError by blast
    with Inl Cons kv show ?thesis
      by (auto simp: argument_values_def split: if_splits)
  next
    case (Inr a)
    with Cons kv show ?thesis
      by (auto simp: argument_values_def split: sum.splits)
  qed
qed

lemma argument_strategies_unsupported_nullable:
  assumes "isl (value_nodes depth schema argument)" and "\<not> is_non_null argument"
  shows "argument_strategies depth schema (xs @ (name, argument) # ys) =
         argument_strategies depth schema (xs @ ys)"
proof -
  obtain m where m: "value_nodes depth schema argument = Inl (TypeError m)"
    using assms(1) value_nodes_TypeError by (fastforce simp: isl_def)
  show ?thesis
  proof (induction xs)
    case Nil
    then show ?case using m assms(2) by (simp add: argument_values_def)
  next
    case (Cons kv xs)
    obtain n a where kv: "kv = (n, a)" by (cases kv)
    show ?case using Cons kv by (auto split: sum.splits error.splits)
  qed
qed

lemma argument_strategies_unsupported_non_null:
  assumes "(name, argument) \<in> set kwargs"
    and "isl (value_nodes depth schema argument)" and "is_non_null argument"
  shows "argument_strategies depth schema kwargs =
         Inl (TypeError ''Non-nullable custom scalar types are not supported as arguments'')"
proof -
  obtain m where m: "value_nodes depth schema argument = Inl (TypeError m)"
    using assms(2) value_nodes_TypeError by (fastforce simp: isl_def)
  have "isl (argument_strategies depth schema kwargs)"
    using assms(1)
  proof (induction kwargs)
    case Nil
    then show ?case by simp
  next
    case (Cons kv kwargs)
    obtain n a where kv: "kv = (n, a)" by (cases kv)
    show ?case
    proof (cases "kv = (name, argument)")
      case True
      then show ?thesis using m assms(3) by (simp add: argument_values_def)
    next
      case False
      with Cons have "isl (argument_strategies depth schema kwargs)" by simp
      then show ?thesis using kv
        by (auto simp: argument_values_def isl_def split: sum.splits error.splits)
    qed
  qed
  then show ?thesis using argument_strategies_Inl by (fastforce simp: isl_def)
qed

lemma argument_strategies_Inr:
  "argument_strategies depth schema kwargs = Inr ss \<Longrightarrow>
     list_all2 (\<lambda>s name. \<forall>v \<in> draws s. argument_name v = name) ss
       (map fst (filter (\<lambda>(name, argument). supported_type schema argument) kwargs))"
proof (induction kwargs arbitrary: ss)
  case Nil
  then show ?case by simp
next
  case (Cons kv kwargs)
  obtain name argument where kv: "kv = (name, argument)" by (cases kv)
  show ?case
  proof (cases "value_nodes depth schema argument")
    case (Inl e')
    then obtain m where "e' = TypeError m" using value_nodes_TypeError by blast
    moreover have "\<not> supported_type schema argument"
      using Inl value_nodes_supported [of depth schema argument] by auto
    ultimately show ?thesis using Inl Cons kv
      by (auto simp: argument_values_def split: if_splits)
  next
    case (Inr a)
    then have "supported_type schema argument"
      using value_nodes_supported [of depth schema argument] by auto
    with Inr Cons kv show ?thesis
      by (auto simp: argument_values_def split: sum.splits)
  qed
qed

lemma list_of_arguments_Value:
  assumes "list_of_arguments depth schema kwargs = Inr s" and "s cs = (Value nodes, cs')"
  shows "map argument_name nodes =
         map fst (filter (\<lambda>(name, argument). supported_type schema argument) kwargs)"
proof -
  from assms(1) obtain ss where ss: "argument_strategies depth schema kwargs = Inr ss"
    and s: "s = map_st id (tuples ss)"
    by (auto simp: list_of_arguments_def split: sum.splits)
  from assms(2) s obtain cs1 where "tuples ss cs = (Value nodes, cs1)"
    by (auto simp: map_st_def bind_Value_iff)
  then have "list_all2 (\<lambda>s v. v \<in> draws s) ss nodes" by (rule tuples_Value)
  with argument_strategies_Inr [OF ss]
  have "list_all2 (\<lambda>v name. argument_name v = name) nodes
       (map fst (filter (\<lambda>(name, argument). supported_type schema argument) kwargs))"
    by (auto simp: list_all2_conv_all_nth)
  then show ?thesis
    by (simp add: list_all2_conv_all_nth list_eq_iff_nth_eq)
qed

lemma list_of_arguments_Inl:
  "list_of_arguments depth schema kwargs = Inl e \<Longrightarrow>
     e = TypeError ''Non-nullable custom scalar types are not supported as arguments''"
  by (auto simp: list_of_arguments_def split: sum.splits dest: argument_strategies_Inl)

lemma field_nodes_Inl:
  "field_nodes depth schema name field = Inl e \<longleftrightarrow>
     list_of_arguments depth schema (field_args field) = Inl e"
  by (auto simp: field_nodes.simps split: sum.splits)

lemma builds2_Value:
  "builds2 f s1 s2 cs = (Value v, cs') \<longleftrightarrow>
     (\<exists>a cs1 b. s1 cs = (Value a, cs1) \<and> s2 cs1 = (Value b, cs') \<and> v = f a b)"
  by (auto simp: builds2_def bind_Value_iff)

lemma builds_Value:
  "builds f s cs = (Value v, cs') \<longleftrightarrow> (\<exists>a. s cs = (Value a, cs') \<and> v = f a)"
  by (auto simp: builds_def bind_Value_iff)

lemma map_st_Value:
  "map_st f s cs = (Value v, cs') \<longleftrightarrow> (\<exists>a. s cs = (Value a, cs') \<and> v = f a)"
  by (auto simp: map_st_def bind_Value_iff)

lemma field_nodes_Value:
  assumes "field_nodes depth schema name field = Inr s" and "s cs = (Value node, cs')"
  shows "\<exists>arguments ss. node = FieldNode name arguments (SelectionSetNode ss)
           \<and> map argument_name arguments =
               map fst (filter (\<lambda>(name, argument). supported_type schema argument) (field_args field))
           \<and> ss \<in> draws (fields_for_type depth schema field)"
proof -
  from assms(1) obtain a where a: "list_of_arguments depth schema (field_args field) = Inr a"
    and s: "s = builds2 (FieldNode name) a
                 (builds make_selection_set_node (fields_for_type depth schema field))"
    by (auto simp: field_nodes.simps split: sum.splits)
  from assms(2) s obtain arguments cs1 sset where
    1: "a cs = (Value arguments, cs1)"
    and 2: "builds make_selection_set_node (fields_for_type depth schema field) cs1 = (Value sset, cs')"
    and 3: "node = FieldNode name arguments sset"
    by (auto simp: builds2_Value)
  from 2 obtain ss where 4: "fields_for_type depth schema field cs1 = (Value ss, cs')"
    and 5: "sset = SelectionSetNode ss"
    by (auto simp: builds_Value make_selection_set_node_def)
  from list_of_arguments_Value [OF a 1] 3 4 5 show ?thesis
    by (auto intro: drawsI)
qed

lemma argument_strategies_values:
  "argument_strategies depth schema kwargs = Inr ss \<Longrightarrow>
     list_all2 (\<lambda>s item. \<exists>st. value_nodes depth schema (snd item) = Inr st
                  \<and> draws s = ArgumentNode (fst item) ` draws st) ss
       (filter (\<lambda>(name, argument). supported_type schema argument) kwargs)"
proof (induction kwargs arbitrary: ss)
  case Nil
  then show ?case by simp
next
  case (Cons kv kwargs)
  obtain name argument where kv: "kv = (name, argument)" by (cases kv)
  show ?case
  proof (cases "value_nodes depth schema argument")
    case (Inl e')
    then obtain m where "e' = TypeError m" using value_nodes_TypeError by blast
    moreover have "\<not> supported_type schema argument"
      using Inl value_nodes_supported [of depth schema argument] by auto
    ultimately show ?thesis using Inl Cons kv
      by (auto simp: argument_values_def split: if_splits)
  next
    case (Inr a)
    then have "supported_type schema argument"
      using value_nodes_supported [of depth schema argument] by auto
    with Inr Cons kv show ?thesis
      by (auto simp: argument_values_def split: sum.splits)
  qed
qed

lemma list_of_arguments_values:
  assumes "list_of_arguments depth schema kwargs = Inr s" and "s cs = (Value nodes, cs')"
  shows "list_all2 (\<lambda>node item. \<exists>st. value_nodes depth schema (snd item) = Inr st
                  \<and> argument_name node = fst item \<and> argument_value node \<in> draws st) nodes
       (filter (\<lambda>(name, argument). supported_type schema argument) kwargs)"
proof -
  from assms(1) obtain ss where ss: "argument_strategies depth schema kwargs = Inr ss"
    and s: "s = map_st id (tuples ss)"
    by (auto simp: list_of_arguments_def split: sum.splits)
  from assms(2) s have "tuples ss cs = (Value nodes, cs')"
    by (simp add: map_st_Value)
  then have t: "list_all2 (\<lambda>s v. v \<in> draws s) ss nodes" by (rule tuples_Value)
  note a = argument_strategies_values [OF ss]
  let ?items = "filter (\<lambda>(name, argument). supported_type schema argument) kwargs"
  have len1: "length ss = length nodes" using t by (rule list_all2_lengthD)
  have len2: "length ss = length ?items" using a by (rule list_all2_lengthD)
  from len1 len2 have len: "length nodes = length ?items" by simp
  show ?thesis
    unfolding list_all2_conv_all_nth
  proof (intro conjI allI impI)
    show "length nodes = length ?items" by (rule len)
  next
    fix i assume i: "i < length nodes"
    then have i': "i < length ss" using len1 by simp
    from list_all2_nthD [OF t i'] have d: "nodes ! i \<in> draws (ss ! i)" .
    from list_all2_nthD [OF a i']
    obtain st where st: "value_nodes depth schema (snd (?items ! i)) = Inr st"
      and dr: "draws (ss ! i) = ArgumentNode (fst (?items ! i)) ` draws st"
      by blast
    from d dr obtain v where "v \<in> draws st" and "nodes ! i = ArgumentNode (fst (?items ! i)) v"
      by auto
    with st show "\<exists>st. value_nodes depth schema (snd (?items ! i)) = Inr st
        \<and> argument_name (nodes ! i) = fst (?items ! i) \<and> argument_value (nodes ! i) \<in> draws st"
      by simp
  qed
qed

lemma field_nodes_arguments:
  assumes "field_nodes depth schema name field = Inr s" and "s cs = (Value node, cs')"
  shows "\<exists>arguments selection_set. node = FieldNode name arguments selection_set
           \<and> list_all2 (\<lambda>node item. \<exists>st. value_nodes depth schema (snd item) = Inr st
                  \<and> argument_name node = fst item \<and> argument_value node \<in> draws st) arguments
               (filter (\<lambda>(name, argument). supported_type schema argument) (field_args field))"
proof -
  from assms(1) obtain a where a: "list_of_arguments depth schema (field_args field) = Inr a"
    and s: "s = builds2 (FieldNode name) a
                 (builds make_selection_set_node (fields_for_type depth schema field))"
    by (auto simp: field_nodes.simps split: sum.splits)
  from assms(2) s obtain arguments cs1 sset where
    1: "a cs = (Value arguments, cs1)" and 3: "node = FieldNode name arguments sset"
    by (auto simp: builds2_Value)
  from list_of_arguments_values [OF a 1] 3 show ?thesis by blast
qed



section \<open>How a failure to build a field reaches the draw\<close>

lemma collect_Inl:
  "collect rs = Inl e \<Longrightarrow> Inl e \<in> set rs"
  by (induction rs rule: collect.induct) (auto split: sum.splits)

lemma collect_isl:
  "Inl e \<in> set rs \<Longrightarrow> isl (collect rs)"
  by (induction rs rule: collect.induct) (auto split: sum.splits)

lemma collect_Inr:
  "collect rs = Inr xs \<Longrightarrow> rs = map Inr xs"
  by (induction rs arbitrary: xs rule: collect.induct) (auto split: sum.splits)

lemma lists_of_field_nodes_Inl:
  "lists_of_field_nodes depth schema items = Inl e \<Longrightarrow>
     e = TypeError ''Non-nullable custom scalar types are not supported as arguments''"
proof (cases depth)
  case 0
  assume "lists_of_field_nodes depth schema items = Inl e"
  with 0 show ?thesis by (simp add: lists_of_field_nodes.simps)
next
  case (Suc d)
  assume "lists_of_field_nodes depth schema items = Inl e"
  with Suc have "collect (map (\<lambda>(name, field). field_nodes d schema name field) items) = Inl e"
    by (auto simp: lists_of_field_nodes.simps list_of_nodes_def split: sum.splits)
  from collect_Inl [OF this] obtain name field where "field_nodes d schema name field = Inl e"
    by auto
  then show ?thesis by (auto simp: field_nodes_Inl dest: list_of_arguments_Inl)
qed

lemma lists_of_field_nodes_raises:
  assumes "(name, field) \<in> set items" and "isl (field_nodes depth schema name field)"
  shows "lists_of_field_nodes (Suc depth) schema items =
           Inl (TypeError ''Non-nullable custom scalar types are not supported as arguments'')"
proof -
  from assms(2) obtain e where "field_nodes depth schema name field = Inl e"
    by (auto simp: isl_def)
  with assms(1) have "Inl e \<in> set (map (\<lambda>(name, field). field_nodes depth schema name field) items)"
    by force
  from collect_isl [OF this] have "isl (lists_of_field_nodes (Suc depth) schema items)"
    by (auto simp: lists_of_field_nodes.simps list_of_nodes_def isl_def split: sum.splits)
  then show ?thesis using lists_of_field_nodes_Inl by (fastforce simp: isl_def)
qed

lemma unsupported_non_null_argument_raises:
  assumes "(aname, argument) \<in> set (field_args field)"
    and "custom_scalar_leaf schema argument" and "is_non_null argument"
  shows "field_nodes depth schema name field =
           Inl (TypeError ''Non-nullable custom scalar types are not supported as arguments'')"
proof -
  have "isl (value_nodes depth schema argument)"
    using custom_scalar_leaf_raises [OF assms(2), of depth] by auto
  from argument_strategies_unsupported_non_null [OF assms(1) this assms(3)]
  show ?thesis
    by (simp add: field_nodes.simps list_of_arguments_def)
qed

lemma u_fields_candidates:
  "u_fields depth schema object_type fields =
     flatmap (subset_of_fields (candidate_fields schema object_type fields))
       (\<lambda>items. lists_of_field_nodes depth schema items)"
  by (simp add: u_fields.simps candidate_fields_def Let_def)

lemma flatmap_Raise:
  "s cs = (Value v, cs1) \<Longrightarrow> f v = Inl e \<Longrightarrow> flatmap s f cs = (Raise e, cs1)"
  by (simp add: flatmap_def bind_def)

lemma flatmap_Value:
  "flatmap s f cs = (Value v, cs') \<longleftrightarrow>
     (\<exists>a cs1 s'. s cs = (Value a, cs1) \<and> f a = Inr s' \<and> s' cs1 = (Value v, cs'))"
proof -
  have "(case f a of Inl e \<Rightarrow> raising e | Inr s' \<Rightarrow> s') cs1 = (Value v, cs') \<longleftrightarrow>
        (\<exists>s'. f a = Inr s' \<and> s' cs1 = (Value v, cs'))" for a cs1
    by (cases "f a") auto
  then show ?thesis by (simp add: flatmap_def bind_Value_iff)
qed

lemma map_st_Raise:
  "s cs = (Raise e, cs1) \<Longrightarrow> map_st f s cs = (Raise e, cs1)"
  by (simp add: map_st_def bind_def)

lemma u_fields_raises:
  assumes "subset_of_fields (candidate_fields schema object_type fields) cs = (Value items, cs1)"
    and "(name, field) \<in> set items" and "(aname, argument) \<in> set (field_args field)"
    and "is_non_null argument" and "custom_scalar_leaf schema argument"
  shows "u_fields (Suc depth) schema object_type fields cs =
           (Raise (TypeError ''Non-nullable custom scalar types are not supported as arguments''), cs1)"
proof -
  have "isl (field_nodes depth schema name field)"
    using unsupported_non_null_argument_raises [OF assms(3) assms(5) assms(4), of depth name] by simp
  from lists_of_field_nodes_raises [OF assms(2) this] assms(1)
  show ?thesis
    unfolding u_fields_candidates by (rule flatmap_Raise [rotated])
qed

lemma query_resolved:
  assumes "schema = SchemaObject parsed \<or> schema = SchemaStr source \<and> build_schema lib source = Inr parsed"
  shows "query depth lib schema fields = query depth lib (SchemaObject parsed) fields"
  using assms by (auto simp: query_def)

lemma query_Inl:
  "query depth lib (SchemaObject parsed) fields = Inl e \<Longrightarrow> \<exists>m. e = ValueError m"
  by (auto simp: query_def Let_def split: option.splits if_splits)

lemma query_Inr:
  "query depth lib (SchemaObject parsed) fields = Inr s \<Longrightarrow>
     \<exists>root. query_type parsed = Some root
       \<and> s = map_st (print_ast lib) (map_st make_query (u_fields depth parsed root fields))"
  by (auto simp: query_def Let_def split: option.splits if_splits)

lemma unsupported_argument_raises:
  assumes "unsupported_argument schema name field"
  shows "isl (field_nodes depth schema name field)"
proof -
  from assms obtain aname argument where "(aname, argument) \<in> set (field_args field)"
    and "is_non_null argument" and "custom_scalar_leaf schema argument"
    by (auto simp: unsupported_argument_def list_ex_iff)
  from unsupported_non_null_argument_raises [OF this(1) this(3) this(2), of depth name]
  show ?thesis by simp
qed

lemma collect_Cons_Inr:
  "collect (r # rs) = Inr ss \<longleftrightarrow> (\<exists>s ss'. r = Inr s \<and> collect rs = Inr ss' \<and> ss = s # ss')"
  by (cases r) (auto split: sum.splits)

lemma builds_Raise: "s cs = (Raise e, cs') \<Longrightarrow> builds f s cs = (Raise e, cs')"
  by (simp add: builds_def bind_def)

lemma tuples_Raise_first:
  "s cs = (Raise e, cs') \<Longrightarrow> tuples (s # ss) cs = (Raise e, cs')"
  by (simp add: bind_def)

lemma tuples_Raise_later:
  "s cs = (Value v, cs1) \<Longrightarrow> tuples ss cs1 = (Raise e, cs') \<Longrightarrow> tuples (s # ss) cs = (Raise e, cs')"
  by (simp add: bind_def)

text \<open>
  A draw that selects a field whose strategy cannot be built raises the error of
  \<open>list_of_arguments\<close>, whatever was drawn before: no function on the way from
  \<open>field_nodes\<close> up to \<open>u_fields\<close> of the root catches it.
\<close>

lemma draw_selects_raises:
  assumes P: "\<And>depth name field. P name field \<Longrightarrow> isl (field_nodes depth schema name field)"
  shows "draw_selects P schema depth object_type fields cs cs' \<Longrightarrow>
           u_fields depth schema object_type fields cs =
             (Raise (TypeError ''Non-nullable custom scalar types are not supported as arguments''), cs')"
    and "fields_select P schema depth items cs cs' \<Longrightarrow>
           (\<forall>ss. collect (map (\<lambda>(name, field). field_nodes depth schema name field) items) = Inr ss \<longrightarrow>
              tuples ss cs =
                (Raise (TypeError ''Non-nullable custom scalar types are not supported as arguments''), cs'))"
    and "selection_selects P schema depth field cs cs' \<Longrightarrow>
           fields_for_type depth schema field cs =
             (Raise (TypeError ''Non-nullable custom scalar types are not supported as arguments''), cs')"
    and "fragments_select P schema depth types cs cs' \<Longrightarrow>
           tuples (map (\<lambda>ty. inline_fragment depth schema ty) types) cs =
             (Raise (TypeError ''Non-nullable custom scalar types are not supported as arguments''), cs')"
proof (induction rule: draw_selects_fields_select_selection_selects_fragments_select.inducts)
  case (selected object_type fields cs items cs1 depth)
  from selected obtain name field where mem: "(name, field) \<in> set items" and "P name field"
    by (auto simp: list_ex_iff)
  then have "isl (field_nodes depth schema name field)" using P by simp
  from lists_of_field_nodes_raises [OF mem this] selected(1)
  show ?case unfolding u_fields_candidates by (rule flatmap_Raise [rotated])
next
  case (nested object_type fields cs items cs1 depth cs')
  from nested obtain ss where
    ss: "collect (map (\<lambda>(name, field). field_nodes depth schema name field) items) = Inr ss"
    and st: "lists_of_field_nodes (Suc depth) schema items = Inr (map_st id (tuples ss))"
    by (auto simp: lists_of_field_nodes.simps list_of_nodes_def split: sum.splits)
  from nested ss have "tuples ss cs1 =
      (Raise (TypeError ''Non-nullable custom scalar types are not supported as arguments''), cs')"
    by simp
  then have "map_st id (tuples ss) cs1 =
      (Raise (TypeError ''Non-nullable custom scalar types are not supported as arguments''), cs')"
    by (rule map_st_Raise)
  moreover have "flatmap (subset_of_fields (candidate_fields schema object_type fields))
      (\<lambda>items. lists_of_field_nodes (Suc depth) schema items) cs = map_st id (tuples ss) cs1"
    using nested st by (simp add: flatmap_def bind_def)
  ultimately show ?case
    unfolding u_fields_candidates by simp
next
  case (this_field depth field cs arguments cs1 cs' name rest)
  show ?case
  proof (intro allI impI)
    fix ss
    assume "collect (map (\<lambda>(name, field). field_nodes depth schema name field) ((name, field) # rest)) = Inr ss"
    then obtain s ss' where s: "field_nodes depth schema name field = Inr s" and ss: "ss = s # ss'"
      by (auto simp: collect_Cons_Inr)
    from s obtain a where a: "list_of_arguments depth schema (field_args field) = Inr a"
      and s_def: "s = builds2 (FieldNode name) a
                    (builds make_selection_set_node (fields_for_type depth schema field))"
      by (auto simp: field_nodes.simps split: sum.splits)
    from this_field a have "a cs = (Value arguments, cs1)" by simp
    moreover from this_field
    have "fields_for_type depth schema field cs1 =
      (Raise (TypeError ''Non-nullable custom scalar types are not supported as arguments''), cs')"
      by simp
    then have "builds make_selection_set_node (fields_for_type depth schema field) cs1 =
      (Raise (TypeError ''Non-nullable custom scalar types are not supported as arguments''), cs')"
      by (rule builds_Raise)
    ultimately have "s cs =
      (Raise (TypeError ''Non-nullable custom scalar types are not supported as arguments''), cs')"
      unfolding s_def by (simp add: builds2_def bind_def)
    then show "tuples ss cs =
      (Raise (TypeError ''Non-nullable custom scalar types are not supported as arguments''), cs')"
      unfolding ss by (rule tuples_Raise_first)
  qed
next
  case (later_field depth name field cs node cs1 rest cs')
  show ?case
  proof (intro allI impI)
    fix ss
    assume "collect (map (\<lambda>(name, field). field_nodes depth schema name field) ((name, field) # rest)) = Inr ss"
    then obtain s ss' where s: "field_nodes depth schema name field = Inr s" and ss: "ss = s # ss'"
      and ss': "collect (map (\<lambda>(name, field). field_nodes depth schema name field) rest) = Inr ss'"
      by (auto simp: collect_Cons_Inr)
    from later_field s have "s cs = (Value node, cs1)" by simp
    moreover from later_field ss' have "tuples ss' cs1 =
      (Raise (TypeError ''Non-nullable custom scalar types are not supported as arguments''), cs')"
      by simp
    ultimately show "tuples ss cs =
      (Raise (TypeError ''Non-nullable custom scalar types are not supported as arguments''), cs')"
      unfolding ss by (rule tuples_Raise_later)
  qed
next
  case (of_object field declared depth cs cs')
  from of_object have "u_fields depth schema (unwrap (field_type field)) None cs =
      (Raise (TypeError ''Non-nullable custom scalar types are not supported as arguments''), cs')"
    by simp
  then have "map_st Some (u_fields depth schema (unwrap (field_type field)) None) cs =
      (Raise (TypeError ''Non-nullable custom scalar types are not supported as arguments''), cs')"
    by (rule map_st_Raise)
  with of_object show ?case by (simp add: fields_for_type.simps)
next
  case (of_union field types cs items cs1 depth cs')
  from of_union have "tuples (map (\<lambda>ty. inline_fragment depth schema ty) items) cs1 =
      (Raise (TypeError ''Non-nullable custom scalar types are not supported as arguments''), cs')"
    by simp
  then have "inline_fragments depth schema items cs1 =
      (Raise (TypeError ''Non-nullable custom scalar types are not supported as arguments''), cs')"
    unfolding inline_fragments.simps by (rule map_st_Raise)
  with of_union
  have "flatmap (lists_unique_by (sampled_from types) 1 (\<lambda>m. m))
          (\<lambda>items. Inr (inline_fragments depth schema items)) cs =
      (Raise (TypeError ''Non-nullable custom scalar types are not supported as arguments''), cs')"
    by (simp add: flatmap_def bind_def)
  then have "map_st Some (flatmap (lists_unique_by (sampled_from types) 1 (\<lambda>m. m))
          (\<lambda>items. Inr (inline_fragments depth schema items))) cs =
      (Raise (TypeError ''Non-nullable custom scalar types are not supported as arguments''), cs')"
    by (rule map_st_Raise)
  with of_union show ?case by (simp add: fields_for_type.simps)
next
  case (this_fragment depth ty cs cs' rest)
  from this_fragment have "u_fields depth schema ty None cs =
      (Raise (TypeError ''Non-nullable custom scalar types are not supported as arguments''), cs')"
    by simp
  then have "inline_fragment depth schema ty cs =
      (Raise (TypeError ''Non-nullable custom scalar types are not supported as arguments''), cs')"
    unfolding inline_fragment.simps by (intro builds_Raise map_st_Raise)
  then show ?case by (simp add: bind_def)
next
  case (later_fragment depth ty cs node cs1 rest cs')
  then show ?case by (simp add: bind_def)
qed

lemma query_raises:
  assumes "schema = SchemaObject parsed \<or> schema = SchemaStr source \<and> build_schema lib source = Inr parsed"
    and "query depth lib schema fields = Inr s" and "query_type parsed = Some root"
    and "u_fields depth parsed root fields cs = (Raise e, cs')"
  shows "s cs = (Raise e, cs')"
proof -
  from assms(1,2) have "query depth lib (SchemaObject parsed) fields = Inr s"
    using query_resolved [OF assms(1), of depth fields] by simp
  from query_Inr [OF this] assms(3)
  have s: "s = map_st (print_ast lib) (map_st make_query (u_fields depth parsed root fields))"
    by auto
  from assms(4) show ?thesis unfolding s by (intro map_st_Raise)
qed

lemma query_returns:
  assumes "schema = SchemaObject parsed \<or> schema = SchemaStr source \<and> build_schema lib source = Inr parsed"
    and "query_type parsed = Some root" and "fields \<noteq> Some []"
    and "\<forall>names. fields = Some names \<longrightarrow> set names \<subseteq> set (map fst (object_fields parsed root))"
  shows "\<not> isl (query depth lib schema fields)"
proof -
  have "filter (\<lambda>field. field \<notin> set (map fst (object_fields parsed root))) names = []"
    if "fields = Some names" for names
    using assms(4) that by (auto simp: filter_empty_conv)
  with assms(2,3) have "\<not> isl (query depth lib (SchemaObject parsed) fields)"
    by (cases fields) (simp_all add: query_def Let_def)
  with query_resolved [OF assms(1), of depth fields] show ?thesis by simp
qed

section \<open>Arguments of custom scalar types\<close>

text \<open>
  C4 (as the code has it). Let a field declare an argument whose type, under its wrappers,
  is a custom scalar. If the argument is non-null, building the arguments raises the
  \<^verbatim>\<open>TypeError\<close> "Non-nullable custom scalar types are not supported as arguments", so
  does building the field's strategy, and so does building the strategies of any selection
  that contains the field. Nothing catches it: every draw that comes to select the field,
  for any object type and at any depth of nesting, raises that error, and so does the draw
  from the strategy that \<open>query\<close> returned, so the caller gets the error and no document
  from that draw. If the argument is nullable, the arguments are built as if it were not
  declared, and no field node drawn for the field has an argument of that name.
\<close>

theorem unsupported_scalar_argument:
  assumes "field_args field = before @ (aname, argument) # after"
    and "aname \<notin> set (map fst (before @ after))"
    and "custom_scalar_leaf schema argument"
  shows "(is_non_null argument \<longrightarrow>
            list_of_arguments depth schema (field_args field) =
              Inl (TypeError ''Non-nullable custom scalar types are not supported as arguments'')
          \<and> field_nodes depth schema name field =
              Inl (TypeError ''Non-nullable custom scalar types are not supported as arguments'')
          \<and> (\<forall>items. (name, field) \<in> set items \<longrightarrow>
                lists_of_field_nodes (Suc depth) schema items =
                  Inl (TypeError ''Non-nullable custom scalar types are not supported as arguments''))
          \<and> (\<forall>object_type restriction cs cs'.
                draw_selects (\<lambda>n f. n = name \<and> f = field) schema depth object_type restriction cs cs' \<longrightarrow>
                u_fields depth schema object_type restriction cs =
                  (Raise (TypeError ''Non-nullable custom scalar types are not supported as arguments''), cs'))
          \<and> (\<forall>lib given source fields s root cs cs'.
                (given = SchemaObject schema \<or> given = SchemaStr source \<and> build_schema lib source = Inr schema)
                \<and> query depth lib given fields = Inr s \<and> query_type schema = Some root
                \<and> draw_selects (\<lambda>n f. n = name \<and> f = field) schema depth root fields cs cs' \<longrightarrow>
                s cs =
                  (Raise (TypeError ''Non-nullable custom scalar types are not supported as arguments''), cs')))
       \<and> (\<not> is_non_null argument \<longrightarrow>
            list_of_arguments depth schema (field_args field) =
              list_of_arguments depth schema (before @ after)
          \<and> (\<forall>s cs node cs'.
                field_nodes depth schema name field = Inr s \<and> s cs = (Value node, cs') \<longrightarrow>
                (\<exists>arguments selection_set.
                   node = FieldNode name arguments selection_set
                   \<and> aname \<notin> set (map argument_name arguments))))"
proof -
  have mem: "(aname, argument) \<in> set (field_args field)" using assms(1) by simp
  have non_null: "is_non_null argument \<longrightarrow>
            list_of_arguments depth schema (field_args field) =
              Inl (TypeError ''Non-nullable custom scalar types are not supported as arguments'')
          \<and> field_nodes depth schema name field =
              Inl (TypeError ''Non-nullable custom scalar types are not supported as arguments'')
          \<and> (\<forall>items. (name, field) \<in> set items \<longrightarrow>
                lists_of_field_nodes (Suc depth) schema items =
                  Inl (TypeError ''Non-nullable custom scalar types are not supported as arguments''))
          \<and> (\<forall>object_type restriction cs cs'.
                draw_selects (\<lambda>n f. n = name \<and> f = field) schema depth object_type restriction cs cs' \<longrightarrow>
                u_fields depth schema object_type restriction cs =
                  (Raise (TypeError ''Non-nullable custom scalar types are not supported as arguments''), cs'))
          \<and> (\<forall>lib given source fields s root cs cs'.
                (given = SchemaObject schema \<or> given = SchemaStr source \<and> build_schema lib source = Inr schema)
                \<and> query depth lib given fields = Inr s \<and> query_type schema = Some root
                \<and> draw_selects (\<lambda>n f. n = name \<and> f = field) schema depth root fields cs cs' \<longrightarrow>
                s cs =
                  (Raise (TypeError ''Non-nullable custom scalar types are not supported as arguments''), cs'))"
  proof
    assume nn: "is_non_null argument"
    have f: "field_nodes d schema name field =
        Inl (TypeError ''Non-nullable custom scalar types are not supported as arguments'')" for d
      by (rule unsupported_non_null_argument_raises [OF mem assms(3) nn])
    have 1: "list_of_arguments depth schema (field_args field) =
        Inl (TypeError ''Non-nullable custom scalar types are not supported as arguments'')"
      using f [of depth] by (simp add: field_nodes_Inl)
    have 2: "\<forall>items. (name, field) \<in> set items \<longrightarrow>
                lists_of_field_nodes (Suc depth) schema items =
                  Inl (TypeError ''Non-nullable custom scalar types are not supported as arguments'')"
    proof (intro allI impI)
      fix items
      assume "(name, field) \<in> set items"
      then show "lists_of_field_nodes (Suc depth) schema items =
          Inl (TypeError ''Non-nullable custom scalar types are not supported as arguments'')"
        using f [of depth] by (intro lists_of_field_nodes_raises) auto
    qed
    have raises: "u_fields depth schema object_type restriction cs =
        (Raise (TypeError ''Non-nullable custom scalar types are not supported as arguments''), cs')"
      if "draw_selects (\<lambda>n f. n = name \<and> f = field) schema depth object_type restriction cs cs'"
      for object_type restriction cs cs'
      using that
    proof (rule draw_selects_raises(1) [rotated])
      fix d n f'
      assume "n = name \<and> f' = field"
      with f [of d] show "isl (field_nodes d schema n f')" by simp
    qed
    then have 3: "\<forall>object_type restriction cs cs'.
                draw_selects (\<lambda>n f. n = name \<and> f = field) schema depth object_type restriction cs cs' \<longrightarrow>
                u_fields depth schema object_type restriction cs =
                  (Raise (TypeError ''Non-nullable custom scalar types are not supported as arguments''), cs')"
      by blast
    have 4: "\<forall>lib given source fields s root cs cs'.
                (given = SchemaObject schema \<or> given = SchemaStr source \<and> build_schema lib source = Inr schema)
                \<and> query depth lib given fields = Inr s \<and> query_type schema = Some root
                \<and> draw_selects (\<lambda>n f. n = name \<and> f = field) schema depth root fields cs cs' \<longrightarrow>
                s cs =
                  (Raise (TypeError ''Non-nullable custom scalar types are not supported as arguments''), cs')"
    proof (intro allI impI)
      fix lib given source fields s root cs cs'
      assume a: "(given = SchemaObject schema \<or> given = SchemaStr source \<and> build_schema lib source = Inr schema)
          \<and> query depth lib given fields = Inr s \<and> query_type schema = Some root
          \<and> draw_selects (\<lambda>n f. n = name \<and> f = field) schema depth root fields cs cs'"
      then have "u_fields depth schema root fields cs =
          (Raise (TypeError ''Non-nullable custom scalar types are not supported as arguments''), cs')"
        by (intro raises) simp
      with a show "s cs =
          (Raise (TypeError ''Non-nullable custom scalar types are not supported as arguments''), cs')"
        by (intro query_raises [where schema = given and parsed = schema and source = source
              and lib = lib and depth = depth and fields = fields and root = root]) simp_all
    qed
    from 1 f [of depth] 2 3 4
    show "list_of_arguments depth schema (field_args field) =
              Inl (TypeError ''Non-nullable custom scalar types are not supported as arguments'')
          \<and> field_nodes depth schema name field =
              Inl (TypeError ''Non-nullable custom scalar types are not supported as arguments'')
          \<and> (\<forall>items. (name, field) \<in> set items \<longrightarrow>
                lists_of_field_nodes (Suc depth) schema items =
                  Inl (TypeError ''Non-nullable custom scalar types are not supported as arguments''))
          \<and> (\<forall>object_type restriction cs cs'.
                draw_selects (\<lambda>n f. n = name \<and> f = field) schema depth object_type restriction cs cs' \<longrightarrow>
                u_fields depth schema object_type restriction cs =
                  (Raise (TypeError ''Non-nullable custom scalar types are not supported as arguments''), cs'))
          \<and> (\<forall>lib given source fields s root cs cs'.
                (given = SchemaObject schema \<or> given = SchemaStr source \<and> build_schema lib source = Inr schema)
                \<and> query depth lib given fields = Inr s \<and> query_type schema = Some root
                \<and> draw_selects (\<lambda>n f. n = name \<and> f = field) schema depth root fields cs cs' \<longrightarrow>
                s cs =
                  (Raise (TypeError ''Non-nullable custom scalar types are not supported as arguments''), cs'))"
      by (intro conjI)
  qed
  have nullable: "\<not> is_non_null argument \<longrightarrow>
            list_of_arguments depth schema (field_args field) =
              list_of_arguments depth schema (before @ after)
          \<and> (\<forall>s cs node cs'.
                field_nodes depth schema name field = Inr s \<and> s cs = (Value node, cs') \<longrightarrow>
                (\<exists>arguments selection_set.
                   node = FieldNode name arguments selection_set
                   \<and> aname \<notin> set (map argument_name arguments)))"
  proof (intro conjI impI allI)
    assume nullable: "\<not> is_non_null argument"
    have raises: "isl (value_nodes depth schema argument)"
      using custom_scalar_leaf_raises [OF assms(3), of depth] by auto
    show "list_of_arguments depth schema (field_args field) =
            list_of_arguments depth schema (before @ after)"
      unfolding list_of_arguments_def assms(1)
      by (simp only: argument_strategies_unsupported_nullable [OF raises nullable])
    fix s cs node cs'
    assume "field_nodes depth schema name field = Inr s \<and> s cs = (Value node, cs')"
    then obtain arguments ss where node: "node = FieldNode name arguments (SelectionSetNode ss)"
      and names: "map argument_name arguments =
        map fst (filter (\<lambda>(name, argument). supported_type schema argument) (field_args field))"
      using field_nodes_Value by blast
    have "\<not> supported_type schema argument"
      using assms(3) by (rule custom_scalar_leaf_unsupported)
    then have "map argument_name arguments =
        map fst (filter (\<lambda>(name, argument). supported_type schema argument) (before @ after))"
      using names assms(1) by simp
    then have "set (map argument_name arguments) \<subseteq> set (map fst (before @ after))"
      by auto
    with assms(2) have "aname \<notin> set (map argument_name arguments)" by blast
    with node show "\<exists>arguments selection_set.
                     node = FieldNode name arguments selection_set
                     \<and> aname \<notin> set (map argument_name arguments)"
      by blast
  qed
  from non_null nullable show ?thesis by (rule conjI)
qed

text \<open>
  The specification's sentence for C4 does not hold as far as it says that no document
  can be constructed for the schema: in the schema with the field
  \<^verbatim>\<open>byDate(created: Date!)\<close> of the type \<^verbatim>\<open>Object\<close>, \<open>query\<close> returns a
  strategy, and the draw that selects \<^verbatim>\<open>id\<close> instead produces a document.
\<close>

theorem unsupported_scalar_argument_document:
  "object_fields nested_date_schema ''Object'' =
     [(''byDate'', GraphQLField [(''created'', GraphQLNonNull (Named ''Date''))] (Named ''Object'')),
      (''id'', GraphQLField [] (Named ''Int''))]
   \<and> is_non_null (GraphQLNonNull (Named ''Date''))
   \<and> custom_scalar_leaf nested_date_schema (GraphQLNonNull (Named ''Date''))
   \<and> \<not> isl (query 2 tiny_lib (SchemaObject nested_date_schema) None)
   \<and> projr (query 2 tiny_lib (SchemaObject nested_date_schema) None) [0, 0, 0, 1] =
       (Value ''{ getObject { id } }'', [])"
  by code_simp

theorem unsupported_scalar_argument_witness:
  "custom_scalar_leaf date_queries (GraphQLNonNull (Named ''Date''))
   \<and> field_nodes 2 date_queries ''getByDate'' (get_by_date (GraphQLNonNull (Named ''Date''))) =
       Inl (TypeError ''Non-nullable custom scalar types are not supported as arguments'')
   \<and> lists_of_field_nodes 3 date_queries
        [(''getObjects'', GraphQLField [] (Named ''Object'')),
         (''getByDate'', get_by_date (GraphQLNonNull (Named ''Date'')))] =
       Inl (TypeError ''Non-nullable custom scalar types are not supported as arguments'')
   \<and> draw_selects (\<lambda>n f. n = ''getByDate'' \<and> f = get_by_date (GraphQLNonNull (Named ''Date'')))
        date_queries 2 ''Query'' None [1, 1, 0] []
   \<and> projr (query 2 tiny_lib (SchemaObject date_queries) None) [1, 1, 0] =
       (Raise (TypeError ''Non-nullable custom scalar types are not supported as arguments''), [])
   \<and> custom_scalar_leaf (custom_scalar_schema []) (Named ''Date'')
   \<and> projr (field_nodes 1 (custom_scalar_schema []) ''getByDate''
          (GraphQLField [(''created'', Named ''Date''), (''limit'', GraphQLNonNull (Named ''Int''))]
             (Named ''Object''))) [2147483658, 0, 0] =
       (Value (FieldNode ''getByDate'' [ArgumentNode ''limit'' (IntValueNode ''10'')]
                 (SelectionSetNode (Some [FieldNode ''created'' [] (SelectionSetNode None)]))), [])
   \<and> ''created'' \<notin> set (map argument_name [ArgumentNode ''limit'' (IntValueNode ''10'')])"
proof -
  let ?S = "custom_scalar_schema []"
  let ?required = "get_by_date (GraphQLNonNull (Named ''Date''))"
  let ?optional = "GraphQLField [(''created'', Named ''Date''), (''limit'', GraphQLNonNull (Named ''Int''))]
             (Named ''Object'')"
  let ?P = "\<lambda>n f. n = ''getByDate'' \<and> f = ?required"
  have leaf1: "custom_scalar_leaf date_queries (GraphQLNonNull (Named ''Date''))"
    by (simp add: custom_scalar_leaf_def date_queries_def custom_scalar_schema_def supported_scalars_def)
  have leaf2: "custom_scalar_leaf ?S (Named ''Date'')"
    by (simp add: custom_scalar_leaf_def custom_scalar_schema_def supported_scalars_def)
  have args1: "field_args ?required = [] @ (''created'', GraphQLNonNull (Named ''Date'')) # []"
    by (simp add: get_by_date_def)
  have fresh1: "''created'' \<notin> set (map fst ([] @ ([] :: (string \<times> type_ref) list)))" by simp
  have nn: "is_non_null (GraphQLNonNull (Named ''Date''))" by simp
  note required = unsupported_scalar_argument
    [OF args1 fresh1 leaf1, where depth = 2 and name = "''getByDate''", THEN conjunct1, rule_format, OF nn]
  have a: "field_nodes 2 date_queries ''getByDate'' ?required =
       Inl (TypeError ''Non-nullable custom scalar types are not supported as arguments'')"
    using required by simp
  have "(''getByDate'', ?required) \<in> set [(''getObjects'', GraphQLField [] (Named ''Object'')),
         (''getByDate'', ?required)]"
    by simp
  with required have b: "lists_of_field_nodes 3 date_queries
        [(''getObjects'', GraphQLField [] (Named ''Object'')), (''getByDate'', ?required)] =
       Inl (TypeError ''Non-nullable custom scalar types are not supported as arguments'')"
    by (simp add: numeral_3_eq_3 numeral_2_eq_2)
  have "draw_selects ?P date_queries (Suc 1) ''Query'' None [1, 1, 0] []"
  proof (rule draw_selects_fields_select_selection_selects_fragments_select.selected)
    show "subset_of_fields (candidate_fields date_queries ''Query'' None) [1, 1, 0] =
        (Value [(''getObjects'', GraphQLField [] (GraphQLList (Named ''Object''))),
                (''getByDate'', ?required)], [])"
      by code_simp
    show "list_ex (\<lambda>(name, field). ?P name field)
        [(''getObjects'', GraphQLField [] (GraphQLList (Named ''Object''))), (''getByDate'', ?required)]"
      by simp
  qed
  then have sel: "draw_selects ?P date_queries 2 ''Query'' None [1, 1, 0] []"
    by (simp add: numeral_2_eq_2)
  have "\<not> isl (query 2 tiny_lib (SchemaObject date_queries) None)"
    by code_simp
  then obtain q where q: "query 2 tiny_lib (SchemaObject date_queries) None = Inr q"
    by (cases "query 2 tiny_lib (SchemaObject date_queries) None") auto
  have qt: "query_type date_queries = Some ''Query''"
    by (simp add: date_queries_def custom_scalar_schema_def)
  from required q qt sel
  have "q [1, 1, 0] =
      (Raise (TypeError ''Non-nullable custom scalar types are not supported as arguments''), [])"
    by blast
  with q have c: "projr (query 2 tiny_lib (SchemaObject date_queries) None) [1, 1, 0] =
      (Raise (TypeError ''Non-nullable custom scalar types are not supported as arguments''), [])"
    by simp
  have args2: "field_args ?optional = [] @ (''created'', Named ''Date'') # [(''limit'', GraphQLNonNull (Named ''Int''))]"
    by simp
  have fresh2: "''created'' \<notin> set (map fst ([] @ [(''limit'', GraphQLNonNull (Named ''Int''))]))" by simp
  note optional = unsupported_scalar_argument [OF args2 fresh2 leaf2, of 1 "''getByDate''"]
  have "\<not> isl (field_nodes 1 ?S ''getByDate'' ?optional)"
    by code_simp
  then obtain s where s: "field_nodes 1 ?S ''getByDate'' ?optional = Inr s"
    by (cases "field_nodes 1 ?S ''getByDate'' ?optional") auto
  have "projr (field_nodes 1 ?S ''getByDate'' ?optional) [2147483658, 0, 0] =
       (Value (FieldNode ''getByDate'' [ArgumentNode ''limit'' (IntValueNode ''10'')]
                 (SelectionSetNode (Some [FieldNode ''created'' [] (SelectionSetNode None)]))), [])"
    by code_simp
  with s have draw: "s [2147483658, 0, 0] =
       (Value (FieldNode ''getByDate'' [ArgumentNode ''limit'' (IntValueNode ''10'')]
                 (SelectionSetNode (Some [FieldNode ''created'' [] (SelectionSetNode None)]))), [])"
    by simp
  have nullable: "\<not> is_non_null (Named ''Date'')" by simp
  from optional [THEN conjunct2, rule_format, OF nullable, THEN conjunct2, rule_format, OF conjI [OF s draw]]
  obtain arguments selection_set where
    "FieldNode ''getByDate'' [ArgumentNode ''limit'' (IntValueNode ''10'')]
       (SelectionSetNode (Some [FieldNode ''created'' [] (SelectionSetNode None)])) =
     FieldNode ''getByDate'' arguments selection_set"
    and "''created'' \<notin> set (map argument_name arguments)"
    by blast
  then have d: "''created'' \<notin> set (map argument_name [ArgumentNode ''limit'' (IntValueNode ''10'')])"
    by simp
  from leaf1 a b sel c leaf2 s draw d show ?thesis by simp
qed

section \<open>When the unsupported-scalar error is raised\<close>

text \<open>
  C1 (as the code has it). For a schema that is a graph, or a source text that the library
  parses, \<open>query\<close> itself never raises a \<^verbatim>\<open>TypeError\<close>: unless one of the
  configuration errors applies, it returns a strategy, and the strategies of the fields
  are built inside the draw. Whenever a draw selects, for any object type and at any
  depth of nesting, a field that has a non-null argument whose type is a custom scalar
  under its wrappers, that draw raises the \<^verbatim>\<open>TypeError\<close> "Non-nullable custom scalar
  types are not supported as arguments"; so does the draw from the strategy that \<open>query\<close>
  returned, when it selects such a field at the root or below it.
\<close>

theorem unsupported_scalar_raised_by_the_draw:
  assumes "schema = SchemaObject parsed \<or> schema = SchemaStr source \<and> build_schema lib source = Inr parsed"
  shows "(\<forall>m. query depth lib schema fields \<noteq> Inl (TypeError m))
     \<and> (\<forall>root. query_type parsed = Some root \<and> fields \<noteq> Some []
           \<and> (\<forall>names. fields = Some names \<longrightarrow>
                 set names \<subseteq> set (map fst (object_fields parsed root))) \<longrightarrow>
           \<not> isl (query depth lib schema fields))
     \<and> (\<forall>object_type restriction cs cs'.
          draw_selects (unsupported_argument parsed) parsed depth object_type restriction cs cs' \<longrightarrow>
          u_fields depth parsed object_type restriction cs =
            (Raise (TypeError ''Non-nullable custom scalar types are not supported as arguments''), cs'))
     \<and> (\<forall>s root cs cs'.
          query depth lib schema fields = Inr s \<and> query_type parsed = Some root
          \<and> draw_selects (unsupported_argument parsed) parsed depth root fields cs cs' \<longrightarrow>
          s cs = (Raise (TypeError ''Non-nullable custom scalar types are not supported as arguments''), cs'))"
proof -
  have raises: "u_fields depth parsed object_type restriction cs =
      (Raise (TypeError ''Non-nullable custom scalar types are not supported as arguments''), cs')"
    if "draw_selects (unsupported_argument parsed) parsed depth object_type restriction cs cs'"
    for object_type restriction cs cs'
    using that by (rule draw_selects_raises(1) [rotated]) (rule unsupported_argument_raises)
  have 1: "\<forall>m. query depth lib schema fields \<noteq> Inl (TypeError m)"
    using query_Inl [of depth lib parsed fields] query_resolved [OF assms, of depth fields]
    by auto
  have 2: "\<forall>root. query_type parsed = Some root \<and> fields \<noteq> Some []
           \<and> (\<forall>names. fields = Some names \<longrightarrow>
                 set names \<subseteq> set (map fst (object_fields parsed root))) \<longrightarrow>
           \<not> isl (query depth lib schema fields)"
    using query_returns [OF assms] by blast
  have 3: "\<forall>object_type restriction cs cs'.
          draw_selects (unsupported_argument parsed) parsed depth object_type restriction cs cs' \<longrightarrow>
          u_fields depth parsed object_type restriction cs =
            (Raise (TypeError ''Non-nullable custom scalar types are not supported as arguments''), cs')"
    using raises by blast
  have 4: "\<forall>s root cs cs'.
          query depth lib schema fields = Inr s \<and> query_type parsed = Some root
          \<and> draw_selects (unsupported_argument parsed) parsed depth root fields cs cs' \<longrightarrow>
          s cs = (Raise (TypeError ''Non-nullable custom scalar types are not supported as arguments''), cs')"
  proof (intro allI impI)
    fix s root cs cs'
    assume a: "query depth lib schema fields = Inr s \<and> query_type parsed = Some root
          \<and> draw_selects (unsupported_argument parsed) parsed depth root fields cs cs'"
    then have "u_fields depth parsed root fields cs =
        (Raise (TypeError ''Non-nullable custom scalar types are not supported as arguments''), cs')"
      by (intro raises) simp
    with a show "s cs =
        (Raise (TypeError ''Non-nullable custom scalar types are not supported as arguments''), cs')"
      by (intro query_raises [OF assms]) simp_all
  qed
  from 1 2 3 4 show ?thesis by (intro conjI)
qed

text \<open>
  The specification's sentence for C1 does not hold: for the schema with the two query fields
  \<^verbatim>\<open>getByDate(created: Date!): Object\<close> and \<^verbatim>\<open>getObjects: [Object]\<close>, \<open>query\<close>
  returns a strategy; the draw that selects \<^verbatim>\<open>getByDate\<close> raises the error, and the
  draw that selects \<^verbatim>\<open>getObjects\<close> produces a document.
\<close>

theorem unsupported_scalar_not_raised_by_query:
  "\<not> isl (query 2 tiny_lib (SchemaObject date_queries) None)
   \<and> projr (query 2 tiny_lib (SchemaObject date_queries) None) [0, 0] =
       (Raise (TypeError ''Non-nullable custom scalar types are not supported as arguments''), [])
   \<and> projr (query 2 tiny_lib (SchemaObject date_queries) None) [0, 1, 0, 0] =
       (Value ''{ getObjects { created } }'', [])"
  by code_simp

text \<open>
  The field with the unsupported argument one level below the root, and below a union:
  \<open>query\<close> returns a strategy, and the draws that come to select the field raise.
\<close>

theorem unsupported_scalar_raised_by_the_draw_witness:
  "query_type nested_date_schema = Some ''Query''
   \<and> \<not> isl (query 2 tiny_lib (SchemaObject nested_date_schema) None)
   \<and> \<not> isl (query 2 tiny_lib (SchemaObject nested_date_schema) (Some [''getObject'']))
   \<and> draw_selects (unsupported_argument nested_date_schema) nested_date_schema 2 ''Query'' None
       [0, 0, 0, 0] []
   \<and> projr (query 2 tiny_lib (SchemaObject nested_date_schema) None) [0, 0, 0, 0] =
       (Raise (TypeError ''Non-nullable custom scalar types are not supported as arguments''), [])
   \<and> draw_selects (unsupported_argument union_date_schema) union_date_schema 2 ''Query'' None
       [0, 0, 1, 0, 1, 0, 0, 0, 0] []
   \<and> projr (query 2 tiny_lib (SchemaObject union_date_schema) None) [0, 0, 1, 0, 1, 0, 0, 0, 0] =
       (Raise (TypeError ''Non-nullable custom scalar types are not supported as arguments''), [])"
proof -
  let ?N = nested_date_schema
  let ?U = union_date_schema
  let ?byDate = "get_by_date (GraphQLNonNull (Named ''Date''))"
  note TN = unsupported_scalar_raised_by_the_draw
    [where schema = "SchemaObject ?N" and parsed = ?N and lib = tiny_lib
       and fields = None and depth = 2, OF disjI1 [OF refl]]
  note TU = unsupported_scalar_raised_by_the_draw
    [where schema = "SchemaObject ?U" and parsed = ?U and lib = tiny_lib
       and fields = None and depth = 2, OF disjI1 [OF refl]]
  have qn: "query_type ?N = Some ''Query''" by (simp add: nested_date_schema_def)
  have qu: "query_type ?U = Some ''Query''" by (simp add: union_date_schema_def)
  from TN qn have rn: "\<not> isl (query 2 tiny_lib (SchemaObject ?N) None)" by simp
  have "\<not> isl (query 2 tiny_lib (SchemaObject ?N) (Some [''getObject'']))"
    using unsupported_scalar_raised_by_the_draw
      [where schema = "SchemaObject ?N" and parsed = ?N and lib = tiny_lib
         and fields = "Some [''getObject'']" and depth = 2, OF disjI1 [OF refl]] qn
    by (simp add: object_fields_def nested_date_schema_def)
  note rr = this
  from TU qu have ru: "\<not> isl (query 2 tiny_lib (SchemaObject ?U) None)" by simp
  have un: "unsupported_argument ?N ''byDate'' ?byDate"
    by (simp add: unsupported_argument_def get_by_date_def custom_scalar_leaf_def
        nested_date_schema_def supported_scalars_def)
  have uu: "unsupported_argument ?U ''byDate'' ?byDate"
    by (simp add: unsupported_argument_def get_by_date_def custom_scalar_leaf_def
        union_date_schema_def supported_scalars_def)
  have leaf_n: "draw_selects (unsupported_argument ?N) ?N (Suc 0) ''Object'' None [0, 0] []"
  proof (rule draw_selects_fields_select_selection_selects_fragments_select.selected)
    show "subset_of_fields (candidate_fields ?N ''Object'' None) [0, 0] =
        (Value [(''byDate'', ?byDate)], [])"
      by code_simp
    show "list_ex (\<lambda>(name, field). unsupported_argument ?N name field) [(''byDate'', ?byDate)]"
      using un by simp
  qed
  have sel_n: "draw_selects (unsupported_argument ?N) ?N (Suc 1) ''Query'' None [0, 0, 0, 0] []"
  proof (rule draw_selects_fields_select_selection_selects_fragments_select.nested)
    show "subset_of_fields (candidate_fields ?N ''Query'' None) [0, 0, 0, 0] =
        (Value [(''getObject'', GraphQLField [] (Named ''Object''))], [0, 0])"
      by code_simp
    show "\<not> isl (lists_of_field_nodes (Suc 1) ?N [(''getObject'', GraphQLField [] (Named ''Object''))])"
      by code_simp
    show "fields_select (unsupported_argument ?N) ?N 1
        [(''getObject'', GraphQLField [] (Named ''Object''))] [0, 0] []"
    proof (rule draw_selects_fields_select_selection_selects_fragments_select.this_field)
      show "projr (list_of_arguments 1 ?N (field_args (GraphQLField [] (Named ''Object'')))) [0, 0] =
          (Value [], [0, 0])"
        by code_simp
      show "selection_selects (unsupported_argument ?N) ?N 1 (GraphQLField [] (Named ''Object'')) [0, 0] []"
      proof (rule draw_selects_fields_select_selection_selects_fragments_select.of_object)
        show "type_map ?N (unwrap (field_type (GraphQLField [] (Named ''Object'')))) =
            GraphQLObjectType [(''byDate'', ?byDate), (''id'', GraphQLField [] (Named ''Int''))]"
          by (simp add: nested_date_schema_def)
        show "draw_selects (unsupported_argument ?N) ?N 1
            (unwrap (field_type (GraphQLField [] (Named ''Object'')))) None [0, 0] []"
          using leaf_n by simp
      qed
    qed
  qed
  then have sn: "draw_selects (unsupported_argument ?N) ?N 2 ''Query'' None [0, 0, 0, 0] []"
    by (simp add: numeral_2_eq_2)
  obtain s where s: "query 2 tiny_lib (SchemaObject ?N) None = Inr s"
    using rn by (cases "query 2 tiny_lib (SchemaObject ?N) None") auto
  from TN s qn sn
  have "s [0, 0, 0, 0] =
      (Raise (TypeError ''Non-nullable custom scalar types are not supported as arguments''), [])"
    by blast
  with s have dn: "projr (query 2 tiny_lib (SchemaObject ?N) None) [0, 0, 0, 0] =
      (Raise (TypeError ''Non-nullable custom scalar types are not supported as arguments''), [])"
    by simp
  have leaf_u: "draw_selects (unsupported_argument ?U) ?U (Suc 0) ''Object'' None [0, 0] []"
  proof (rule draw_selects_fields_select_selection_selects_fragments_select.selected)
    show "subset_of_fields (candidate_fields ?U ''Object'' None) [0, 0] =
        (Value [(''byDate'', ?byDate)], [])"
      by code_simp
    show "list_ex (\<lambda>(name, field). unsupported_argument ?U name field) [(''byDate'', ?byDate)]"
      using uu by simp
  qed
  have sel_u: "draw_selects (unsupported_argument ?U) ?U (Suc 1) ''Query'' None
      [0, 0, 1, 0, 1, 0, 0, 0, 0] []"
  proof (rule draw_selects_fields_select_selection_selects_fragments_select.nested)
    show "subset_of_fields (candidate_fields ?U ''Query'' None) [0, 0, 1, 0, 1, 0, 0, 0, 0] =
        (Value [(''search'', GraphQLField [] (Named ''Result''))], [1, 0, 1, 0, 0, 0, 0])"
      by code_simp
    show "\<not> isl (lists_of_field_nodes (Suc 1) ?U [(''search'', GraphQLField [] (Named ''Result''))])"
      by code_simp
    show "fields_select (unsupported_argument ?U) ?U 1
        [(''search'', GraphQLField [] (Named ''Result''))] [1, 0, 1, 0, 0, 0, 0] []"
    proof (rule draw_selects_fields_select_selection_selects_fragments_select.this_field)
      show "projr (list_of_arguments 1 ?U (field_args (GraphQLField [] (Named ''Result''))))
            [1, 0, 1, 0, 0, 0, 0] = (Value [], [1, 0, 1, 0, 0, 0, 0])"
        by code_simp
      show "selection_selects (unsupported_argument ?U) ?U 1 (GraphQLField [] (Named ''Result''))
          [1, 0, 1, 0, 0, 0, 0] []"
      proof (rule draw_selects_fields_select_selection_selects_fragments_select.of_union)
        show "type_map ?U (unwrap (field_type (GraphQLField [] (Named ''Result'')))) =
            GraphQLUnionType [''Plain'', ''Object'']"
          by (simp add: union_date_schema_def)
        show "lists_unique_by (sampled_from [''Plain'', ''Object'']) 1 (\<lambda>m. m) [1, 0, 1, 0, 0, 0, 0] =
            (Value [''Plain'', ''Object''], [0, 0, 0, 0])"
          by code_simp
        show "fragments_select (unsupported_argument ?U) ?U 1 [''Plain'', ''Object''] [0, 0, 0, 0] []"
        proof (rule draw_selects_fields_select_selection_selects_fragments_select.later_fragment)
          show "inline_fragment 1 ?U ''Plain'' [0, 0, 0, 0] =
              (Value (InlineFragmentNode ''Plain''
                 (SelectionSetNode (Some [FieldNode ''id'' [] (SelectionSetNode None)]))), [0, 0])"
            by code_simp
          show "fragments_select (unsupported_argument ?U) ?U 1 [''Object''] [0, 0] []"
            using leaf_u
            by (intro draw_selects_fields_select_selection_selects_fragments_select.this_fragment) simp
        qed
      qed
    qed
  qed
  then have su: "draw_selects (unsupported_argument ?U) ?U 2 ''Query'' None
      [0, 0, 1, 0, 1, 0, 0, 0, 0] []"
    by (simp add: numeral_2_eq_2)
  obtain s' where s': "query 2 tiny_lib (SchemaObject ?U) None = Inr s'"
    using ru by (cases "query 2 tiny_lib (SchemaObject ?U) None") auto
  from TU s' qu su
  have "s' [0, 0, 1, 0, 1, 0, 0, 0, 0] =
      (Raise (TypeError ''Non-nullable custom scalar types are not supported as arguments''), [])"
    by blast
  with s' have du: "projr (query 2 tiny_lib (SchemaObject ?U) None) [0, 0, 1, 0, 1, 0, 0, 0, 0] =
      (Raise (TypeError ''Non-nullable custom scalar types are not supported as arguments''), [])"
    by simp
  from qn rn rr sn dn su du show ?thesis by (intro conjI)
qed

section \<open>Nullable positions\<close>

lemma null_not_in_int_st: "NullValueNode \<notin> draws (int_st False)"
  using draws_int_st [of False] by auto

lemma null_not_in_float_st: "NullValueNode \<notin> draws (float_st False)"
  using draws_float_st [of False] by auto

lemma null_not_in_string_st: "NullValueNode \<notin> draws (string_st False)"
  using draws_string_st_shape [of False] by auto

lemma null_not_in_boolean: "NullValueNode \<notin> draws (boolean False)"
  using draws_boolean [of False] by auto

lemma draws_int_st_nullable: "draws (int_st True) = draws (int_st False) \<union> {NullValueNode}"
  by (simp add: int_st_def draws_maybe_null)

lemma draws_float_st_nullable: "draws (float_st True) = draws (float_st False) \<union> {NullValueNode}"
  by (simp add: float_st_def draws_maybe_null)

lemma draws_string_st_nullable: "draws (string_st True) = draws (string_st False) \<union> {NullValueNode}"
  by (simp add: string_st_def draws_maybe_null)

lemma draws_boolean_nullable: "draws (boolean True) = draws (boolean False) \<union> {NullValueNode}"
  by (simp add: boolean_def draws_maybe_null)

lemma draws_id_st_nullable: "draws (id_st True) = draws (id_st False) \<union> {NullValueNode}"
  by (auto simp: draws_id_st draws_string_st_nullable draws_int_st_nullable)

lemma null_not_in_id_st: "NullValueNode \<notin> draws (id_st False)"
  by (simp add: draws_id_st null_not_in_string_st null_not_in_int_st)

lemma scalar_nullable:
  assumes "scalar name True = Inr s"
  shows "\<exists>s'. scalar name False = Inr s' \<and> draws s = draws s' \<union> {NullValueNode}
           \<and> NullValueNode \<notin> draws s'"
proof -
  consider "name = ''Int''" | "name = ''Float''" | "name = ''String''" | "name = ''ID''"
    | "name = ''Boolean''"
    using assms by (auto simp: scalar_def split: if_splits)
  then show ?thesis
  proof cases
    case 1
    with assms show ?thesis
      by (auto simp: scalar_def draws_int_st_nullable null_not_in_int_st)
  next
    case 2
    with assms show ?thesis
      by (auto simp: scalar_def draws_float_st_nullable null_not_in_float_st)
  next
    case 3
    with assms show ?thesis
      by (auto simp: scalar_def draws_string_st_nullable null_not_in_string_st)
  next
    case 4
    with assms show ?thesis
      by (auto simp: scalar_def draws_id_st_nullable null_not_in_id_st)
  next
    case 5
    with assms show ?thesis
      by (auto simp: scalar_def draws_boolean_nullable null_not_in_boolean)
  qed
qed

lemma enum_nullable:
  "draws (enum values True) = draws (enum values False) \<union> {NullValueNode}
   \<and> NullValueNode \<notin> draws (enum values False)"
  by (auto simp: enum_def Let_def draws_maybe_null)

lemma lists_nullable:
  assumes "lists depth schema inner True = Inr s"
  shows "\<exists>s'. lists depth schema inner False = Inr s'
           \<and> draws s = draws s' \<union> {ListValueNode None}
           \<and> draws s' \<subseteq> range (\<lambda>values. ListValueNode (Some values))"
proof -
  from assms obtain element where e: "value_nodes depth schema inner = Inr element"
    and s: "s = builds ListValueNode (one_of [map_st Some (lists_st element 0), none])"
    by (auto simp: lists.simps Let_def split: sum.splits)
  have "lists depth schema inner False = Inr (builds ListValueNode (map_st Some (lists_st element 0)))"
    using e by (simp add: lists.simps Let_def)
  moreover have "draws s = draws (builds ListValueNode (map_st Some (lists_st element 0)))
      \<union> {ListValueNode None}"
    unfolding s by (auto simp: draws_one_of)
  moreover have "draws (builds ListValueNode (map_st Some (lists_st element 0)))
      \<subseteq> range (\<lambda>values. ListValueNode (Some values))"
    by auto
  ultimately show ?thesis by blast
qed

lemma objects_nullable:
  "\<exists>s s'. objects depth schema fields True = Inr s \<and> objects depth schema fields False = Inr s'
     \<and> draws s = draws s' \<union> {ObjectValueNode None}
     \<and> draws s' \<subseteq> range (\<lambda>fields. ObjectValueNode (Some fields))"
proof -
  let ?fv = "map_st Some
              (flatmap (subset_of_fields fields)
                 (\<lambda>items. list_of_object_field_nodes depth schema items))"
  have "objects depth schema fields True = Inr (builds ObjectValueNode (one_of [?fv, none]))"
    by (simp add: objects.simps Let_def)
  moreover have "objects depth schema fields False = Inr (builds ObjectValueNode ?fv)"
    by (simp add: objects.simps Let_def)
  moreover have "draws (builds ObjectValueNode (one_of [?fv, none])) =
      draws (builds ObjectValueNode ?fv) \<union> {ObjectValueNode None}"
    by (auto simp: draws_one_of)
  moreover have "draws (builds ObjectValueNode ?fv) \<subseteq> range (\<lambda>fields. ObjectValueNode (Some fields))"
    by auto
  ultimately show ?thesis by blast
qed






section \<open>One argument node for each declared argument\<close>





section \<open>The selections of a document\<close>

lemma list_of_nodes_Value:
  assumes "list_of_nodes items strategy = Inr s" and "s cs = (Value nodes, cs')"
  shows "list_all2 (\<lambda>item node. \<exists>st. strategy (fst item) (snd item) = Inr st \<and> node \<in> draws st)
           items nodes"
proof -
  from assms(1) obtain ss where c: "collect (map (\<lambda>(name, field). strategy name field) items) = Inr ss"
    and s: "s = map_st id (tuples ss)"
    by (auto simp: list_of_nodes_def split: sum.splits)
  from collect_Inr [OF c] have m: "map (\<lambda>(name, field). strategy name field) items = map Inr ss" .
  then have len: "length items = length ss" by (metis length_map)
  from assms(2) s have "tuples ss cs = (Value nodes, cs')"
    by (simp add: map_st_Value)
  then have t: "list_all2 (\<lambda>s v. v \<in> draws s) ss nodes" by (rule tuples_Value)
  show ?thesis
    unfolding list_all2_conv_all_nth
  proof (intro conjI allI impI)
    show "length items = length nodes" using len t by (simp add: list_all2_lengthD)
  next
    fix i assume i: "i < length items"
    obtain name field where it: "items ! i = (name, field)" by (cases "items ! i")
    from m i have "map (\<lambda>(name, field). strategy name field) items ! i = map Inr ss ! i" by simp
    with i len it have "strategy name field = Inr (ss ! i)" by simp
    moreover from t i len have "nodes ! i \<in> draws (ss ! i)" by (simp add: list_all2_conv_all_nth)
    ultimately show "\<exists>st. strategy (fst (items ! i)) (snd (items ! i)) = Inr st
        \<and> nodes ! i \<in> draws st"
      using it by simp
  qed
qed


lemma nonempty_selection_Field [simp]:
  "nonempty_selection (FieldNode name arguments (SelectionSetNode selections)) \<longleftrightarrow>
     (\<forall>nodes. selections = Some nodes \<longrightarrow> nodes \<noteq> [] \<and> list_all nonempty_selection nodes)"
  by (cases selections) auto

lemma nonempty_selection_Fragment [simp]:
  "nonempty_selection (InlineFragmentNode ty (SelectionSetNode selections)) \<longleftrightarrow>
     (\<exists>nodes. selections = Some nodes \<and> nodes \<noteq> [] \<and> list_all nonempty_selection nodes)"
  by (cases selections) auto

declare nonempty_selection.simps [simp del]

lemma u_fields_Value:
  assumes "nodes \<in> draws (u_fields depth schema object_type fields)"
  shows "\<exists>items s. items \<in> draws (subset_of_fields (candidate_fields schema object_type fields))
           \<and> lists_of_field_nodes depth schema items = Inr s \<and> nodes \<in> draws s"
  using assms unfolding u_fields_candidates in_draws flatmap_Value by blast

lemma draws_subset_of_fields:
  "items \<in> draws (subset_of_fields all_fields) \<Longrightarrow>
     items \<noteq> [] \<and> set items \<subseteq> set all_fields \<and> distinct (map fst items)"
  unfolding in_draws using subset_of_fields_Value by blast

lemma u_fields_ok:
  assumes "level_ok depth schema" and "nodes \<in> draws (u_fields depth schema object_type fields)"
  shows "nodes \<noteq> [] \<and> list_all nonempty_selection nodes"
proof -
  from u_fields_Value [OF assms(2)] obtain items s where
    items: "items \<in> draws (subset_of_fields (candidate_fields schema object_type fields))"
    and s: "lists_of_field_nodes depth schema items = Inr s" and n: "nodes \<in> draws s"
    by blast
  from assms(1) s n have "length nodes = length items \<and> list_all nonempty_selection nodes"
    unfolding level_ok_def by blast
  moreover from draws_subset_of_fields [OF items] have "items \<noteq> []" by simp
  ultimately show ?thesis by auto
qed

lemma inline_fragment_ok:
  assumes "level_ok depth schema" and "node \<in> draws (inline_fragment depth schema ty)"
  shows "nonempty_selection node"
proof -
  from assms(2) obtain nodes where "nodes \<in> draws (u_fields depth schema ty None)"
    and "node = InlineFragmentNode ty (SelectionSetNode (Some nodes))"
    by (auto simp: inline_fragment.simps make_selection_set_node_def)
  with u_fields_ok [OF assms(1)] show ?thesis by auto
qed

lemma inline_fragments_ok:
  assumes "level_ok depth schema" and "nodes \<in> draws (inline_fragments depth schema items)"
  shows "length nodes = length items \<and> list_all nonempty_selection nodes"
proof -
  from assms(2) obtain cs cs' where
    "tuples (map (\<lambda>ty. inline_fragment depth schema ty) items) cs = (Value nodes, cs')"
    by (auto simp: inline_fragments.simps in_draws map_st_Value)
  from tuples_Value [OF this]
  have "list_all2 (\<lambda>s v. v \<in> draws s) (map (\<lambda>ty. inline_fragment depth schema ty) items) nodes" .
  then have len: "length nodes = length items"
    and each: "\<forall>i < length items. nodes ! i \<in> draws (inline_fragment depth schema (items ! i))"
    by (auto simp: list_all2_conv_all_nth)
  from each len have "\<forall>i < length nodes. nonempty_selection (nodes ! i)"
    using inline_fragment_ok [OF assms(1)] by auto
  with len show ?thesis by (simp add: list_all_length)
qed

lemma fields_for_type_ok:
  assumes "level_ok depth schema" and "selections \<in> draws (fields_for_type depth schema field)"
    and "selections = Some nodes"
  shows "nodes \<noteq> [] \<and> list_all nonempty_selection nodes"
proof (cases "type_map schema (unwrap (field_type field))")
  case (GraphQLObjectType fs)
  with assms(2,3) have "nodes \<in> draws (u_fields depth schema (unwrap (field_type field)) None)"
    by (auto simp: fields_for_type.simps Let_def)
  with u_fields_ok [OF assms(1)] show ?thesis by blast
next
  case (GraphQLUnionType types)
  with assms(2,3) have "nodes \<in> draws
      (flatmap (lists_unique_by (sampled_from types) 1 (\<lambda>m. m))
         (\<lambda>items. Inr (inline_fragments depth schema items)))"
    by (auto simp: fields_for_type.simps Let_def)
  then obtain items cs cs1 where
    items: "lists_unique_by (sampled_from types) 1 (\<lambda>m. m) cs = (Value items, cs1)"
    and n: "nodes \<in> draws (inline_fragments depth schema items)"
    unfolding in_draws flatmap_Value by blast
  from lists_unique_by_Value [OF items] have "items \<noteq> []" by auto
  with inline_fragments_ok [OF assms(1) n] show ?thesis by auto
next
  case GraphQLScalarType
  with assms(2,3) show ?thesis by (simp add: fields_for_type.simps Let_def)
next
  case (GraphQLEnumType x)
  with assms(2,3) show ?thesis by (simp add: fields_for_type.simps Let_def)
next
  case (GraphQLInputObjectType x)
  with assms(2,3) show ?thesis by (simp add: fields_for_type.simps Let_def)
next
  case (GraphQLInterfaceType x)
  with assms(2,3) show ?thesis by (simp add: fields_for_type.simps Let_def)
qed

lemma field_nodes_ok:
  assumes "level_ok depth schema" and "field_nodes depth schema name field = Inr s"
    and "node \<in> draws s"
  shows "nonempty_selection node"
proof -
  from assms(3) obtain cs cs' where "s cs = (Value node, cs')" by (auto simp: in_draws)
  from field_nodes_Value [OF assms(2) this] obtain arguments ss where
    node: "node = FieldNode name arguments (SelectionSetNode ss)"
    and ss: "ss \<in> draws (fields_for_type depth schema field)"
    by blast
  from fields_for_type_ok [OF assms(1) ss] node show ?thesis by simp
qed

lemma level_ok_all: "level_ok depth schema"
proof (induction depth)
  case 0
  show ?case by (simp add: level_ok_def lists_of_field_nodes.simps)
next
  case (Suc depth)
  show ?case
    unfolding level_ok_def
  proof (intro allI impI)
    fix items s nodes
    assume s: "lists_of_field_nodes (Suc depth) schema items = Inr s" and n: "nodes \<in> draws s"
    from n obtain cs cs' where d: "s cs = (Value nodes, cs')" by (auto simp: in_draws)
    from s have "list_of_nodes items (\<lambda>name field. field_nodes depth schema name field) = Inr s"
      by (simp add: lists_of_field_nodes.simps)
    from list_of_nodes_Value [OF this d]
    have all: "list_all2 (\<lambda>item node. \<exists>st. field_nodes depth schema (fst item) (snd item) = Inr st
        \<and> node \<in> draws st) items nodes" .
    then have len: "length nodes = length items" by (simp add: list_all2_lengthD)
    from all have "\<forall>i < length nodes. nonempty_selection (nodes ! i)"
      using field_nodes_ok [OF Suc] by (auto simp: list_all2_conv_all_nth)
    with len show "length nodes = length items \<and> list_all nonempty_selection nodes"
      by (simp add: list_all_length)
  qed
qed

section \<open>One operation, no empty selection set\<close>

lemma query_Inr_resolved:
  assumes "query depth lib schema fields = Inr s"
  shows "\<exists>parsed root.
      (schema = SchemaObject parsed \<or> (\<exists>source. schema = SchemaStr source \<and> build_schema lib source = Inr parsed))
      \<and> query_type parsed = Some root
      \<and> s = map_st (print_ast lib) (map_st make_query (u_fields depth parsed root fields))"
proof (cases schema)
  case (SchemaStr source)
  with assms obtain parsed where p: "build_schema lib source = Inr parsed"
    by (cases "build_schema lib source") (auto simp: query_def)
  with SchemaStr have "query depth lib schema fields = query depth lib (SchemaObject parsed) fields"
    by (intro query_resolved) simp
  with assms query_Inr [of depth lib parsed fields s] SchemaStr p show ?thesis by auto
next
  case (SchemaObject parsed)
  with assms query_Inr [of depth lib parsed fields s] show ?thesis by auto
qed

lemma query_documents:
  assumes "query depth lib schema fields = Inr s" and "s cs = (Value printed, cs')"
  shows "\<exists>parsed root selections.
      (schema = SchemaObject parsed \<or> (\<exists>source. schema = SchemaStr source \<and> build_schema lib source = Inr parsed))
      \<and> query_type parsed = Some root
      \<and> printed = print_ast lib (make_query selections)
      \<and> selections \<in> draws (u_fields depth parsed root fields)"
proof -
  from query_Inr_resolved [OF assms(1)] obtain parsed root where
    r: "schema = SchemaObject parsed \<or> (\<exists>source. schema = SchemaStr source \<and> build_schema lib source = Inr parsed)"
    and q: "query_type parsed = Some root"
    and s: "s = map_st (print_ast lib) (map_st make_query (u_fields depth parsed root fields))"
    by blast
  from assms(2) s obtain selections where
    "u_fields depth parsed root fields cs = (Value selections, cs')"
    and "printed = print_ast lib (make_query selections)"
    by (auto simp: map_st_Value)
  with r q show ?thesis by (auto intro: drawsI)
qed

text \<open>
  C6. Every document drawn from the strategy that \<open>query\<close> returns is printed from a
  document node with exactly one definition, a query operation whose selection set is not
  empty; no selection set inside it is empty, and every inline fragment has one. The same
  holds for every list of selections that \<open>u_fields\<close> produces, for any object type.
  \<open>subset_of_fields\<close> draws from the candidates sorted by name, and every subset it
  produces is a non-empty part of the candidates without a repeated name.
\<close>

theorem one_operation_and_nonempty_selection_sets:
  "(\<forall>s cs printed cs'. query depth lib schema fields = Inr s \<and> s cs = (Value printed, cs') \<longrightarrow>
      (\<exists>selections.
         printed = print_ast lib
           (DocumentNode [OperationDefinitionNode QUERY (SelectionSetNode (Some selections))])
         \<and> selections \<noteq> [] \<and> list_all nonempty_selection selections))
   \<and> (\<forall>nodes. nodes \<in> draws (u_fields depth parsed object_type restriction) \<longrightarrow>
        nodes \<noteq> [] \<and> list_all nonempty_selection nodes)
   \<and> subset_of_fields all_fields = lists_unique_by (sampled_from (sort_key fst all_fields)) 1 fst
   \<and> sorted (map fst (sort_key fst all_fields))
   \<and> set (sort_key fst all_fields) = set all_fields
   \<and> length (sort_key fst all_fields) = length all_fields
   \<and> (\<forall>items cs cs'. subset_of_fields all_fields cs = (Value items, cs') \<longrightarrow>
        items \<noteq> [] \<and> set items \<subseteq> set all_fields \<and> distinct (map fst items))"
proof -
  have 1: "\<forall>s cs printed cs'. query depth lib schema fields = Inr s \<and> s cs = (Value printed, cs') \<longrightarrow>
      (\<exists>selections.
         printed = print_ast lib
           (DocumentNode [OperationDefinitionNode QUERY (SelectionSetNode (Some selections))])
         \<and> selections \<noteq> [] \<and> list_all nonempty_selection selections)"
  proof (intro allI impI)
    fix s cs printed cs'
    assume "query depth lib schema fields = Inr s \<and> s cs = (Value printed, cs')"
    then have 1: "query depth lib schema fields = Inr s" and 2: "s cs = (Value printed, cs')"
      by simp_all
    from query_documents [OF 1 2] obtain parsed0 root selections where
      t: "printed = print_ast lib (make_query selections)"
      and d: "selections \<in> draws (u_fields depth parsed0 root fields)"
      by blast
    from u_fields_ok [OF level_ok_all d] t
    show "\<exists>selections.
         printed = print_ast lib
           (DocumentNode [OperationDefinitionNode QUERY (SelectionSetNode (Some selections))])
         \<and> selections \<noteq> [] \<and> list_all nonempty_selection selections"
      by (auto simp: make_query_def make_selection_set_node_def)
  qed
  have 2: "\<forall>nodes. nodes \<in> draws (u_fields depth parsed object_type restriction) \<longrightarrow>
        nodes \<noteq> [] \<and> list_all nonempty_selection nodes"
    using u_fields_ok [OF level_ok_all] by blast
  have 3: "subset_of_fields all_fields = lists_unique_by (sampled_from (sort_key fst all_fields)) 1 fst"
    by (simp add: subset_of_fields_def)
  have 4: "sorted (map fst (sort_key fst all_fields))" by simp
  have 5: "set (sort_key fst all_fields) = set all_fields" by simp
  have 6: "length (sort_key fst all_fields) = length all_fields" by simp
  have 7: "\<forall>items cs cs'. subset_of_fields all_fields cs = (Value items, cs') \<longrightarrow>
        items \<noteq> [] \<and> set items \<subseteq> set all_fields \<and> distinct (map fst items)"
    using subset_of_fields_Value by blast
  from 1 2 3 4 5 6 7 show ?thesis by (intro conjI)
qed

theorem one_operation_and_nonempty_selection_sets_witness:
  "projr (query 3 tiny_lib (SchemaObject conflict_schema) None) [0, 0, 1, 1, 0, 0, 0, 0, 0] =
     (Value ''{ getData { ... on StringModel { query } ... on FloatModel { query } } }'', [])
   \<and> (\<exists>selections.
        ''{ getData { ... on StringModel { query } ... on FloatModel { query } } }'' =
          print_ast tiny_lib
            (DocumentNode [OperationDefinitionNode QUERY (SelectionSetNode (Some selections))])
        \<and> selections \<noteq> [] \<and> list_all nonempty_selection selections)
   \<and> u_fields 3 conflict_schema ''Query'' None [0, 0, 1, 1, 0, 0, 0, 0, 0] =
       (Value
         [FieldNode ''getData'' []
           (SelectionSetNode
             (Some
               [InlineFragmentNode ''StringModel''
                 (SelectionSetNode (Some [FieldNode ''query'' [] (SelectionSetNode None)])),
                InlineFragmentNode ''FloatModel''
                 (SelectionSetNode (Some [FieldNode ''query'' [] (SelectionSetNode None)]))]))],
        [])
   \<and> list_all nonempty_selection
         [FieldNode ''getData'' []
           (SelectionSetNode
             (Some
               [InlineFragmentNode ''StringModel''
                 (SelectionSetNode (Some [FieldNode ''query'' [] (SelectionSetNode None)])),
                InlineFragmentNode ''FloatModel''
                 (SelectionSetNode (Some [FieldNode ''query'' [] (SelectionSetNode None)]))]))]
   \<and> subset_of_fields [(''getBooks'', 1 :: nat), (''getAuthors'', 2)] [1, 1, 0] =
       (Value [(''getBooks'', 1), (''getAuthors'', 2)], [])
   \<and> distinct (map fst [(''getBooks'', 1 :: nat), (''getAuthors'', 2)])"
proof -
  note T = one_operation_and_nonempty_selection_sets
    [where depth = 3 and lib = tiny_lib and schema = "SchemaObject conflict_schema" and fields = None
       and parsed = conflict_schema and object_type = "''Query''" and restriction = None
       and all_fields = "[(''getBooks'', 1 :: nat), (''getAuthors'', 2)]"]
  have "\<not> isl (query 3 tiny_lib (SchemaObject conflict_schema) None)" by code_simp
  then obtain s where s: "query 3 tiny_lib (SchemaObject conflict_schema) None = Inr s"
    by (cases "query 3 tiny_lib (SchemaObject conflict_schema) None") auto
  have "projr (query 3 tiny_lib (SchemaObject conflict_schema) None) [0, 0, 1, 1, 0, 0, 0, 0, 0] =
     (Value ''{ getData { ... on StringModel { query } ... on FloatModel { query } } }'', [])"
    by code_simp
  with s have a: "s [0, 0, 1, 1, 0, 0, 0, 0, 0] =
     (Value ''{ getData { ... on StringModel { query } ... on FloatModel { query } } }'', [])"
    by simp
  from T [THEN conjunct1, rule_format, OF conjI [OF s a]]
  have b: "\<exists>selections.
        ''{ getData { ... on StringModel { query } ... on FloatModel { query } } }'' =
          print_ast tiny_lib
            (DocumentNode [OperationDefinitionNode QUERY (SelectionSetNode (Some selections))])
        \<and> selections \<noteq> [] \<and> list_all nonempty_selection selections" .
  have c: "u_fields 3 conflict_schema ''Query'' None [0, 0, 1, 1, 0, 0, 0, 0, 0] =
       (Value
         [FieldNode ''getData'' []
           (SelectionSetNode
             (Some
               [InlineFragmentNode ''StringModel''
                 (SelectionSetNode (Some [FieldNode ''query'' [] (SelectionSetNode None)])),
                InlineFragmentNode ''FloatModel''
                 (SelectionSetNode (Some [FieldNode ''query'' [] (SelectionSetNode None)]))]))],
        [])"
    by code_simp
  from T [THEN conjunct2, THEN conjunct1, rule_format,
      OF drawsI [where s = "u_fields 3 conflict_schema ''Query'' None", OF c]]
  have d: "list_all nonempty_selection
         [FieldNode ''getData'' []
           (SelectionSetNode
             (Some
               [InlineFragmentNode ''StringModel''
                 (SelectionSetNode (Some [FieldNode ''query'' [] (SelectionSetNode None)])),
                InlineFragmentNode ''FloatModel''
                 (SelectionSetNode (Some [FieldNode ''query'' [] (SelectionSetNode None)]))]))]"
    by simp
  have e: "subset_of_fields [(''getBooks'', 1 :: nat), (''getAuthors'', 2)] [1, 1, 0] =
       (Value [(''getBooks'', 1), (''getAuthors'', 2)], [])"
    by code_simp
  from T e have f: "distinct (map fst [(''getBooks'', 1 :: nat), (''getAuthors'', 2)])"
    by blast
  from s a b c d e f show ?thesis by simp
qed

section \<open>The restriction to given fields\<close>

lemma root_selections_of_restricted:
  assumes "selections \<in> draws (u_fields depth parsed root (Some restriction))"
    and "restriction \<noteq> []"
  shows "\<exists>d. depth = Suc d \<and> selections \<noteq> []
     \<and> (\<forall>sel \<in> set selections. \<exists>name arguments nested field.
           sel = FieldNode name arguments (SelectionSetNode nested)
           \<and> name \<in> set restriction
           \<and> (name, field) \<in> set (object_fields parsed root)
           \<and> nested \<in> draws (fields_for_type d parsed field))"
proof -
  from u_fields_Value [OF assms(1)] obtain items s where
    items: "items \<in> draws (subset_of_fields (candidate_fields parsed root (Some restriction)))"
    and s: "lists_of_field_nodes depth parsed items = Inr s" and n: "selections \<in> draws s"
    by blast
  from s n obtain d where depth: "depth = Suc d"
    by (cases depth) (auto simp: lists_of_field_nodes.simps)
  from n obtain cs cs' where dr: "s cs = (Value selections, cs')" by (auto simp: in_draws)
  from s depth have "list_of_nodes items (\<lambda>name field. field_nodes d parsed name field) = Inr s"
    by (simp add: lists_of_field_nodes.simps)
  from list_of_nodes_Value [OF this dr]
  have all: "list_all2 (\<lambda>item node. \<exists>st. field_nodes d parsed (fst item) (snd item) = Inr st
        \<and> node \<in> draws st) items selections" .
  from draws_subset_of_fields [OF items] have ne: "items \<noteq> []"
    and sub: "set items \<subseteq> set (candidate_fields parsed root (Some restriction))"
    by simp_all
  from all ne have "selections \<noteq> []" by (auto simp: list_all2_conv_all_nth)
  moreover have "\<exists>name arguments nested field.
           sel = FieldNode name arguments (SelectionSetNode nested)
           \<and> name \<in> set restriction
           \<and> (name, field) \<in> set (object_fields parsed root)
           \<and> nested \<in> draws (fields_for_type d parsed field)"
    if "sel \<in> set selections" for sel
  proof -
    from that obtain i where i: "i < length selections" and sel: "selections ! i = sel"
      by (auto simp: in_set_conv_nth)
    from all i have len: "i < length items" by (simp add: list_all2_lengthD)
    obtain name field where it: "items ! i = (name, field)" by (cases "items ! i")
    from all i sel it obtain st where st: "field_nodes d parsed name field = Inr st"
      and dsel: "sel \<in> draws st"
      by (auto simp: list_all2_conv_all_nth)
    from dsel obtain c c' where "st c = (Value sel, c')" by (auto simp: in_draws)
    from field_nodes_Value [OF st this] obtain arguments nested where
      "sel = FieldNode name arguments (SelectionSetNode nested)"
      and "nested \<in> draws (fields_for_type d parsed field)"
      by blast
    moreover from len it sub have "(name, field) \<in> set (candidate_fields parsed root (Some restriction))"
      by (metis nth_mem subsetD)
    then have "name \<in> set restriction \<and> (name, field) \<in> set (object_fields parsed root)"
      using assms(2) by (auto simp: candidate_fields_def)
    ultimately show ?thesis by blast
  qed
  ultimately show ?thesis using depth by blast
qed

text \<open>
  C5. With a restriction, every document drawn from the strategy that \<open>query\<close> returns
  is printed from a document whose root selections are not empty and are all fields of
  the query type whose names are in the restriction. The restriction stops there: the
  nested selections of each root field are a value of \<open>fields_for_type\<close> for that field,
  which, for a field of an object type, is the strategy of \<open>u_fields\<close> with no restriction,
  whose candidates are all the fields that the type declares.
\<close>

theorem restriction_applies_to_the_root_only:
  "(\<forall>s cs printed cs'.
      query depth lib schema (Some restriction) = Inr s \<and> s cs = (Value printed, cs') \<longrightarrow>
      (\<exists>parsed root selections d.
         (schema = SchemaObject parsed \<or>
          (\<exists>source. schema = SchemaStr source \<and> build_schema lib source = Inr parsed))
         \<and> query_type parsed = Some root \<and> depth = Suc d
         \<and> printed = print_ast lib (make_query selections)
         \<and> selections \<noteq> []
         \<and> (\<forall>sel \<in> set selections. \<exists>name arguments nested field.
               sel = FieldNode name arguments (SelectionSetNode nested)
               \<and> name \<in> set restriction
               \<and> (name, field) \<in> set (object_fields parsed root)
               \<and> nested \<in> draws (fields_for_type d parsed field))))
   \<and> (\<forall>object. type_map graph (unwrap (field_type field)) = GraphQLObjectType object \<longrightarrow>
        fields_for_type level graph field =
          map_st Some (u_fields level graph (unwrap (field_type field)) None))
   \<and> candidate_fields graph object_type None = object_fields graph object_type"
proof -
  have 1: "\<forall>s cs printed cs'.
      query depth lib schema (Some restriction) = Inr s \<and> s cs = (Value printed, cs') \<longrightarrow>
      (\<exists>parsed root selections d.
         (schema = SchemaObject parsed \<or>
          (\<exists>source. schema = SchemaStr source \<and> build_schema lib source = Inr parsed))
         \<and> query_type parsed = Some root \<and> depth = Suc d
         \<and> printed = print_ast lib (make_query selections)
         \<and> selections \<noteq> []
         \<and> (\<forall>sel \<in> set selections. \<exists>name arguments nested field.
               sel = FieldNode name arguments (SelectionSetNode nested)
               \<and> name \<in> set restriction
               \<and> (name, field) \<in> set (object_fields parsed root)
               \<and> nested \<in> draws (fields_for_type d parsed field)))"
  proof (intro allI impI)
    fix s cs printed cs'
    assume "query depth lib schema (Some restriction) = Inr s \<and> s cs = (Value printed, cs')"
    then have q: "query depth lib schema (Some restriction) = Inr s"
      and dr: "s cs = (Value printed, cs')"
      by simp_all
    from q have ne: "restriction \<noteq> []"
      by (auto simp: query_def Let_def split: sum.splits option.splits if_splits)
    from query_documents [OF q dr] obtain parsed root selections where
      r: "schema = SchemaObject parsed \<or>
          (\<exists>source. schema = SchemaStr source \<and> build_schema lib source = Inr parsed)"
      and qt: "query_type parsed = Some root"
      and p: "printed = print_ast lib (make_query selections)"
      and d: "selections \<in> draws (u_fields depth parsed root (Some restriction))"
      by blast
    from root_selections_of_restricted [OF d ne] r qt p
    show "\<exists>parsed root selections d.
         (schema = SchemaObject parsed \<or>
          (\<exists>source. schema = SchemaStr source \<and> build_schema lib source = Inr parsed))
         \<and> query_type parsed = Some root \<and> depth = Suc d
         \<and> printed = print_ast lib (make_query selections)
         \<and> selections \<noteq> []
         \<and> (\<forall>sel \<in> set selections. \<exists>name arguments nested field.
               sel = FieldNode name arguments (SelectionSetNode nested)
               \<and> name \<in> set restriction
               \<and> (name, field) \<in> set (object_fields parsed root)
               \<and> nested \<in> draws (fields_for_type d parsed field))"
      by blast
  qed
  have 2: "\<forall>object. type_map graph (unwrap (field_type field)) = GraphQLObjectType object \<longrightarrow>
        fields_for_type level graph field =
          map_st Some (u_fields level graph (unwrap (field_type field)) None)"
    by (simp add: fields_for_type.simps Let_def)
  have 3: "candidate_fields graph object_type None = object_fields graph object_type"
    by (simp add: candidate_fields_def)
  from 1 2 3 show ?thesis by (intro conjI)
qed


theorem restriction_applies_to_the_root_only_witness:
  "projr (query 3 tiny_lib (SchemaObject simple_schema) (Some [''getBooks''])) [0, 0, 1, 0, 1, 0, 1] =
     (Value ''{ getBooks { author { name } title } }'', [])
   \<and> (\<exists>parsed root selections d.
         (SchemaObject simple_schema = SchemaObject parsed \<or>
          (\<exists>source. SchemaObject simple_schema = SchemaStr source
             \<and> build_schema tiny_lib source = Inr parsed))
         \<and> query_type parsed = Some root \<and> 3 = Suc d
         \<and> ''{ getBooks { author { name } title } }'' = print_ast tiny_lib (make_query selections)
         \<and> selections \<noteq> []
         \<and> (\<forall>sel \<in> set selections. \<exists>name arguments nested field.
               sel = FieldNode name arguments (SelectionSetNode nested)
               \<and> name \<in> set [''getBooks'']
               \<and> (name, field) \<in> set (object_fields parsed root)
               \<and> nested \<in> draws (fields_for_type d parsed field)))
   \<and> u_fields 3 simple_schema ''Query'' (Some [''getBooks'']) [0, 0, 1, 0, 1, 0, 1] =
       (Value
         [FieldNode ''getBooks'' []
           (SelectionSetNode
             (Some
               [FieldNode ''author'' []
                 (SelectionSetNode (Some [FieldNode ''name'' [] (SelectionSetNode None)])),
                FieldNode ''title'' [] (SelectionSetNode None)]))],
        [])"
proof -
  note T = restriction_applies_to_the_root_only
    [where depth = 3 and lib = tiny_lib and schema = "SchemaObject simple_schema"
       and restriction = "[''getBooks'']" and graph = simple_schema and level = 0
       and field = "GraphQLField [] (Named ''Book'')" and object_type = "''Query''"]
  have "\<not> isl (query 3 tiny_lib (SchemaObject simple_schema) (Some [''getBooks'']))" by code_simp
  then obtain s where s: "query 3 tiny_lib (SchemaObject simple_schema) (Some [''getBooks'']) = Inr s"
    by (cases "query 3 tiny_lib (SchemaObject simple_schema) (Some [''getBooks''])") auto
  have "projr (query 3 tiny_lib (SchemaObject simple_schema) (Some [''getBooks''])) [0, 0, 1, 0, 1, 0, 1] =
     (Value ''{ getBooks { author { name } title } }'', [])"
    by code_simp
  with s have a: "s [0, 0, 1, 0, 1, 0, 1] = (Value ''{ getBooks { author { name } title } }'', [])"
    by simp
  note b = T [THEN conjunct1, rule_format, OF conjI [OF s a]]
  have c: "u_fields 3 simple_schema ''Query'' (Some [''getBooks'']) [0, 0, 1, 0, 1, 0, 1] =
       (Value
         [FieldNode ''getBooks'' []
           (SelectionSetNode
             (Some
               [FieldNode ''author'' []
                 (SelectionSetNode (Some [FieldNode ''name'' [] (SelectionSetNode None)])),
                FieldNode ''title'' [] (SelectionSetNode None)]))],
        [])"
    by code_simp
  from s a b c show ?thesis by simp
qed

section \<open>String literals\<close>

lemma non_null_draws_subset:
  assumes "\<not> is_non_null ty" and "value_nodes depth schema (GraphQLNonNull ty) = Inr st'"
  shows "\<exists>st. value_nodes depth schema ty = Inr st \<and> draws st' \<subseteq> draws st"
proof (cases ty)
  case (Named name)
  show ?thesis
  proof (cases "type_map schema name")
    case GraphQLScalarType
    with assms Named have f: "scalar name False = Inr st'" by (simp add: value_nodes_cases)
    then have "\<not> isl (scalar name True)"
      using scalar_isl [of name False] scalar_isl [of name True] by auto
    then obtain st where t: "scalar name True = Inr st" by (cases "scalar name True") auto
    from scalar_nullable [OF t] f have "draws st' \<subseteq> draws st" by auto
    with t Named GraphQLScalarType show ?thesis by (simp add: value_nodes_cases)
  next
    case (GraphQLEnumType members)
    with assms Named have "st' = enum members False" by (simp add: value_nodes_cases)
    with enum_nullable [of members] Named GraphQLEnumType show ?thesis
      by (auto simp: value_nodes_cases)
  next
    case (GraphQLInputObjectType fields)
    with assms Named have "objects depth schema fields False = Inr st'"
      by (simp add: value_nodes_cases)
    with objects_nullable [of depth schema fields] Named GraphQLInputObjectType show ?thesis
      by (auto simp: value_nodes_cases)
  next
    case (GraphQLObjectType x)
    with assms Named show ?thesis by (simp add: value_nodes_cases)
  next
    case (GraphQLInterfaceType x)
    with assms Named show ?thesis by (simp add: value_nodes_cases)
  next
    case (GraphQLUnionType x)
    with assms Named show ?thesis by (simp add: value_nodes_cases)
  qed
next
  case (GraphQLList inner)
  with assms have f: "lists depth schema inner False = Inr st'" by (simp add: value_nodes_cases)
  then obtain st where t: "lists depth schema inner True = Inr st"
    by (auto simp: lists.simps Let_def split: sum.splits)
  from lists_nullable [OF t] f have "draws st' \<subseteq> draws st" by auto
  with t GraphQLList show ?thesis by (simp add: value_nodes_cases)
next
  case (GraphQLNonNull inner)
  with assms show ?thesis by simp
qed

lemma bmp_scalar:
  assumes "scalar name nullable = Inr st" and "v \<in> draws st"
  shows "bmp_value v"
proof (cases v)
  case (StringValueNode t)
  from assms(2) obtain cs cs' where "st cs = (Value v, cs')" by (auto simp: in_draws)
  with StringValueNode have "st cs = (Value (StringValueNode t), cs')" by simp
  from scalar_string_literals [OF assms(1) this] StringValueNode
  show ?thesis by (simp add: list_all_iff)
next
  case (ListValueNode x)
  with assms show ?thesis
    using draws_int_st [of nullable] draws_float_st [of nullable] draws_string_st_shape [of nullable]
      draws_boolean [of nullable]
    by (auto simp: scalar_def draws_id_st split: if_splits)
next
  case (ObjectValueNode x)
  with assms show ?thesis
    using draws_int_st [of nullable] draws_float_st [of nullable] draws_string_st_shape [of nullable]
      draws_boolean [of nullable]
    by (auto simp: scalar_def draws_id_st split: if_splits)
qed simp_all


lemma draws_lists_st: "vs \<in> draws (lists_st s m) \<Longrightarrow> set vs \<subseteq> draws s"
  by (auto simp: in_draws dest!: lists_st_Value)

lemma draws_flatmap:
  "v \<in> draws (flatmap s f) \<Longrightarrow> \<exists>a st. a \<in> draws s \<and> f a = Inr st \<and> v \<in> draws st"
  unfolding in_draws flatmap_Value by blast

lemma bmp_value_nodes:
  assumes "value_level_ok depth schema"
  shows "value_nodes depth schema ty = Inr st \<Longrightarrow> v \<in> draws st \<Longrightarrow> bmp_value v"
proof (induction ty arbitrary: st v)
  case (Named name)
  show ?case
  proof (cases "type_map schema name")
    case GraphQLScalarType
    with Named have "scalar name True = Inr st" by (simp add: value_nodes_cases)
    from bmp_scalar [OF this Named(2)] show ?thesis .
  next
    case (GraphQLEnumType members)
    with Named show ?thesis
      by (auto simp: value_nodes_cases enum_def Let_def draws_maybe_null)
  next
    case (GraphQLInputObjectType fields)
    with Named have "objects depth schema fields True = Inr st" by (simp add: value_nodes_cases)
    with Named(2) consider "v = ObjectValueNode None"
      | nodes where "v = ObjectValueNode (Some nodes)"
          "nodes \<in> draws (flatmap (subset_of_fields fields)
                             (\<lambda>items. list_of_object_field_nodes depth schema items))"
      by (auto simp: objects.simps Let_def draws_one_of)
    then show ?thesis
    proof cases
      case 1
      then show ?thesis by simp
    next
      case 2
      from draws_flatmap [OF 2(2)] obtain items st' where
        "list_of_object_field_nodes depth schema items = Inr st'" and "nodes \<in> draws st'"
        by blast
      with assms have "list_all bmp_object_field nodes"
        unfolding value_level_ok_def by blast
      with 2(1) show ?thesis by simp
    qed
  next
    case (GraphQLObjectType x)
    with Named show ?thesis by (simp add: value_nodes_cases)
  next
    case (GraphQLInterfaceType x)
    with Named show ?thesis by (simp add: value_nodes_cases)
  next
    case (GraphQLUnionType x)
    with Named show ?thesis by (simp add: value_nodes_cases)
  qed
next
  case (GraphQLList inner)
  from GraphQLList(2) have l: "lists depth schema inner True = Inr st"
    by (simp add: value_nodes_cases)
  then obtain element where e: "value_nodes depth schema inner = Inr element"
    and st: "st = builds ListValueNode (one_of [map_st Some (lists_st element 0), none])"
    by (auto simp: lists.simps Let_def split: sum.splits)
  from GraphQLList(3) st consider "v = ListValueNode None"
    | nodes where "v = ListValueNode (Some nodes)" "nodes \<in> draws (lists_st element 0)"
    by (auto simp: draws_one_of)
  then show ?case
  proof cases
    case 1
    then show ?thesis by simp
  next
    case 2
    from draws_lists_st [OF 2(2)] GraphQLList(1) [OF e]
    have "list_all bmp_value nodes" by (auto simp: list_all_iff)
    with 2(1) show ?thesis by simp
  qed
next
  case (GraphQLNonNull inner)
  show ?case
  proof (cases "is_non_null inner")
    case True
    then obtain i where "inner = GraphQLNonNull i" by (cases inner) auto
    with GraphQLNonNull(2) show ?thesis by (simp add: value_nodes_cases)
  next
    case False
    from non_null_draws_subset [OF False GraphQLNonNull(2)] obtain st0 where
      "value_nodes depth schema inner = Inr st0" and "draws st \<subseteq> draws st0"
      by blast
    with GraphQLNonNull(1) [of st0 v] GraphQLNonNull(3) show ?thesis by blast
  qed
qed

lemma value_level_ok_all: "value_level_ok depth schema"
proof (induction depth)
  case 0
  show ?case by (simp add: value_level_ok_def list_of_object_field_nodes.simps)
next
  case (Suc depth)
  show ?case
    unfolding value_level_ok_def
  proof (intro allI impI)
    fix items st nodes
    assume s: "list_of_object_field_nodes (Suc depth) schema items = Inr st"
      and n: "nodes \<in> draws st"
    from n obtain cs cs' where d: "st cs = (Value nodes, cs')" by (auto simp: in_draws)
    from s have "list_of_nodes items (\<lambda>name field. object_field_nodes depth schema name field) = Inr st"
      by (simp add: list_of_object_field_nodes.simps)
    from list_of_nodes_Value [OF this d]
    have all: "list_all2 (\<lambda>item node. \<exists>st. object_field_nodes depth schema (fst item) (snd item) = Inr st
        \<and> node \<in> draws st) items nodes" .
    have "bmp_object_field (nodes ! i)" if "i < length nodes" for i
    proof -
      from that have "i < length items" using all by (simp add: list_all2_lengthD)
      from list_all2_nthD [OF all this] obtain st' where
        o: "object_field_nodes depth schema (fst (items ! i)) (snd (items ! i)) = Inr st'"
        and dn: "nodes ! i \<in> draws st'"
        by blast
      from o obtain element where v: "value_nodes depth schema (snd (items ! i)) = Inr element"
        and st': "st' = builds (ObjectFieldNode (fst (items ! i))) element"
        by (auto simp: object_field_nodes.simps split: sum.splits)
      from dn st' obtain x where "x \<in> draws element" and "nodes ! i = ObjectFieldNode (fst (items ! i)) x"
        by auto
      with bmp_value_nodes [OF Suc v] show ?thesis by simp
    qed
    then show "list_all bmp_object_field nodes" by (simp add: list_all_length)
  qed
qed


lemma bmp_selection_Field [simp]:
  "bmp_selection (FieldNode name arguments (SelectionSetNode selections)) \<longleftrightarrow>
     list_all (\<lambda>argument. bmp_value (argument_value argument)) arguments
     \<and> (\<forall>nodes. selections = Some nodes \<longrightarrow> list_all bmp_selection nodes)"
  by (cases selections) auto

lemma bmp_selection_Fragment [simp]:
  "bmp_selection (InlineFragmentNode ty (SelectionSetNode selections)) \<longleftrightarrow>
     (\<forall>nodes. selections = Some nodes \<longrightarrow> list_all bmp_selection nodes)"
  by (cases selections) auto

declare bmp_selection.simps [simp del]

lemma u_fields_bmp:
  assumes "selection_level_bmp depth schema"
    and "nodes \<in> draws (u_fields depth schema object_type fields)"
  shows "list_all bmp_selection nodes"
proof -
  from u_fields_Value [OF assms(2)] obtain items s where
    "lists_of_field_nodes depth schema items = Inr s" and "nodes \<in> draws s"
    by blast
  with assms(1) show ?thesis unfolding selection_level_bmp_def by blast
qed

lemma inline_fragment_bmp:
  assumes "selection_level_bmp depth schema" and "node \<in> draws (inline_fragment depth schema ty)"
  shows "bmp_selection node"
proof -
  from assms(2) obtain nodes where "nodes \<in> draws (u_fields depth schema ty None)"
    and "node = InlineFragmentNode ty (SelectionSetNode (Some nodes))"
    by (auto simp: inline_fragment.simps make_selection_set_node_def)
  with u_fields_bmp [OF assms(1)] show ?thesis by auto
qed

lemma inline_fragments_bmp:
  assumes "selection_level_bmp depth schema"
    and "nodes \<in> draws (inline_fragments depth schema items)"
  shows "list_all bmp_selection nodes"
proof -
  from assms(2) obtain cs cs' where
    "tuples (map (\<lambda>ty. inline_fragment depth schema ty) items) cs = (Value nodes, cs')"
    by (auto simp: inline_fragments.simps in_draws map_st_Value)
  from tuples_Value [OF this]
  have all: "list_all2 (\<lambda>s v. v \<in> draws s) (map (\<lambda>ty. inline_fragment depth schema ty) items) nodes" .
  have "bmp_selection (nodes ! i)" if "i < length nodes" for i
  proof -
    from that all have i: "i < length items" by (auto dest: list_all2_lengthD)
    then have "i < length (map (\<lambda>ty. inline_fragment depth schema ty) items)" by simp
    from list_all2_nthD [OF all this] i
    have "nodes ! i \<in> draws (inline_fragment depth schema (items ! i))" by simp
    with inline_fragment_bmp [OF assms(1)] show ?thesis by blast
  qed
  then show ?thesis by (simp add: list_all_length)
qed

lemma fields_for_type_bmp:
  assumes "selection_level_bmp depth schema"
    and "selections \<in> draws (fields_for_type depth schema field)"
    and "selections = Some nodes"
  shows "list_all bmp_selection nodes"
proof (cases "type_map schema (unwrap (field_type field))")
  case (GraphQLObjectType fs)
  with assms(2,3) have "nodes \<in> draws (u_fields depth schema (unwrap (field_type field)) None)"
    by (auto simp: fields_for_type.simps Let_def)
  with u_fields_bmp [OF assms(1)] show ?thesis by blast
next
  case (GraphQLUnionType types)
  with assms(2,3) have "nodes \<in> draws
      (flatmap (lists_unique_by (sampled_from types) 1 (\<lambda>m. m))
         (\<lambda>items. Inr (inline_fragments depth schema items)))"
    by (auto simp: fields_for_type.simps Let_def)
  from draws_flatmap [OF this] obtain items where
    "nodes \<in> draws (inline_fragments depth schema items)"
    by auto
  with inline_fragments_bmp [OF assms(1)] show ?thesis by blast
next
  case GraphQLScalarType
  with assms(2,3) show ?thesis by (simp add: fields_for_type.simps Let_def)
next
  case (GraphQLEnumType x)
  with assms(2,3) show ?thesis by (simp add: fields_for_type.simps Let_def)
next
  case (GraphQLInputObjectType x)
  with assms(2,3) show ?thesis by (simp add: fields_for_type.simps Let_def)
next
  case (GraphQLInterfaceType x)
  with assms(2,3) show ?thesis by (simp add: fields_for_type.simps Let_def)
qed

lemma field_nodes_bmp:
  assumes "selection_level_bmp depth schema" and "field_nodes depth schema name field = Inr s"
    and "node \<in> draws s"
  shows "bmp_selection node"
proof -
  from assms(3) obtain cs cs' where d: "s cs = (Value node, cs')" by (auto simp: in_draws)
  from field_nodes_Value [OF assms(2) d] obtain arguments ss where
    node: "node = FieldNode name arguments (SelectionSetNode ss)"
    and ss: "ss \<in> draws (fields_for_type depth schema field)"
    by blast
  from field_nodes_arguments [OF assms(2) d] node
  have vals: "list_all2
      (\<lambda>node item. \<exists>st. value_nodes depth schema (snd item) = Inr st
          \<and> argument_name node = fst item \<and> argument_value node \<in> draws st)
      arguments
      (filter (\<lambda>(name, argument). supported_type schema argument) (field_args field))"
    by simp
  have "bmp_value (argument_value (arguments ! i))" if "i < length arguments" for i
  proof -
    from list_all2_nthD [OF vals that] obtain st ty where
      "value_nodes depth schema ty = Inr st" and "argument_value (arguments ! i) \<in> draws st"
      by blast
    then show ?thesis by (rule bmp_value_nodes [OF value_level_ok_all])
  qed
  then have "list_all (\<lambda>argument. bmp_value (argument_value argument)) arguments"
    by (simp add: list_all_length)
  with fields_for_type_bmp [OF assms(1) ss] node show ?thesis by simp
qed

lemma selection_level_bmp_all: "selection_level_bmp depth schema"
proof (induction depth)
  case 0
  show ?case by (simp add: selection_level_bmp_def lists_of_field_nodes.simps)
next
  case (Suc depth)
  show ?case
    unfolding selection_level_bmp_def
  proof (intro allI impI)
    fix items s nodes
    assume s: "lists_of_field_nodes (Suc depth) schema items = Inr s" and n: "nodes \<in> draws s"
    from n obtain cs cs' where d: "s cs = (Value nodes, cs')" by (auto simp: in_draws)
    from s have "list_of_nodes items (\<lambda>name field. field_nodes depth schema name field) = Inr s"
      by (simp add: lists_of_field_nodes.simps)
    from list_of_nodes_Value [OF this d]
    have all: "list_all2 (\<lambda>item node. \<exists>st. field_nodes depth schema (fst item) (snd item) = Inr st
        \<and> node \<in> draws st) items nodes" .
    have "bmp_selection (nodes ! i)" if "i < length nodes" for i
    proof -
      from that all have "i < length items" by (auto dest: list_all2_lengthD)
      from list_all2_nthD [OF all this] show ?thesis
        using field_nodes_bmp [OF Suc] by blast
    qed
    then show "list_all bmp_selection nodes" by (simp add: list_all_length)
  qed
qed

text \<open>
  C8. Every string literal that is generated consists of code points up to U+FFFF that
  are not surrogates (U+D800 to U+DFFF): the string literals that the strategy of a scalar
  produces (for String, and for ID), the string literals inside any value drawn from the
  strategy that \<open>value_nodes\<close> builds for an input type, at any depth of lists and input
  objects, and so every string literal among the arguments of a drawn document.
\<close>

theorem string_literals_without_surrogates:
  "(\<forall>s cs t cs' cp.
      scalar name nullable = Inr s \<and> s cs = (Value (StringValueNode t), cs') \<and> cp \<in> set t \<longrightarrow>
      cp \<le> 0xFFFF \<and> \<not> (0xD800 \<le> cp \<and> cp \<le> 0xDFFF))
   \<and> (\<forall>st cs v cs'. value_nodes depth schema ty = Inr st \<and> st cs = (Value v, cs') \<longrightarrow> bmp_value v)
   \<and> (\<forall>nodes cs cs'. u_fields depth schema object_type restriction cs = (Value nodes, cs') \<longrightarrow>
        list_all bmp_selection nodes)
   \<and> (\<forall>s cs printed cs'. query depth lib source fields = Inr s \<and> s cs = (Value printed, cs') \<longrightarrow>
        (\<exists>selections. printed = print_ast lib (make_query selections)
           \<and> list_all bmp_selection selections))"
proof -
  have 1: "\<forall>s cs t cs' cp.
      scalar name nullable = Inr s \<and> s cs = (Value (StringValueNode t), cs') \<and> cp \<in> set t \<longrightarrow>
      cp \<le> 0xFFFF \<and> \<not> (0xD800 \<le> cp \<and> cp \<le> 0xDFFF)"
    using scalar_string_literals by blast
  have 2: "\<forall>st cs v cs'. value_nodes depth schema ty = Inr st \<and> st cs = (Value v, cs') \<longrightarrow> bmp_value v"
  proof (intro allI impI)
    fix st cs v cs'
    assume "value_nodes depth schema ty = Inr st \<and> st cs = (Value v, cs')"
    then have v: "value_nodes depth schema ty = Inr st" and d: "st cs = (Value v, cs')"
      by simp_all
    from d have "v \<in> draws st" by (rule drawsI)
    with v show "bmp_value v" by (rule bmp_value_nodes [OF value_level_ok_all])
  qed
  have 3: "\<forall>nodes cs cs'. u_fields depth schema object_type restriction cs = (Value nodes, cs') \<longrightarrow>
        list_all bmp_selection nodes"
  proof (intro allI impI)
    fix nodes cs cs'
    assume "u_fields depth schema object_type restriction cs = (Value nodes, cs')"
    then have "nodes \<in> draws (u_fields depth schema object_type restriction)"
      by (rule drawsI)
    then show "list_all bmp_selection nodes" by (rule u_fields_bmp [OF selection_level_bmp_all])
  qed
  have 4: "\<forall>s cs printed cs'. query depth lib source fields = Inr s \<and> s cs = (Value printed, cs') \<longrightarrow>
        (\<exists>selections. printed = print_ast lib (make_query selections)
           \<and> list_all bmp_selection selections)"
  proof (intro allI impI)
    fix s cs printed cs'
    assume "query depth lib source fields = Inr s \<and> s cs = (Value printed, cs')"
    then have q: "query depth lib source fields = Inr s" and d: "s cs = (Value printed, cs')"
      by simp_all
    from query_documents [OF q d] obtain parsed root selections where
      "printed = print_ast lib (make_query selections)"
      and "selections \<in> draws (u_fields depth parsed root fields)"
      by blast
    with u_fields_bmp [OF selection_level_bmp_all]
    show "\<exists>selections. printed = print_ast lib (make_query selections)
           \<and> list_all bmp_selection selections"
      by blast
  qed
  from 1 2 3 4 show ?thesis by (intro conjI)
qed


theorem string_literals_without_surrogates_witness:
  "scalar ''String'' False = Inr (string_st False)
   \<and> string_st False [2, 65, 57344] = (Value (StringValueNode [65, 57344]), [])
   \<and> (57344::nat) \<le> 0xFFFF \<and> \<not> (0xD800 \<le> (57344::nat) \<and> (57344::nat) \<le> 0xDFFF)
   \<and> projr (value_nodes 2 input_schema (GraphQLNonNull (Named ''QueryInput'')))
         [1, 0, 1, 0, 1, 65, 0, 2, 1, 66, 1, 67] =
       (Value (ObjectValueNode (Some
          [ObjectFieldNode ''eq'' (StringValueNode [65]),
           ObjectFieldNode ''in'' (ListValueNode (Some [StringValueNode [66], StringValueNode [67]]))])),
        [])
   \<and> bmp_value (ObjectValueNode (Some
          [ObjectFieldNode ''eq'' (StringValueNode [65]),
           ObjectFieldNode ''in'' (ListValueNode (Some [StringValueNode [66], StringValueNode [67]]))]))
   \<and> u_fields 3 input_schema ''Query'' None [0, 0, 1, 0, 1, 0, 1, 65, 0, 2, 1, 66, 1, 67, 0, 0] =
       (Value
         [FieldNode ''getModel''
           [ArgumentNode ''contains''
             (ObjectValueNode (Some
                [ObjectFieldNode ''eq'' (StringValueNode [65]),
                 ObjectFieldNode ''in''
                   (ListValueNode (Some [StringValueNode [66], StringValueNode [67]]))]))]
           (SelectionSetNode (Some [FieldNode ''id'' [] (SelectionSetNode None)]))],
        [])
   \<and> list_all bmp_selection
         [FieldNode ''getModel''
           [ArgumentNode ''contains''
             (ObjectValueNode (Some
                [ObjectFieldNode ''eq'' (StringValueNode [65]),
                 ObjectFieldNode ''in''
                   (ListValueNode (Some [StringValueNode [66], StringValueNode [67]]))]))]
           (SelectionSetNode (Some [FieldNode ''id'' [] (SelectionSetNode None)]))]"
proof -
  note T = string_literals_without_surrogates
    [where name = "''String''" and nullable = False and depth = 2 and schema = input_schema
       and ty = "GraphQLNonNull (Named ''QueryInput'')" and lib = tiny_lib
       and source = "SchemaObject input_schema" and fields = None
       and object_type = "''Query''" and restriction = None]
  note U = string_literals_without_surrogates
    [where name = "''String''" and nullable = False and depth = 3 and schema = input_schema
       and ty = "GraphQLNonNull (Named ''QueryInput'')" and lib = tiny_lib
       and source = "SchemaObject input_schema" and fields = None
       and object_type = "''Query''" and restriction = None]
  have a: "scalar ''String'' False = Inr (string_st False)" by (simp add: scalar_def)
  have b: "string_st False [2, 65, 57344] = (Value (StringValueNode [65, 57344]), [])"
    by code_simp
  have c: "(57344::nat) \<in> set [65, 57344]" by simp
  from T [THEN conjunct1, rule_format, OF conjI [OF a conjI [OF b c]]]
  have d: "(57344::nat) \<le> 0xFFFF \<and> \<not> (0xD800 \<le> (57344::nat) \<and> (57344::nat) \<le> 0xDFFF)" .
  have "\<not> isl (value_nodes 2 input_schema (GraphQLNonNull (Named ''QueryInput'')))" by code_simp
  then obtain st where st: "value_nodes 2 input_schema (GraphQLNonNull (Named ''QueryInput'')) = Inr st"
    by (cases "value_nodes 2 input_schema (GraphQLNonNull (Named ''QueryInput''))") auto
  have e: "projr (value_nodes 2 input_schema (GraphQLNonNull (Named ''QueryInput'')))
         [1, 0, 1, 0, 1, 65, 0, 2, 1, 66, 1, 67] =
       (Value (ObjectValueNode (Some
          [ObjectFieldNode ''eq'' (StringValueNode [65]),
           ObjectFieldNode ''in'' (ListValueNode (Some [StringValueNode [66], StringValueNode [67]]))])),
        [])"
    by code_simp
  with st have e': "st [1, 0, 1, 0, 1, 65, 0, 2, 1, 66, 1, 67] =
       (Value (ObjectValueNode (Some
          [ObjectFieldNode ''eq'' (StringValueNode [65]),
           ObjectFieldNode ''in'' (ListValueNode (Some [StringValueNode [66], StringValueNode [67]]))])),
        [])"
    by simp
  from T [THEN conjunct2, THEN conjunct1, rule_format, OF conjI [OF st e']]
  have f: "bmp_value (ObjectValueNode (Some
          [ObjectFieldNode ''eq'' (StringValueNode [65]),
           ObjectFieldNode ''in'' (ListValueNode (Some [StringValueNode [66], StringValueNode [67]]))]))" .
  have g: "u_fields 3 input_schema ''Query'' None [0, 0, 1, 0, 1, 0, 1, 65, 0, 2, 1, 66, 1, 67, 0, 0] =
       (Value
         [FieldNode ''getModel''
           [ArgumentNode ''contains''
             (ObjectValueNode (Some
                [ObjectFieldNode ''eq'' (StringValueNode [65]),
                 ObjectFieldNode ''in''
                   (ListValueNode (Some [StringValueNode [66], StringValueNode [67]]))]))]
           (SelectionSetNode (Some [FieldNode ''id'' [] (SelectionSetNode None)]))],
        [])"
    by code_simp
  from U [THEN conjunct2, THEN conjunct2, THEN conjunct1, rule_format, OF g]
  have h: "list_all bmp_selection
         [FieldNode ''getModel''
           [ArgumentNode ''contains''
             (ObjectValueNode (Some
                [ObjectFieldNode ''eq'' (StringValueNode [65]),
                 ObjectFieldNode ''in''
                   (ListValueNode (Some [StringValueNode [66], StringValueNode [67]]))]))]
           (SelectionSetNode (Some [FieldNode ''id'' [] (SelectionSetNode None)]))]" .
  from a b d e f g h show ?thesis by (intro conjI) simp_all
qed

end
